theory Spec2Isabelle
  imports Main
begin

section \<open>Errors\<close>

text \<open>
  Go error values as the handlers of \<^verbatim>\<open>api/database_cluster.go\<close> and
  \<^verbatim>\<open>api/backup_storage.go\<close> tell them apart: the two sentinels
  \<^verbatim>\<open>gorm.ErrRecordNotFound\<close> and \<^verbatim>\<open>kubernetes.ErrConfigInUse\<close>, a
  \<^verbatim>\<open>*pq.Error\<close> (code name, message and detail), a message built by \<^verbatim>\<open>errors.New\<close> or
  \<^verbatim>\<open>fmt.Errorf\<close> (also standing for any other failure of a collaborator), and
  \<^verbatim>\<open>errors.Join\<close> of two errors.
\<close>

datatype error =
    ErrRecordNotFound
  | ErrConfigInUse
  | PqError string string string
  | ErrMsg string
  | Join error error

text \<open>\<^verbatim>\<open>errors.Is\<close>: the error itself, or one of the errors joined into it.\<close>

fun errors_Is :: "error \<Rightarrow> error \<Rightarrow> bool" where
  "errors_Is (Join a b) t = (Join a b = t \<or> errors_Is a t \<or> errors_Is b t)"
| "errors_Is e t = (e = t)"

text \<open>
  \<^verbatim>\<open>errors.As(err, &pgErr)\<close>: the first \<^verbatim>\<open>*pq.Error\<close> in the error, depth first;
  of it the handlers read the code name and the detail.
\<close>

fun errors_As_pq :: "error \<Rightarrow> (string \<times> string) option" where
  "errors_As_pq (PqError code message detail) = Some (code, detail)"
| "errors_As_pq (Join a b) =
     (case errors_As_pq a of Some p \<Rightarrow> Some p | None \<Rightarrow> errors_As_pq b)"
| "errors_As_pq e = None"

definition pgErrUniqueViolation :: string where
  "pgErrUniqueViolation = ''unique_violation''"

text \<open>\<^verbatim>\<open>Error.Error()\<close>, the text of an error, as far as the handlers print it.\<close>

fun err_Error :: "error \<Rightarrow> string" where
  "err_Error ErrRecordNotFound = ''record not found''"
| "err_Error ErrConfigInUse = ''config is in use''"
| "err_Error (PqError code message detail) = ''pq: '' @ message"
| "err_Error (ErrMsg m) = m"
| "err_Error (Join a b) = err_Error a @ [CHR 0x0A] @ err_Error b"

section \<open>Database cluster specifications and the name resolvers\<close>

text \<open>
  The request body \<^verbatim>\<open>DatabaseCluster\<close> (generated API type): every struct
  is behind a pointer, \<^verbatim>\<open>nil\<close> is \<open>None\<close>. Only the fields the resolvers read
  are kept.
\<close>

record api_BackupSource =
  api_src_BackupStorageName :: string

record api_DataSource =
  api_BackupSource :: "api_BackupSource option"

record api_Schedule =
  api_sched_BackupStorageName :: string

record api_Backup =
  api_Schedules :: "api_Schedule list option"

record api_Monitoring =
  api_MonitoringConfigName :: "string option"

record api_Spec =
  api_DataSource :: "api_DataSource option"
  api_Backup :: "api_Backup option"
  api_Monitoring :: "api_Monitoring option"

record DatabaseCluster =
  api_Spec :: "api_Spec option"

text \<open>
  The stored object \<^verbatim>\<open>everestv1alpha1.DatabaseCluster\<close> (operator type):
  \<^verbatim>\<open>Spec\<close> and \<^verbatim>\<open>Spec.Backup\<close> are structs, \<^verbatim>\<open>Schedules\<close> a slice,
  \<^verbatim>\<open>DataSource\<close>, \<^verbatim>\<open>BackupSource\<close> and \<^verbatim>\<open>Monitoring\<close> pointers, the names
  plain strings.
\<close>

record k8s_BackupSource =
  k8s_src_BackupStorageName :: string

record k8s_DataSource =
  k8s_BackupSource :: "k8s_BackupSource option"

record k8s_Schedule =
  k8s_sched_BackupStorageName :: string

record k8s_Monitoring =
  k8s_MonitoringConfigName :: string

record k8s_DatabaseCluster =
  k8s_DataSource :: "k8s_DataSource option"
  k8s_Schedules :: "k8s_Schedule list"
  k8s_Monitoring :: "k8s_Monitoring option"

text \<open>
  A Go \<^verbatim>\<open>map[string]struct{}\<close> is the list of its keys, each once;
  \<^verbatim>\<open>m[k] = struct{}{}\<close> is \<open>map_put\<close>. The order of the list is not the order
  a \<^verbatim>\<open>range\<close> visits the keys in: that order is the environment's choice
  (\<open>rangeOrder\<close> below).
\<close>

definition map_put :: "string \<Rightarrow> string list \<Rightarrow> string list" where
  "map_put k ks = (if k \<in> set ks then ks else ks @ [k])"

definition backupStorageNamesFrom :: "DatabaseCluster \<Rightarrow> string list" where
  "backupStorageNamesFrom dbc =
     (case api_Spec dbc of
        None \<Rightarrow> []
      | Some spec \<Rightarrow>
          (let names =
                 (case api_DataSource spec of
                    None \<Rightarrow> []
                  | Some ds \<Rightarrow>
                      (case api_BackupSource ds of
                         None \<Rightarrow> []
                       | Some src \<Rightarrow> map_put (api_src_BackupStorageName src) []))
           in case api_Backup spec of
                None \<Rightarrow> names
              | Some b \<Rightarrow>
                  (case api_Schedules b of
                     None \<Rightarrow> names
                   | Some schedules \<Rightarrow>
                       foldl (\<lambda>acc schedule. map_put (api_sched_BackupStorageName schedule) acc)
                         names schedules)))"

definition monitoringNameFrom :: "DatabaseCluster \<Rightarrow> string" where
  "monitoringNameFrom db =
     (case api_Spec db of
        None \<Rightarrow> []
      | Some spec \<Rightarrow>
          (case api_Monitoring spec of
             None \<Rightarrow> []
           | Some m \<Rightarrow>
               (case api_MonitoringConfigName m of
                  None \<Rightarrow> []
                | Some n \<Rightarrow> n)))"

definition withBackupStorageNamesFromDBCluster ::
  "string list \<Rightarrow> k8s_DatabaseCluster \<Rightarrow> string list" where
  "withBackupStorageNamesFromDBCluster existing dbc =
     (let existing1 =
            (case k8s_DataSource dbc of
               None \<Rightarrow> existing
             | Some ds \<Rightarrow>
                 (case k8s_BackupSource ds of
                    None \<Rightarrow> existing
                  | Some src \<Rightarrow>
                      (if k8s_src_BackupStorageName src \<noteq> []
                       then map_put (k8s_src_BackupStorageName src) existing
                       else existing)))
      in foldl (\<lambda>acc schedule.
                  if k8s_sched_BackupStorageName schedule \<noteq> []
                  then map_put (k8s_sched_BackupStorageName schedule) acc
                  else acc)
           existing1 (k8s_Schedules dbc))"

definition uniqueKeys :: "string list \<Rightarrow> string list \<Rightarrow> string list" where
  "uniqueKeys source target =
     foldl (\<lambda>keysNotInSource key.
              if key \<in> set source then keysNotInSource else map_put key keysNotInSource)
       [] target"

section \<open>The collaborators\<close>

text \<open>
  The handlers talk to a metadata store, a secrets vault and the Kubernetes client of one
  registered cluster, and they proxy the request itself to Kubernetes. None of these is
  part of the handlers' source; each call to one of them is a \<open>call\<close>, and the
  environment decides, from the calls made so far, whether it fails (\<open>fault\<close>).
  A Kubernetes client is named by the id of its cluster. A config handed to the client
  is named by its kind and by the name its record was fetched under.
\<close>

type_synonym kube = string

datatype config = BackupStorageConfig string | MonitoringConfig string

datatype call =
    GetBodyFromContext
  | ValidateDatabaseClusterCR string
  | ValidateDatabaseClusterOnUpdate
  | GetKubernetesCluster string
  | NewFromSecretsStorage string
  | ListKubernetesClusters
  | GetBackupStorage string
  | CreateBackupStorageRecord string
  | UpdateBackupStorageRecord string
  | Commit
  | GetMonitoringInstance string
  | GetSecret string
  | CreateSecret string
  | DeleteSecret string
  | ValidateStorageAccessByUpdate string
  | GetDatabaseCluster kube string
  | EnsureConfigExists kube config
  | UpdateConfig kube config
  | DeleteConfig kube config
  | ProxyKubernetes string string

datatype event = Called call "error option" | Logged error

text \<open>\<^verbatim>\<open>model.BackupStorage\<close>, the record of the metadata store.\<close>

record BackupStorage =
  Name :: string
  Description :: string
  Type :: string
  BucketName :: string
  URL :: string
  Region :: string
  AccessKeyID :: string
  SecretKeyID :: string

text \<open>
  A function started with \<^verbatim>\<open>go\<close> runs beside the handler and beside the other
  goroutines, and what it does can be cut at each of its calls. It is written as what is
  left of it to do: nothing (\<open>Done\<close>); a call to a collaborator and, for each answer,
  what follows (\<open>Call\<close>); the same for \<^verbatim>\<open>e.storage.GetBackupStorage\<close>, which
  answers with an error or a record (\<open>Fetch\<close>); a line of the log and what follows
  (\<open>Log\<close>); the start of a \<^verbatim>\<open>range\<close> over a map and, for each order of its
  keys, what follows (\<open>Range\<close>). The wait group that counts the goroutines is left
  out: no handler reads it.
\<close>

datatype prog =
    Done
  | Call call "error option \<Rightarrow> prog"
  | Fetch string "error + BackupStorage \<Rightarrow> prog"
  | Log error prog
  | Range "string list" "string list \<Rightarrow> prog"

text \<open>
  The state the handlers act on: the calls and log lines so far, the secrets vault, the
  backup-storage records, every (vault, records) pair a write has produced, and the
  goroutines started.
\<close>

record st =
  trace :: "event list"
  vault :: "string \<rightharpoonup> string"
  bstore :: "string \<rightharpoonup> BackupStorage"
  snaps :: "((string \<rightharpoonup> string) \<times> (string \<rightharpoonup> BackupStorage)) list"
  spawned :: "prog list"

text \<open>
  The environment: which calls fail, the order a \<^verbatim>\<open>range\<close> over a map visits its
  keys in, \<^verbatim>\<open>uuid.NewString\<close>, the status the proxy writes to the response, the
  stored database clusters, the ids of the registered Kubernetes clusters in the order
  \<^verbatim>\<open>ListKubernetesClusters\<close> returns them, and
  \<^verbatim>\<open>kubernetes.BackupStorageNamesFromDBCluster\<close> (package \<^verbatim>\<open>pkg/kubernetes\<close>).
\<close>

record env =
  fault :: "event list \<Rightarrow> call \<Rightarrow> error option"
  rangeOrder :: "event list \<Rightarrow> string list \<Rightarrow> string list"
  NewString :: "event list \<Rightarrow> string"
  proxyStatus :: "event list \<Rightarrow> nat"
  databaseCluster :: "event list \<Rightarrow> kube \<Rightarrow> string \<Rightarrow> k8s_DatabaseCluster"
  kubernetesClusters :: "event list \<Rightarrow> string list"
  BackupStorageNamesFromDBCluster :: "k8s_DatabaseCluster \<Rightarrow> string list"

definition ext :: "env \<Rightarrow> call \<Rightarrow> st \<Rightarrow> error option \<times> st" where
  "ext env c s =
     (let r = fault env (trace s) c in (r, s\<lparr>trace := trace s @ [Called c r]\<rparr>))"

definition logError :: "error \<Rightarrow> st \<Rightarrow> st" where
  "logError e s = s\<lparr>trace := trace s @ [Logged e]\<rparr>"

definition go :: "prog \<Rightarrow> st \<Rightarrow> st" where
  "go p s = s\<lparr>spawned := spawned s @ [p]\<rparr>"

definition snap :: "st \<Rightarrow> st" where
  "snap s = s\<lparr>snaps := snaps s @ [(vault s, bstore s)]\<rparr>"

text \<open>
  Modelled from the spec: the Metadata Store's \<^verbatim>\<open>GetBackupStorage(name)\<close>
  (package \<^verbatim>\<open>model\<close>, not among the sources), "fallible with a distinguishable
  not found condition".
\<close>

definition storage_GetBackupStorage ::
  "env \<Rightarrow> string \<Rightarrow> st \<Rightarrow> (error + BackupStorage) \<times> st" where
  "storage_GetBackupStorage env name s =
     (let r = (case fault env (trace s) (GetBackupStorage name) of
                 Some e \<Rightarrow> Inl e
               | None \<Rightarrow>
                   (case bstore s name of
                      None \<Rightarrow> Inl ErrRecordNotFound
                    | Some bs \<Rightarrow> Inr bs))
      in (r, s\<lparr>trace := trace s @
                 [Called (GetBackupStorage name)
                    (case r of Inl e \<Rightarrow> Some e | Inr bs \<Rightarrow> None)]\<rparr>))"

definition kube_GetDatabaseCluster ::
  "env \<Rightarrow> kube \<Rightarrow> string \<Rightarrow> st \<Rightarrow> (error + k8s_DatabaseCluster) \<times> st" where
  "kube_GetDatabaseCluster env kubeClient name s =
     (case ext env (GetDatabaseCluster kubeClient name) s of
        (Some err, s1) \<Rightarrow> (Inl err, s1)
      | (None, s1) \<Rightarrow> (Inr (databaseCluster env (trace s) kubeClient name), s1))"

definition proxyKubernetes :: "env \<Rightarrow> string \<Rightarrow> string \<Rightarrow> st \<Rightarrow> (error + nat) \<times> st" where
  "proxyKubernetes env kubernetesID name s =
     (case ext env (ProxyKubernetes kubernetesID name) s of
        (Some err, s1) \<Rightarrow> (Inl err, s1)
      | (None, s1) \<Rightarrow> (Inr (proxyStatus env (trace s)), s1))"

section \<open>Responses\<close>

datatype body =
    Message string
  | Result string string string string string string

datatype response =
    JSON nat body
  | Proxied nat
  | Returned error
  | Panic

definition StatusOK :: nat where "StatusOK = 200"

definition StatusMultipleChoices :: nat where "StatusMultipleChoices = 300"

definition StatusBadRequest :: nat where "StatusBadRequest = 400"

definition StatusNotFound :: nat where "StatusNotFound = 404"

definition StatusConflict :: nat where "StatusConflict = 409"

definition StatusInternalServerError :: nat where "StatusInternalServerError = 500"

section \<open>Database cluster handlers\<close>

definition initKubeClient ::
  "env \<Rightarrow> string \<Rightarrow> st \<Rightarrow> ((nat \<times> error) + kube) \<times> st" where
  "initKubeClient env kubernetesID s =
     (case ext env (GetKubernetesCluster kubernetesID) s of
        (Some err, s1) \<Rightarrow>
          (Inl (StatusBadRequest, ErrMsg ''could not find Kubernetes cluster''),
           logError err s1)
      | (None, s1) \<Rightarrow>
          (case ext env (NewFromSecretsStorage kubernetesID) s1 of
             (Some err, s2) \<Rightarrow>
               (Inl (StatusInternalServerError,
                     ErrMsg ''could not create Kubernetes client from kubeconfig''),
                logError err s2)
           | (None, s2) \<Rightarrow> (Inr kubernetesID, s2)))"

fun rollbackCreatedBackupStorages :: "env \<Rightarrow> kube \<Rightarrow> string list \<Rightarrow> st \<Rightarrow> st" where
  "rollbackCreatedBackupStorages env kubeClient [] s = s"
| "rollbackCreatedBackupStorages env kubeClient (name # toDelete) s =
     (case storage_GetBackupStorage env name s of
        (Inl err, s1) \<Rightarrow>
          rollbackCreatedBackupStorages env kubeClient toDelete
            (logError (Join err (ErrMsg ''could not get backup storage'')) s1)
      | (Inr bs, s1) \<Rightarrow>
          (case ext env (DeleteConfig kubeClient (BackupStorageConfig name)) s1 of
             (Some err, s2) \<Rightarrow>
               rollbackCreatedBackupStorages env kubeClient toDelete
                 (if \<not> errors_Is err ErrConfigInUse
                  then logError (Join err (ErrMsg ''could not delete backup storage config'')) s2
                  else s2)
           | (None, s2) \<Rightarrow> rollbackCreatedBackupStorages env kubeClient toDelete s2))"

text \<open>
  The loop of \<^verbatim>\<open>createK8SBackupStorages\<close>, which is also, line for line, the loop
  of \<^verbatim>\<open>createBackupStoragesOnUpdate\<close>: the names still to visit, in the order of
  the \<^verbatim>\<open>range\<close>, and the slice \<^verbatim>\<open>processed\<close>.
\<close>

fun createLoop :: "env \<Rightarrow> kube \<Rightarrow> string list \<Rightarrow> string list \<Rightarrow> st \<Rightarrow> error option \<times> st" where
  "createLoop env kubeClient [] processed s = (None, s)"
| "createLoop env kubeClient (name # names) processed s =
     (case storage_GetBackupStorage env name s of
        (Inl err, s1) \<Rightarrow> (Some (Join err (ErrMsg ''could not get backup storage'')), s1)
      | (Inr bs, s1) \<Rightarrow>
          (case ext env (EnsureConfigExists kubeClient (BackupStorageConfig name)) s1 of
             (Some err, s2) \<Rightarrow>
               (Some (Join err (ErrMsg (''could not create CRs for '' @ name))),
                rollbackCreatedBackupStorages env kubeClient processed s2)
           | (None, s2) \<Rightarrow> createLoop env kubeClient names (processed @ [name]) s2))"

definition createK8SBackupStorages ::
  "env \<Rightarrow> kube \<Rightarrow> string list \<Rightarrow> st \<Rightarrow> error option \<times> st" where
  "createK8SBackupStorages env kubeClient names s =
     (if length names = 0 then (None, s)
      else createLoop env kubeClient (rangeOrder env (trace s) names) [] s)"

definition CreateDatabaseCluster ::
  "env \<Rightarrow> string \<Rightarrow> DatabaseCluster \<Rightarrow> st \<Rightarrow> response \<times> st" where
  "CreateDatabaseCluster env kubernetesID dbc s =
     (case ext env GetBodyFromContext s of
        (Some err, s1) \<Rightarrow>
          (JSON StatusBadRequest
             (Message ''Could not get DatabaseCluster from the request body''),
           logError err s1)
      | (None, s1) \<Rightarrow>
     (case ext env (ValidateDatabaseClusterCR kubernetesID) s1 of
        (Some err, s2) \<Rightarrow> (JSON StatusBadRequest (Message (err_Error err)), s2)
      | (None, s2) \<Rightarrow>
     (case initKubeClient env kubernetesID s2 of
        (Inl (code, err), s3) \<Rightarrow> (JSON code (Message (err_Error err)), s3)
      | (Inr kubeClient, s3) \<Rightarrow>
     (case createK8SBackupStorages env kubeClient (backupStorageNamesFrom dbc) s3 of
        (Some err, s4) \<Rightarrow>
          (JSON StatusInternalServerError (Message ''Could not create BackupStorage''),
           logError err s4)
      | (None, s4) \<Rightarrow>
     (case (if monitoringNameFrom dbc \<noteq> []
            then (case ext env (GetMonitoringInstance (monitoringNameFrom dbc)) s4 of
                    (Some err, s5) \<Rightarrow>
                      (Some (JSON StatusBadRequest
                               (Message ''Could not find monitoring instance'')), s5)
                  | (None, s5) \<Rightarrow>
                      (case ext env (EnsureConfigExists kubeClient
                                       (MonitoringConfig (monitoringNameFrom dbc))) s5 of
                         (Some err, s6) \<Rightarrow>
                           (Some (JSON StatusBadRequest
                                    (Message ''Could not create monitoring config in Kubernetes'')),
                            logError err s6)
                       | (None, s6) \<Rightarrow> (None, s6)))
            else (None, s4)) of
        (Some resp, s7) \<Rightarrow> (resp, s7)
      | (None, s7) \<Rightarrow>
     (case proxyKubernetes env kubernetesID [] s7 of
        (Inl err, s8) \<Rightarrow> (Returned err, s8)
      | (Inr status, s8) \<Rightarrow> (Proxied status, s8)))))))"

text \<open>
  The functions that run as goroutines, and \<^verbatim>\<open>deleteK8SBackupStorage\<close>, which one of
  them calls: it returns its error to the loop, here \<open>ret\<close>.
\<close>

fun deleteK8SBackupStoragesLoop :: "kube \<Rightarrow> string list \<Rightarrow> prog" where
  "deleteK8SBackupStoragesLoop kubeClient [] = Done"
| "deleteK8SBackupStoragesLoop kubeClient (name # names) =
     Fetch name (\<lambda>r. case r of
         Inl err \<Rightarrow>
           Log (Join err (ErrMsg ''could not get backup storage''))
             (deleteK8SBackupStoragesLoop kubeClient names)
       | Inr bs \<Rightarrow>
           Call (DeleteConfig kubeClient (BackupStorageConfig name)) (\<lambda>d. case d of
               Some err \<Rightarrow>
                 (if \<not> errors_Is err ErrConfigInUse
                  then Log (Join err
                              (ErrMsg ''could not delete backup storage config in Kubernetes''))
                         (deleteK8SBackupStoragesLoop kubeClient names)
                  else deleteK8SBackupStoragesLoop kubeClient names)
             | None \<Rightarrow> deleteK8SBackupStoragesLoop kubeClient names))"

definition deleteK8SBackupStorages :: "kube \<Rightarrow> string list \<Rightarrow> prog" where
  "deleteK8SBackupStorages kubeClient names =
     Range names (deleteK8SBackupStoragesLoop kubeClient)"

definition deleteK8SMonitoringConfig :: "kube \<Rightarrow> string \<Rightarrow> prog" where
  "deleteK8SMonitoringConfig kubeClient name =
     Call (GetMonitoringInstance name) (\<lambda>r. case r of
         Some err \<Rightarrow> Log (Join err (ErrMsg ''could get monitoring instance'')) Done
       | None \<Rightarrow>
           Call (DeleteConfig kubeClient (MonitoringConfig name)) (\<lambda>d. case d of
               Some err \<Rightarrow>
                 (if \<not> errors_Is err ErrConfigInUse
                  then Log (Join err
                              (ErrMsg ''could not delete monitoring config in Kubernetes'')) Done
                  else Done)
             | None \<Rightarrow> Done))"

definition deleteK8SBackupStorage ::
  "kube \<Rightarrow> string \<Rightarrow> (error option \<Rightarrow> prog) \<Rightarrow> prog" where
  "deleteK8SBackupStorage kubeClient name ret =
     Fetch name (\<lambda>r. case r of
         Inl err \<Rightarrow> ret (Some (Join err (ErrMsg ''could not find backup storage'')))
       | Inr bs \<Rightarrow>
           Call (DeleteConfig kubeClient (BackupStorageConfig name)) (\<lambda>d. case d of
               Some err \<Rightarrow>
                 (if \<not> errors_Is err ErrConfigInUse
                  then ret (Some (Join err (ErrMsg ''could not delete config in Kubernetes'')))
                  else ret None)
             | None \<Rightarrow> ret None))"

definition createBackupStoragesOnUpdate ::
  "env \<Rightarrow> kube \<Rightarrow> string list \<Rightarrow> string list \<Rightarrow> st \<Rightarrow> error option \<times> st" where
  "createBackupStoragesOnUpdate env kubeClient oldNames newNames s =
     createLoop env kubeClient (rangeOrder env (trace s) (uniqueKeys oldNames newNames)) [] s"

fun deleteBackupStoragesOnUpdateLoop :: "kube \<Rightarrow> string list \<Rightarrow> prog" where
  "deleteBackupStoragesOnUpdateLoop kubeClient [] = Done"
| "deleteBackupStoragesOnUpdateLoop kubeClient (name # names) =
     deleteK8SBackupStorage kubeClient name (\<lambda>r. case r of
         Some err \<Rightarrow>
           (if \<not> errors_Is err ErrConfigInUse
            then Log (Join err (ErrMsg (''could not delete CRs for '' @ name)))
                   (deleteBackupStoragesOnUpdateLoop kubeClient names)
            else deleteBackupStoragesOnUpdateLoop kubeClient names)
       | None \<Rightarrow> deleteBackupStoragesOnUpdateLoop kubeClient names)"

definition deleteBackupStoragesOnUpdate ::
  "kube \<Rightarrow> k8s_DatabaseCluster \<Rightarrow> string list \<Rightarrow> prog" where
  "deleteBackupStoragesOnUpdate kubeClient oldDB newNames =
     Range (uniqueKeys newNames (withBackupStorageNamesFromDBCluster [] oldDB))
       (deleteBackupStoragesOnUpdateLoop kubeClient)"

text \<open>
  \<^verbatim>\<open>oldName\<close> of both monitoring functions: empty unless the stored cluster has
  a monitoring section.
\<close>

definition oldMonitoringName :: "k8s_DatabaseCluster \<Rightarrow> string" where
  "oldMonitoringName oldDB =
     (case k8s_Monitoring oldDB of None \<Rightarrow> [] | Some m \<Rightarrow> k8s_MonitoringConfigName m)"

definition createMonitoringInstanceOnUpdate ::
  "env \<Rightarrow> kube \<Rightarrow> k8s_DatabaseCluster \<Rightarrow> string \<Rightarrow> st \<Rightarrow> error option \<times> st" where
  "createMonitoringInstanceOnUpdate env kubeClient oldDB newName s =
     (if newName \<noteq> [] \<and> newName \<noteq> oldMonitoringName oldDB
      then (case ext env (GetMonitoringInstance newName) s of
              (Some err, s1) \<Rightarrow>
                (Some (Join err (ErrMsg ''could not get monitoring instance'')), s1)
            | (None, s1) \<Rightarrow>
                (case ext env (EnsureConfigExists kubeClient (MonitoringConfig newName)) s1 of
                   (Some err, s2) \<Rightarrow>
                     (Some (Join err
                              (ErrMsg ''could not create monitoring config in Kubernetes'')), s2)
                 | (None, s2) \<Rightarrow> (None, s2)))
      else (None, s))"

definition deleteMonitoringInstanceOnUpdate ::
  "kube \<Rightarrow> k8s_DatabaseCluster \<Rightarrow> string \<Rightarrow> prog" where
  "deleteMonitoringInstanceOnUpdate kubeClient oldDB newName =
     (if oldMonitoringName oldDB \<noteq> [] \<and> newName \<noteq> oldMonitoringName oldDB
      then Call (GetMonitoringInstance (oldMonitoringName oldDB)) (\<lambda>r. case r of
               Some err \<Rightarrow> Log (Join err (ErrMsg ''could not get monitoring instance'')) Done
             | None \<Rightarrow>
                 Call (DeleteConfig kubeClient (MonitoringConfig (oldMonitoringName oldDB)))
                   (\<lambda>d. case d of
                       Some err \<Rightarrow>
                         (if \<not> errors_Is err ErrConfigInUse
                          then Log (Join err
                                      (ErrMsg ''could not delete monitoring config from Kubernetes''))
                                 Done
                          else Done)
                     | None \<Rightarrow> Done))
      else Done)"

definition createResources ::
  "env \<Rightarrow> k8s_DatabaseCluster \<Rightarrow> kube \<Rightarrow> string \<Rightarrow> string list \<Rightarrow> st \<Rightarrow> error option \<times> st" where
  "createResources env oldDB kubeClient newMonitoringName newBackupNames s =
     (case createBackupStoragesOnUpdate env kubeClient
             (withBackupStorageNamesFromDBCluster [] oldDB) newBackupNames s of
        (Some err, s1) \<Rightarrow>
          (Some (ErrMsg ''could not create new BackupStorages in Kubernetes''), logError err s1)
      | (None, s1) \<Rightarrow>
          (case createMonitoringInstanceOnUpdate env kubeClient oldDB newMonitoringName s1 of
             (Some err, s2) \<Rightarrow>
               (Some (ErrMsg ''could not create new monitoring configs in Kubernetes''),
                logError err s2)
           | (None, s2) \<Rightarrow> (None, s2)))"

definition UpdateDatabaseCluster ::
  "env \<Rightarrow> string \<Rightarrow> string \<Rightarrow> DatabaseCluster \<Rightarrow> st \<Rightarrow> response \<times> st" where
  "UpdateDatabaseCluster env kubernetesID name dbc s =
     (case ext env GetBodyFromContext s of
        (Some err, s1) \<Rightarrow>
          (JSON StatusBadRequest
             (Message ''Could not get DatabaseCluster from the request body''),
           logError err s1)
      | (None, s1) \<Rightarrow>
     (case ext env (ValidateDatabaseClusterCR kubernetesID) s1 of
        (Some err, s2) \<Rightarrow> (JSON StatusBadRequest (Message (err_Error err)), s2)
      | (None, s2) \<Rightarrow>
     (case initKubeClient env kubernetesID s2 of
        (Inl (code, err), s3) \<Rightarrow> (JSON code (Message (err_Error err)), s3)
      | (Inr kubeClient, s3) \<Rightarrow>
     (case kube_GetDatabaseCluster env kubeClient name s3 of
        (Inl err, s4) \<Rightarrow>
          (Returned (Join err (ErrMsg ''could not get old Database Cluster'')), s4)
      | (Inr oldDB, s4) \<Rightarrow>
     (case ext env ValidateDatabaseClusterOnUpdate s4 of
        (Some err, s5) \<Rightarrow> (JSON StatusBadRequest (Message (err_Error err)), s5)
      | (None, s5) \<Rightarrow>
     (case createResources env oldDB kubeClient (monitoringNameFrom dbc)
             (backupStorageNamesFrom dbc) s5 of
        (Some err, s6) \<Rightarrow> (JSON StatusInternalServerError (Message (err_Error err)), s6)
      | (None, s6) \<Rightarrow>
     (case proxyKubernetes env kubernetesID name s6 of
        (Inl proxyErr, s7) \<Rightarrow> (Returned proxyErr, s7)
      | (Inr status, s7) \<Rightarrow>
          (if status \<ge> StatusMultipleChoices then (Proxied status, s7)
           else (Proxied status,
                 go (deleteMonitoringInstanceOnUpdate kubeClient oldDB (monitoringNameFrom dbc))
                   (go (deleteBackupStoragesOnUpdate kubeClient oldDB
                          (backupStorageNamesFrom dbc)) s7))))))))))"

definition DeleteDatabaseCluster ::
  "env \<Rightarrow> string \<Rightarrow> string \<Rightarrow> st \<Rightarrow> response \<times> st" where
  "DeleteDatabaseCluster env kubernetesID name s =
     (case initKubeClient env kubernetesID s of
        (Inl (code, err), s1) \<Rightarrow> (JSON code (Message (err_Error err)), s1)
      | (Inr kubeClient, s1) \<Rightarrow>
     (case kube_GetDatabaseCluster env kubeClient name s1 of
        (Inl err, s2) \<Rightarrow>
          (JSON StatusInternalServerError (Message ''Could not get database cluster''),
           logError err s2)
      | (Inr db, s2) \<Rightarrow>
     (case proxyKubernetes env kubernetesID name s2 of
        (Inl proxyErr, s3) \<Rightarrow> (Returned proxyErr, s3)
      | (Inr status, s3) \<Rightarrow>
          (if status \<ge> StatusMultipleChoices then (Proxied status, s3)
           else (let s4 = go (deleteK8SBackupStorages kubeClient
                               (BackupStorageNamesFromDBCluster env db)) s3
                 in (Proxied status,
                     (case k8s_Monitoring db of
                        None \<Rightarrow> s4
                      | Some m \<Rightarrow>
                          (if k8s_MonitoringConfigName m \<noteq> []
                           then go (deleteK8SMonitoringConfig kubeClient
                                      (k8s_MonitoringConfigName m)) s4
                           else s4))))))))"

text \<open>
  One step of a goroutine: the call is made, the line is logged, or the order of the
  \<^verbatim>\<open>range\<close> is fixed, and what follows is left. A finished goroutine does nothing.
\<close>

fun stepProg :: "env \<Rightarrow> prog \<Rightarrow> st \<Rightarrow> prog \<times> st" where
  "stepProg env Done s = (Done, s)"
| "stepProg env (Call c k) s = (case ext env c s of (r, s1) \<Rightarrow> (k r, s1))"
| "stepProg env (Fetch name k) s =
     (case storage_GetBackupStorage env name s of (r, s1) \<Rightarrow> (k r, s1))"
| "stepProg env (Log e p) s = (p, logError e s)"
| "stepProg env (Range names k) s = (k (rangeOrder env (trace s) names), s)"

text \<open>
  The goroutines run interleaved. A schedule is the list of the turns: each names, by its
  place in the list, the goroutine that takes the next step (a turn that names none is
  skipped). \<open>runGoroutines\<close> gives what is left of every goroutine after the schedule, and
  the state.
\<close>

fun runGoroutines :: "env \<Rightarrow> nat list \<Rightarrow> prog list \<Rightarrow> st \<Rightarrow> prog list \<times> st" where
  "runGoroutines env [] ps s = (ps, s)"
| "runGoroutines env (i # schedule) ps s =
     (if i < length ps
      then (case stepProg env (ps ! i) s of
              (p, s1) \<Rightarrow> runGoroutines env schedule (ps[i := p]) s1)
      else runGoroutines env schedule ps s)"

section \<open>The secrets vault and the writes of the metadata store\<close>

text \<open>
  Modelled from the spec: the Secrets Vault (\<^verbatim>\<open>GetSecret(id)\<close>,
  \<^verbatim>\<open>CreateSecret(id, value)\<close>, \<^verbatim>\<open>DeleteSecret(id)\<close>; its implementation
  is not among the sources), an "opaque key-value store for credential material,
  addressed by generated identifiers", "fallible, no partial writes": a call that fails
  leaves the vault as it was, a call that succeeds reads, adds or removes the entry. An
  id is resolvable when it is in the domain of \<open>vault\<close>.
\<close>

definition secrets_GetSecret :: "env \<Rightarrow> string \<Rightarrow> st \<Rightarrow> (error + string) \<times> st" where
  "secrets_GetSecret env secretID s =
     (let r = (case fault env (trace s) (GetSecret secretID) of
                 Some e \<Rightarrow> Inl e
               | None \<Rightarrow>
                   (case vault s secretID of
                      None \<Rightarrow> Inl ErrRecordNotFound
                    | Some v \<Rightarrow> Inr v))
      in (r, s\<lparr>trace := trace s @
                 [Called (GetSecret secretID)
                    (case r of Inl e \<Rightarrow> Some e | Inr v \<Rightarrow> None)]\<rparr>))"

definition secrets_CreateSecret ::
  "env \<Rightarrow> string \<Rightarrow> string \<Rightarrow> st \<Rightarrow> error option \<times> st" where
  "secrets_CreateSecret env secretID val s =
     (case ext env (CreateSecret secretID) s of
        (Some e, s1) \<Rightarrow> (Some e, s1)
      | (None, s1) \<Rightarrow> (None, snap (s1\<lparr>vault := (vault s1)(secretID \<mapsto> val)\<rparr>)))"

definition secrets_DeleteSecret :: "env \<Rightarrow> string \<Rightarrow> st \<Rightarrow> error option \<times> st" where
  "secrets_DeleteSecret env secretID s =
     (case ext env (DeleteSecret secretID) s of
        (Some e, s1) \<Rightarrow> (Some e, s1)
      | (None, s1) \<Rightarrow> (None, snap (s1\<lparr>vault := (vault s1)(secretID := None)\<rparr>)))"

text \<open>
  Modelled from the spec: the Metadata Store's \<^verbatim>\<open>CreateBackupStorage\<close>,
  \<^verbatim>\<open>UpdateBackupStorage\<close> and \<^verbatim>\<open>Transaction\<close> (package \<^verbatim>\<open>model\<close>,
  not among the sources). The name is the natural key: an insert under a name that is
  taken is a unique violation. An update overwrites the fields its parameters give
  (a \<^verbatim>\<open>nil\<close> pointer leaves the field). A transaction runs its function, shows
  the writes to the records when it commits, and shows none of them when the function or
  the commit fails. The status code is the one the function of
  \<^verbatim>\<open>performBackupStorageUpdate\<close> assigns to \<^verbatim>\<open>httpStatusCode\<close>.
\<close>

definition storage_CreateBackupStorage ::
  "env \<Rightarrow> BackupStorage \<Rightarrow> st \<Rightarrow> (error + BackupStorage) \<times> st" where
  "storage_CreateBackupStorage env params s =
     (let r = (case fault env (trace s) (CreateBackupStorageRecord (Name params)) of
                 Some e \<Rightarrow> Inl e
               | None \<Rightarrow>
                   (case bstore s (Name params) of
                      Some old \<Rightarrow>
                        Inl (PqError pgErrUniqueViolation
                               ''duplicate key value violates unique constraint''
                               (Name params))
                    | None \<Rightarrow> Inr params));
          s1 = s\<lparr>trace := trace s @
                   [Called (CreateBackupStorageRecord (Name params))
                      (case r of Inl e \<Rightarrow> Some e | Inr bs \<Rightarrow> None)]\<rparr>
      in case r of
           Inl e \<Rightarrow> (r, s1)
         | Inr bs \<Rightarrow> (r, snap (s1\<lparr>bstore := (bstore s1)(Name params \<mapsto> bs)\<rparr>)))"

text \<open>The value behind a pointer, or a default when the pointer is \<^verbatim>\<open>nil\<close>.\<close>

definition orElse :: "'a option \<Rightarrow> 'a \<Rightarrow> 'a" where
  "orElse p d = (case p of None \<Rightarrow> d | Some v \<Rightarrow> v)"

record UpdateBackupStorageParams =
  u_Description :: "string option"
  u_BucketName :: "string option"
  u_Url :: "string option"
  u_Region :: "string option"
  u_AccessKey :: "string option"
  u_SecretKey :: "string option"

definition storage_UpdateBackupStorage ::
  "env \<Rightarrow> string \<Rightarrow> UpdateBackupStorageParams \<Rightarrow> string option \<Rightarrow> string option \<Rightarrow> st
     \<Rightarrow> error option \<times> st" where
  "storage_UpdateBackupStorage env name params newAccessKeyID newSecretKeyID s =
     (let r = (case fault env (trace s) (UpdateBackupStorageRecord name) of
                 Some e \<Rightarrow> Inl e
               | None \<Rightarrow>
                   (case bstore s name of
                      None \<Rightarrow> Inl ErrRecordNotFound
                    | Some old \<Rightarrow>
                        Inr (old\<lparr>Description := orElse (u_Description params) (Description old),
                                 BucketName := orElse (u_BucketName params) (BucketName old),
                                 URL := orElse (u_Url params) (URL old),
                                 Region := orElse (u_Region params) (Region old),
                                 AccessKeyID := orElse newAccessKeyID (AccessKeyID old),
                                 SecretKeyID := orElse newSecretKeyID (SecretKeyID old)\<rparr>)));
          s1 = s\<lparr>trace := trace s @
                   [Called (UpdateBackupStorageRecord name)
                      (case r of Inl e \<Rightarrow> Some e | Inr bs \<Rightarrow> None)]\<rparr>
      in case r of
           Inl e \<Rightarrow> (Some e, s1)
         | Inr bs \<Rightarrow> (None, s1\<lparr>bstore := (bstore s1)(name \<mapsto> bs)\<rparr>))"

definition storage_Transaction ::
  "env \<Rightarrow> (st \<Rightarrow> (nat \<times> error option) \<times> st) \<Rightarrow> st \<Rightarrow> (nat \<times> error option) \<times> st" where
  "storage_Transaction env f s =
     (case f s of
        ((code, Some err), s1) \<Rightarrow> ((code, Some err), s1\<lparr>bstore := bstore s\<rparr>)
      | ((code, None), s1) \<Rightarrow>
          (case ext env Commit s1 of
             (Some err, s2) \<Rightarrow> ((code, Some err), s2\<lparr>bstore := bstore s\<rparr>)
           | (None, s2) \<Rightarrow> ((code, None), snap s2)))"

section \<open>Backup storage handlers\<close>

record CreateBackupStorageParams =
  c_Name :: string
  c_Description :: "string option"
  c_Type :: string
  c_BucketName :: string
  c_Url :: "string option"
  c_Region :: string
  c_AccessKey :: string
  c_SecretKey :: string

text \<open>
  The block that \<^verbatim>\<open>cleanUpNewSecretsOnUpdateError\<close> and
  \<^verbatim>\<open>deleteOldSecretsAfterUpdate\<close> each repeat for their two ids: delete the secret,
  and if that fails only log it (\<^verbatim>\<open>e.l.Errorf\<close>).
\<close>

definition deleteUnusedSecret :: "env \<Rightarrow> string \<Rightarrow> st \<Rightarrow> st" where
  "deleteUnusedSecret env secretID s =
     (case secrets_DeleteSecret env secretID s of
        (Some cErr, s1) \<Rightarrow>
          logError
            (ErrMsg (''Failed to delete unused secret, please delete it manually. id = '' @ secretID))
            s1
      | (None, s1) \<Rightarrow> s1)"

definition cleanUpNewSecretsOnUpdateError ::
  "env \<Rightarrow> error option \<Rightarrow> string option \<Rightarrow> string option \<Rightarrow> st \<Rightarrow> st" where
  "cleanUpNewSecretsOnUpdateError env err newAccessKeyID newSecretKeyID s =
     (if err = None then s
      else (let s1 = (case newAccessKeyID of
                        None \<Rightarrow> s
                      | Some secretID \<Rightarrow> deleteUnusedSecret env secretID s)
            in case newSecretKeyID of
                 None \<Rightarrow> s1
               | Some secretID \<Rightarrow> deleteUnusedSecret env secretID s1))"

definition createSecrets ::
  "env \<Rightarrow> string option \<Rightarrow> string option \<Rightarrow> st
     \<Rightarrow> (string option \<times> string option \<times> error option) \<times> st" where
  "createSecrets env accessKey secretKey s =
     (case (case accessKey of
              None \<Rightarrow> ((None, None), s)
            | Some v \<Rightarrow>
                (let newID = NewString env (trace s)
                 in case secrets_CreateSecret env newID v s of
                      (Some err, s1) \<Rightarrow>
                        ((Some newID,
                          Some (ErrMsg ''could not store access key in secrets storage'')),
                         logError err s1)
                    | (None, s1) \<Rightarrow> ((Some newID, None), s1))) of
        ((newAccessKeyID, Some err), s2) \<Rightarrow> ((newAccessKeyID, None, Some err), s2)
      | ((newAccessKeyID, None), s2) \<Rightarrow>
          (case secretKey of
             None \<Rightarrow> ((newAccessKeyID, None, None), s2)
           | Some v \<Rightarrow>
               (let newID = NewString env (trace s2)
                in case secrets_CreateSecret env newID v s2 of
                     (Some err, s3) \<Rightarrow>
                       ((newAccessKeyID, Some newID,
                         Some (ErrMsg ''could not store secret key in secrets storage'')),
                        logError err s3)
                   | (None, s3) \<Rightarrow> ((newAccessKeyID, Some newID, None), s3))))"

definition createBackupStorage ::
  "env \<Rightarrow> CreateBackupStorageParams \<Rightarrow> string \<Rightarrow> string \<Rightarrow> st
     \<Rightarrow> (error + BackupStorage) \<times> st" where
  "createBackupStorage env params accessKeyID secretKeyID s =
     storage_CreateBackupStorage env
       \<lparr>Name = c_Name params,
        Description = orElse (c_Description params) [],
        Type = c_Type params,
        BucketName = c_BucketName params,
        URL = orElse (c_Url params) [],
        Region = c_Region params,
        AccessKeyID = accessKeyID,
        SecretKeyID = secretKeyID\<rparr> s"

text \<open>
  The \<^verbatim>\<open>BackupStorage\<close> literal that \<^verbatim>\<open>CreateBackupStorage\<close> and
  \<^verbatim>\<open>performBackupStorageUpdate\<close> answer with.
\<close>

definition resultOf :: "BackupStorage \<Rightarrow> body" where
  "resultOf bs = Result (Type bs) (Name bs) (Description bs) (BucketName bs) (Region bs) (URL bs)"

text \<open>
  \<^verbatim>\<open>CreateBackupStorage\<close>. The request arrives validated
  (\<^verbatim>\<open>validateCreateBackupStorageRequest\<close> is not among the sources): an error or
  the parameters. The \<^verbatim>\<open>defer\<close> statement evaluates the arguments of
  \<^verbatim>\<open>cleanUpNewSecretsOnUpdateError\<close> where it stands, as Go does: \<^verbatim>\<open>err\<close> is
  what \<^verbatim>\<open>GetBackupStorage\<close> returned, and both ids are still \<^verbatim>\<open>nil\<close>. The call
  itself runs when the handler returns.
\<close>

definition CreateBackupStorage ::
  "env \<Rightarrow> error + CreateBackupStorageParams \<Rightarrow> st \<Rightarrow> response \<times> st" where
  "CreateBackupStorage env request s =
     (case request of
        Inl err \<Rightarrow> (JSON StatusBadRequest (Message (err_Error err)), s)
      | Inr params \<Rightarrow>
     (case storage_GetBackupStorage env (c_Name params) s of
        (Inr existingStorage, s1) \<Rightarrow>
          (JSON StatusConflict
             (Message (err_Error (ErrMsg (''storage '' @ c_Name params @ '' already exists'')))),
           logError (ErrMsg (''storage '' @ c_Name params @ '' already exists'')) s1)
      | (Inl err, s1) \<Rightarrow>
          (if \<not> errors_Is err ErrRecordNotFound
           then (JSON StatusInternalServerError (Message ''Failed to get BackupStorage''),
                 logError err s1)
           else
     (case (case createSecrets env (Some (c_AccessKey params)) (Some (c_SecretKey params)) s1 of
              ((accessKeyID, secretKeyID, Some err2), s2) \<Rightarrow>
                (JSON StatusInternalServerError (Message (err_Error err2)), s2)
            | ((None, secretKeyID, None), s2) \<Rightarrow> (Panic, s2)
            | ((Some accessKeyID, None, None), s2) \<Rightarrow> (Panic, s2)
            | ((Some accessKeyID, Some secretKeyID, None), s2) \<Rightarrow>
                (case createBackupStorage env params accessKeyID secretKeyID s2 of
                   (Inl err3, s3) \<Rightarrow>
                     (case (case errors_As_pq err3 of
                              None \<Rightarrow> None
                            | Some (code, detail) \<Rightarrow>
                                (if code = pgErrUniqueViolation then Some detail else None)) of
                        Some detail \<Rightarrow>
                          (JSON StatusBadRequest
                             (Message (''Backup storage with the same name already exists. ''
                                       @ detail)),
                           s3)
                      | None \<Rightarrow>
                          (JSON StatusInternalServerError
                             (Message ''Could not create a new backup storage''),
                           logError err3 s3))
                 | (Inr bs, s3) \<Rightarrow> (JSON StatusOK (resultOf bs), s3))) of
        (resp, s4) \<Rightarrow>
          (resp, cleanUpNewSecretsOnUpdateError env (Some err) None None s4)))))"

definition checkStorageAccessByUpdate ::
  "env \<Rightarrow> string \<Rightarrow> UpdateBackupStorageParams \<Rightarrow> st \<Rightarrow> (error + BackupStorage) \<times> st" where
  "checkStorageAccessByUpdate env storageName params s =
     (case storage_GetBackupStorage env storageName s of
        (Inl err, s1) \<Rightarrow> (Inl err, s1)
      | (Inr bs, s1) \<Rightarrow>
     (case secrets_GetSecret env (AccessKeyID bs) s1 of
        (Inl err, s2) \<Rightarrow> (Inl err, s2)
      | (Inr accessKey, s2) \<Rightarrow>
     (case secrets_GetSecret env (SecretKeyID bs) s2 of
        (Inl err, s3) \<Rightarrow> (Inl err, s3)
      | (Inr secretKey, s3) \<Rightarrow>
     (case ext env (ValidateStorageAccessByUpdate storageName) s3 of
        (Some err, s4) \<Rightarrow> (Inl err, s4)
      | (None, s4) \<Rightarrow> (Inr bs, s4)))))"

definition updateBackupStorage ::
  "env \<Rightarrow> string \<Rightarrow> UpdateBackupStorageParams \<Rightarrow> string option \<Rightarrow> string option \<Rightarrow> st
     \<Rightarrow> (nat \<times> error option) \<times> st" where
  "updateBackupStorage env backupStorageName params newAccessKeyID newSecretKeyID s =
     (case storage_UpdateBackupStorage env backupStorageName params
             newAccessKeyID newSecretKeyID s of
        (Some err, s1) \<Rightarrow>
          (case (case errors_As_pq err of
                   None \<Rightarrow> None
                 | Some (code, detail) \<Rightarrow>
                     (if code = pgErrUniqueViolation then Some detail else None)) of
             Some detail \<Rightarrow>
               ((StatusBadRequest,
                 Some (ErrMsg (''backup storage with the same name already exists. '' @ detail))),
                s1)
           | None \<Rightarrow>
               ((StatusInternalServerError, Some (ErrMsg ''could not update backup storage'')),
                logError err s1))
      | (None, s1) \<Rightarrow> ((0, None), s1))"

definition deleteOldSecretsAfterUpdate ::
  "env \<Rightarrow> UpdateBackupStorageParams \<Rightarrow> BackupStorage \<Rightarrow> st \<Rightarrow> st" where
  "deleteOldSecretsAfterUpdate env params old s =
     (let s1 = (case u_AccessKey params of
                  None \<Rightarrow> s
                | Some v \<Rightarrow> deleteUnusedSecret env (AccessKeyID old) s)
      in case u_SecretKey params of
           None \<Rightarrow> s1
         | Some v \<Rightarrow> deleteUnusedSecret env (SecretKeyID old) s1)"

definition performBackupStorageUpdate ::
  "env \<Rightarrow> string \<Rightarrow> UpdateBackupStorageParams \<Rightarrow> string option \<Rightarrow> string option
     \<Rightarrow> BackupStorage \<Rightarrow> st \<Rightarrow> response \<times> st" where
  "performBackupStorageUpdate env backupStorageName params newAccessKeyID newSecretKeyID old s =
     (case storage_Transaction env
             (updateBackupStorage env backupStorageName params newAccessKeyID newSecretKeyID)
             s of
        ((httpStatusCode, Some err), s1) \<Rightarrow> (JSON httpStatusCode (Message (err_Error err)), s1)
      | ((httpStatusCode, None), s1) \<Rightarrow>
     (case storage_GetBackupStorage env backupStorageName s1 of
        (Inl err, s2) \<Rightarrow>
          (JSON StatusInternalServerError (Message ''Could not find updated backup storage''),
           logError err s2)
      | (Inr bs, s2) \<Rightarrow>
     (case ext env ListKubernetesClusters s2 of
        (Some err, s3) \<Rightarrow>
          (JSON StatusInternalServerError (Message ''Could not list Kubernetes clusters''),
           logError err s3)
      | (None, s3) \<Rightarrow>
     (case kubernetesClusters env (trace s2) of
        [] \<Rightarrow>
          (JSON StatusInternalServerError
             (Message ''No registered kubernetes clusters available''), s3)
      | k0 # ks \<Rightarrow>
     (case initKubeClient env k0 s3 of
        (Inl (code, err), s4) \<Rightarrow>
          (JSON StatusInternalServerError
             (Message ''Could not init kubernetes client to update config''),
           logError (Join err (ErrMsg ''could not init kube client to update config'')) s4)
      | (Inr kubeClient, s4) \<Rightarrow>
     (case ext env (UpdateConfig kubeClient (BackupStorageConfig backupStorageName)) s4 of
        (Some err, s5) \<Rightarrow>
          (JSON StatusInternalServerError
             (Message ''Could not update config on the kubernetes cluster''),
           logError (Join err (ErrMsg ''could not update config'')) s5)
      | (None, s5) \<Rightarrow>
          (JSON StatusOK (resultOf bs), deleteOldSecretsAfterUpdate env params old s5)))))))"

text \<open>
  \<^verbatim>\<open>UpdateBackupStorage\<close>. The request arrives validated
  (\<^verbatim>\<open>validateUpdateBackupStorageRequest\<close> is not among the sources). At the
  \<^verbatim>\<open>defer\<close> statement \<^verbatim>\<open>err\<close> is \<^verbatim>\<open>nil\<close> and both new ids are
  \<^verbatim>\<open>nil\<close>; those are the arguments the deferred call runs with.
\<close>

definition UpdateBackupStorage ::
  "env \<Rightarrow> string \<Rightarrow> error + UpdateBackupStorageParams \<Rightarrow> st \<Rightarrow> response \<times> st" where
  "UpdateBackupStorage env backupStorageName request s =
     (case request of
        Inl err \<Rightarrow> (JSON StatusBadRequest (Message (err_Error err)), s)
      | Inr params \<Rightarrow>
     (case checkStorageAccessByUpdate env backupStorageName params s of
        (Inl err, s1) \<Rightarrow>
          (if errors_Is err ErrRecordNotFound
           then (JSON StatusNotFound (Message ''Could not find backup storage''), s1)
           else (JSON StatusBadRequest
                   (Message (''Could not connect to the backup storage, please check the new credentials are correct: ''
                             @ err_Error err)),
                 logError err s1))
      | (Inr old, s1) \<Rightarrow>
     (case (case createSecrets env (u_AccessKey params) (u_SecretKey params) s1 of
              ((newAccessKeyID, newSecretKeyID, Some err), s2) \<Rightarrow>
                (JSON StatusInternalServerError (Message ''Failed to create secrets''),
                 logError err s2)
            | ((newAccessKeyID, newSecretKeyID, None), s2) \<Rightarrow>
                performBackupStorageUpdate env backupStorageName params
                  newAccessKeyID newSecretKeyID old s2) of
        (resp, s3) \<Rightarrow> (resp, cleanUpNewSecretsOnUpdateError env None None None s3))))"

section \<open>What a specification references\<close>

text \<open>
  The names a database cluster specification references, in the words of the
  specification of the reference resolver: the backup-storage names are "the data-source's
  storage name (if a data source is set) and every schedule's storage name (if backup
  schedules are set)", the monitoring name is "the spec's monitoring reference name if
  present", else empty. They are read off the fields of the request
  (\<open>requestedStorages\<close>, \<open>requestedMonitoring\<close>) and of the stored cluster
  (\<open>storedStorages\<close>, \<open>storedMonitoring\<close>), and say nothing of how the code resolves
  them.
\<close>

definition requestedStorages :: "DatabaseCluster \<Rightarrow> string set" where
  "requestedStorages dbc =
     (case api_Spec dbc of
        None \<Rightarrow> {}
      | Some spec \<Rightarrow>
          (case api_DataSource spec of
             None \<Rightarrow> {}
           | Some ds \<Rightarrow>
               (case api_BackupSource ds of
                  None \<Rightarrow> {}
                | Some src \<Rightarrow> {api_src_BackupStorageName src}))
          \<union> (case api_Backup spec of
               None \<Rightarrow> {}
             | Some b \<Rightarrow>
                 (case api_Schedules b of
                    None \<Rightarrow> {}
                  | Some schedules \<Rightarrow> api_sched_BackupStorageName ` set schedules)))"

definition storedStorages :: "k8s_DatabaseCluster \<Rightarrow> string set" where
  "storedStorages db =
     (case k8s_DataSource db of
        None \<Rightarrow> {}
      | Some ds \<Rightarrow>
          (case k8s_BackupSource ds of
             None \<Rightarrow> {}
           | Some src \<Rightarrow> {k8s_src_BackupStorageName src}))
     \<union> k8s_sched_BackupStorageName ` set (k8s_Schedules db)"

definition requestedMonitoring :: "DatabaseCluster \<Rightarrow> string" where
  "requestedMonitoring dbc =
     (case api_Spec dbc of
        None \<Rightarrow> []
      | Some spec \<Rightarrow>
          (case api_Monitoring spec of
             None \<Rightarrow> []
           | Some m \<Rightarrow> (case api_MonitoringConfigName m of None \<Rightarrow> [] | Some n \<Rightarrow> n)))"

definition storedMonitoring :: "k8s_DatabaseCluster \<Rightarrow> string" where
  "storedMonitoring db =
     (case k8s_Monitoring db of None \<Rightarrow> [] | Some m \<Rightarrow> k8s_MonitoringConfigName m)"

text \<open>The monitoring name of the stored cluster as a list: empty when there is none.\<close>

definition storedMonitoringNames :: "k8s_DatabaseCluster \<Rightarrow> string list" where
  "storedMonitoringNames db = (if storedMonitoring db \<noteq> [] then [storedMonitoring db] else [])"

section \<open>Reading a trace\<close>

text \<open>
  \<open>pick f evs\<close> collects, in the order of the trace, what \<open>f\<close> reads off each
  event. The readers below give the names of the backup storages and monitoring
  instances whose record was fetched (\<open>fetchBS\<close>, \<open>fetchMI\<close>; \<open>fetchedBS\<close>,
  \<open>fetchedMI\<close> when the fetch succeeded), whose config was handed to
  \<^verbatim>\<open>EnsureConfigExists\<close> (\<open>ensureBS\<close>, \<open>ensureMI\<close>; \<open>ensuredBS\<close>, \<open>ensuredMI\<close>
  when the call succeeded) or to \<^verbatim>\<open>DeleteConfig\<close> (\<open>deleteBS\<close>, \<open>deleteMI\<close>,
  \<open>deleteCfg\<close>), those named in any of these calls or in \<^verbatim>\<open>UpdateConfig\<close>
  (\<open>touchedBS\<close>, \<open>touchedMI\<close>), and the requests that were proxied (\<open>proxied\<close>).
\<close>

definition pick :: "(event \<Rightarrow> 'a list) \<Rightarrow> event list \<Rightarrow> 'a list" where
  "pick f evs = concat (map f evs)"

fun fetchBS :: "event \<Rightarrow> string list" where
  "fetchBS (Called (GetBackupStorage n) r) = [n]"
| "fetchBS e = []"

fun fetchedBS :: "event \<Rightarrow> string list" where
  "fetchedBS (Called (GetBackupStorage n) None) = [n]"
| "fetchedBS e = []"

fun ensureBS :: "event \<Rightarrow> string list" where
  "ensureBS (Called (EnsureConfigExists k (BackupStorageConfig n)) r) = [n]"
| "ensureBS e = []"

fun deleteBS :: "event \<Rightarrow> string list" where
  "deleteBS (Called (DeleteConfig k (BackupStorageConfig n)) r) = [n]"
| "deleteBS e = []"

fun ensuredBS :: "event \<Rightarrow> string list" where
  "ensuredBS (Called (EnsureConfigExists k (BackupStorageConfig n)) None) = [n]"
| "ensuredBS e = []"

fun ensuredMI :: "event \<Rightarrow> string list" where
  "ensuredMI (Called (EnsureConfigExists k (MonitoringConfig n)) None) = [n]"
| "ensuredMI e = []"

fun touchedBS :: "event \<Rightarrow> string list" where
  "touchedBS (Called (GetBackupStorage n) r) = [n]"
| "touchedBS (Called (EnsureConfigExists k (BackupStorageConfig n)) r) = [n]"
| "touchedBS (Called (UpdateConfig k (BackupStorageConfig n)) r) = [n]"
| "touchedBS (Called (DeleteConfig k (BackupStorageConfig n)) r) = [n]"
| "touchedBS e = []"

fun touchedMI :: "event \<Rightarrow> string list" where
  "touchedMI (Called (GetMonitoringInstance n) r) = [n]"
| "touchedMI (Called (EnsureConfigExists k (MonitoringConfig n)) r) = [n]"
| "touchedMI (Called (UpdateConfig k (MonitoringConfig n)) r) = [n]"
| "touchedMI (Called (DeleteConfig k (MonitoringConfig n)) r) = [n]"
| "touchedMI e = []"

fun proxied :: "event \<Rightarrow> (string \<times> string) list" where
  "proxied (Called (ProxyKubernetes k n) r) = [(k, n)]"
| "proxied e = []"

text \<open>The events of one successful round of the create loop.\<close>

definition materialized :: "kube \<Rightarrow> string \<Rightarrow> event list" where
  "materialized k n =
     [Called (GetBackupStorage n) None,
      Called (EnsureConfigExists k (BackupStorageConfig n)) None]"

fun fetchMI :: "event \<Rightarrow> string list" where
  "fetchMI (Called (GetMonitoringInstance n) r) = [n]"
| "fetchMI e = []"

fun fetchedMI :: "event \<Rightarrow> string list" where
  "fetchedMI (Called (GetMonitoringInstance n) None) = [n]"
| "fetchedMI e = []"

fun ensureMI :: "event \<Rightarrow> string list" where
  "ensureMI (Called (EnsureConfigExists k (MonitoringConfig n)) r) = [n]"
| "ensureMI e = []"

fun deleteMI :: "event \<Rightarrow> string list" where
  "deleteMI (Called (DeleteConfig k (MonitoringConfig n)) r) = [n]"
| "deleteMI e = []"

text \<open>
  The failures a cleanup has to log: a record that could not be fetched, and a
  \<^verbatim>\<open>DeleteConfig\<close> that failed with anything but \<^verbatim>\<open>ErrConfigInUse\<close>.
  \<open>loggedCause\<close> reads the failure off a log line (\<^verbatim>\<open>errors.Join(err, ...)\<close>).
\<close>

fun failureToLog :: "event \<Rightarrow> error list" where
  "failureToLog (Called (GetBackupStorage n) (Some e)) = [e]"
| "failureToLog (Called (GetMonitoringInstance n) (Some e)) = [e]"
| "failureToLog (Called (DeleteConfig k c) (Some e)) = (if errors_Is e ErrConfigInUse then [] else [e])"
| "failureToLog e = []"

fun loggedCause :: "event \<Rightarrow> error list" where
  "loggedCause (Logged (Join e m)) = [e]"
| "loggedCause e = []"

text \<open>
  What the events of a cleanup look like: \<^verbatim>\<open>DeleteConfig\<close> is called for exactly the
  records that were fetched, in that order, nothing is materialized
  (\<open>cleanupCalls\<close>), and the log holds exactly the failures to log
  (\<open>failuresLogged\<close>).
\<close>

definition cleanupCalls :: "event list \<Rightarrow> bool" where
  "cleanupCalls evs =
     (pick deleteBS evs = pick fetchedBS evs \<and> pick deleteMI evs = pick fetchedMI evs
      \<and> pick ensureBS evs = [] \<and> pick ensureMI evs = [])"

definition failuresLogged :: "event list \<Rightarrow> bool" where
  "failuresLogged evs = (pick loggedCause evs = pick failureToLog evs)"

definition cleanupOnly :: "event list \<Rightarrow> bool" where
  "cleanupOnly evs = (cleanupCalls evs \<and> failuresLogged evs)"

fun deleteCfg :: "event \<Rightarrow> config list" where
  "deleteCfg (Called (DeleteConfig k c) r) = [c]"
| "deleteCfg e = []"

text \<open>
  What Go promises of a \<^verbatim>\<open>range\<close> over a map: every key is visited, and none
  twice.
\<close>

definition rangeVisitsEachKeyOnce :: "env \<Rightarrow> bool" where
  "rangeVisitsEachKeyOnce env =
     (\<forall>t ks. set (rangeOrder env t ks) = set ks
        \<and> (distinct ks \<longrightarrow> distinct (rangeOrder env t ks)))"

text \<open>The events of a successful \<^verbatim>\<open>createMonitoringInstanceOnUpdate\<close>.\<close>

definition monitoringEnsured :: "kube \<Rightarrow> k8s_DatabaseCluster \<Rightarrow> string \<Rightarrow> event list" where
  "monitoringEnsured k oldDB newName =
     (if newName \<noteq> [] \<and> newName \<noteq> oldMonitoringName oldDB
      then [Called (GetMonitoringInstance newName) None,
            Called (EnsureConfigExists k (MonitoringConfig newName)) None]
      else [])"

text \<open>
  The calls of \<^verbatim>\<open>UpdateDatabaseCluster\<close> before its create phase, and of
  \<^verbatim>\<open>DeleteDatabaseCluster\<close> before it proxies, when none of them fails.
\<close>

definition updatePrelude :: "string \<Rightarrow> string \<Rightarrow> event list" where
  "updatePrelude kubernetesID name =
     [Called GetBodyFromContext None,
      Called (ValidateDatabaseClusterCR kubernetesID) None,
      Called (GetKubernetesCluster kubernetesID) None,
      Called (NewFromSecretsStorage kubernetesID) None,
      Called (GetDatabaseCluster kubernetesID name) None,
      Called ValidateDatabaseClusterOnUpdate None]"

text \<open>The stored cluster an update reads: what \<^verbatim>\<open>GetDatabaseCluster\<close> returns.\<close>

definition storedCluster :: "env \<Rightarrow> st \<Rightarrow> string \<Rightarrow> string \<Rightarrow> k8s_DatabaseCluster" where
  "storedCluster env s kubernetesID name =
     databaseCluster env
       (trace s @ [Called GetBodyFromContext None,
                   Called (ValidateDatabaseClusterCR kubernetesID) None,
                   Called (GetKubernetesCluster kubernetesID) None,
                   Called (NewFromSecretsStorage kubernetesID) None])
       kubernetesID name"

definition deletePrelude :: "string \<Rightarrow> string \<Rightarrow> event list" where
  "deletePrelude kubernetesID name =
     [Called (GetKubernetesCluster kubernetesID) None,
      Called (NewFromSecretsStorage kubernetesID) None,
      Called (GetDatabaseCluster kubernetesID name) None]"

text \<open>The stored cluster a delete reads: what \<^verbatim>\<open>GetDatabaseCluster\<close> returns.\<close>

definition deletedCluster :: "env \<Rightarrow> st \<Rightarrow> string \<Rightarrow> string \<Rightarrow> k8s_DatabaseCluster" where
  "deletedCluster env s kubernetesID name =
     databaseCluster env
       (trace s @ [Called (GetKubernetesCluster kubernetesID) None,
                   Called (NewFromSecretsStorage kubernetesID) None])
       kubernetesID name"

section \<open>Goroutines\<close>

text \<open>
  \<open>emits env p es p'\<close>: the goroutine \<open>p\<close> can add the events \<open>es\<close>, one step after
  the other and whatever the answers to its calls are, and then has \<open>p'\<close> left to do.
  \<open>within env n p\<close>: whatever the answers, \<open>p\<close> is finished after \<open>n\<close> steps at most.
  \<open>finishes env schedule ps s post\<close>: run from the state \<open>s\<close> under the schedule, every
  goroutine of \<open>ps\<close> comes to its end, and \<open>post\<close> are the events they added.
\<close>

inductive emits :: "env \<Rightarrow> prog \<Rightarrow> event list \<Rightarrow> prog \<Rightarrow> bool" for env where
  emits_Nil: "emits env p [] p"
| emits_Call: "emits env (k r) es p' \<Longrightarrow> emits env (Call c k) (Called c r # es) p'"
| emits_Fetch:
    "emits env (k r) es p' \<Longrightarrow>
       emits env (Fetch name k)
         (Called (GetBackupStorage name) (case r of Inl e \<Rightarrow> Some e | Inr bs \<Rightarrow> None) # es) p'"
| emits_Log: "emits env p es p' \<Longrightarrow> emits env (Log e p) (Logged e # es) p'"
| emits_Range: "emits env (k (rangeOrder env t names)) es p' \<Longrightarrow> emits env (Range names k) es p'"

inductive within :: "env \<Rightarrow> nat \<Rightarrow> prog \<Rightarrow> bool" for env where
  within_Done: "within env n Done"
| within_Call: "(\<And>r. within env n (k r)) \<Longrightarrow> within env (Suc n) (Call c k)"
| within_Fetch: "(\<And>r. within env n (k r)) \<Longrightarrow> within env (Suc n) (Fetch name k)"
| within_Log: "within env n p \<Longrightarrow> within env (Suc n) (Log e p)"
| within_Range:
    "(\<And>t. within env n (k (rangeOrder env t names))) \<Longrightarrow> within env (Suc n) (Range names k)"

definition finishes :: "env \<Rightarrow> nat list \<Rightarrow> prog list \<Rightarrow> st \<Rightarrow> event list \<Rightarrow> bool" where
  "finishes env schedule ps s post =
     (runGoroutines env schedule ps s = (map (\<lambda>p. Done) ps, s\<lparr>trace := trace s @ post\<rparr>))"

text \<open>
  What a cleanup looks like from its events. The cleanup of the backup storages \<open>names\<close>
  fetches the record of each name, in that order; calls \<^verbatim>\<open>DeleteConfig\<close> on exactly the
  records it could fetch, in that order; materializes nothing; names no other backup
  storage and no monitoring instance; and proxies nothing. Likewise for monitoring
  instances.
\<close>

definition storageCleanup :: "string list \<Rightarrow> event list \<Rightarrow> bool" where
  "storageCleanup names es =
     (pick fetchBS es = names \<and> pick deleteBS es = pick fetchedBS es
      \<and> pick ensureBS es = [] \<and> set (pick touchedBS es) \<subseteq> set names
      \<and> pick touchedMI es = [] \<and> pick proxied es = [])"

definition monitoringCleanup :: "string list \<Rightarrow> event list \<Rightarrow> bool" where
  "monitoringCleanup names es =
     (pick fetchMI es = names \<and> pick deleteMI es = pick fetchedMI es
      \<and> pick ensureMI es = [] \<and> set (pick touchedMI es) \<subseteq> set names
      \<and> pick touchedBS es = [] \<and> pick proxied es = [])"

text \<open>
  A store with the backup storages \<open>A\<close>, \<open>B\<close> and \<open>C\<close>, whose two secrets are in the
  vault; a stored cluster with schedules on \<open>A\<close> and \<open>B\<close> and the monitoring config
  \<open>pmm\<close>; an environment in which no call fails, two Kubernetes clusters are
  registered and the proxy answers 200.
\<close>

definition storageA :: BackupStorage where
  "storageA = \<lparr>Name = ''A'', Description = [], Type = ''s3'', BucketName = ''bucket-a'',
     URL = [], Region = ''eu'', AccessKeyID = ''ak0'', SecretKeyID = ''sk0''\<rparr>"

definition oldAB :: k8s_DatabaseCluster where
  "oldAB = \<lparr>k8s_DataSource = None,
     k8s_Schedules = [\<lparr>k8s_sched_BackupStorageName = ''A''\<rparr>,
                      \<lparr>k8s_sched_BackupStorageName = ''B''\<rparr>],
     k8s_Monitoring = Some \<lparr>k8s_MonitoringConfigName = ''pmm''\<rparr>\<rparr>"

definition envOK :: env where
  "envOK = \<lparr>fault = (\<lambda>t c. None),
     rangeOrder = (\<lambda>t ks. ks),
     NewString = (\<lambda>t. ''id-'' @ replicate (length t) (CHR ''i'')),
     proxyStatus = (\<lambda>t. 200),
     databaseCluster = (\<lambda>t k n. oldAB),
     kubernetesClusters = (\<lambda>t. [''k1'', ''k2'']),
     BackupStorageNamesFromDBCluster = withBackupStorageNamesFromDBCluster []\<rparr>"

definition stABC :: st where
  "stABC = \<lparr>trace = [], vault = [''ak0'' \<mapsto> ''AK'', ''sk0'' \<mapsto> ''SK''],
     bstore = [''A'' \<mapsto> storageA, ''B'' \<mapsto> storageA\<lparr>Name := ''B''\<rparr>,
               ''C'' \<mapsto> storageA\<lparr>Name := ''C''\<rparr>],
     snaps = [], spawned = []\<rparr>"

text \<open>A request with schedules on \<open>B\<close> and \<open>C\<close> and the monitoring config \<open>pmm2\<close>.\<close>

definition dbcBC :: DatabaseCluster where
  "dbcBC =
     \<lparr>api_Spec = Some
        \<lparr>api_DataSource = None,
         api_Backup = Some \<lparr>api_Schedules = Some
            [\<lparr>api_sched_BackupStorageName = ''B''\<rparr>,
             \<lparr>api_sched_BackupStorageName = ''C''\<rparr>]\<rparr>,
         api_Monitoring = Some \<lparr>api_MonitoringConfigName = Some ''pmm2''\<rparr>\<rparr>\<rparr>"

text \<open>
  Environments in which the record of the backup storage \<open>A\<close>, or of the monitoring
  instance \<open>pmm\<close>, cannot be fetched, and nothing else fails.
\<close>

definition envFetchFails :: env where
  "envFetchFails =
     envOK\<lparr>fault := (\<lambda>t c. if c = GetBackupStorage ''A''
                              then Some (ErrMsg ''store unavailable'') else None)\<rparr>"

definition envMonitoringFetchFails :: env where
  "envMonitoringFetchFails =
     envOK\<lparr>fault := (\<lambda>t c. if c = GetMonitoringInstance ''pmm''
                              then Some (ErrMsg ''store unavailable'') else None)\<rparr>"

text \<open>The same store without the records of \<open>B\<close> and \<open>C\<close>.\<close>

definition stOnlyA :: st where
  "stOnlyA = \<lparr>trace = [], vault = [''ak0'' \<mapsto> ''AK'', ''sk0'' \<mapsto> ''SK''],
     bstore = [''A'' \<mapsto> storageA], snaps = [], spawned = []\<rparr>"

text \<open>A request with schedules on \<open>A\<close> and \<open>B\<close> and no monitoring.\<close>

definition dbcAB :: DatabaseCluster where
  "dbcAB =
     \<lparr>api_Spec = Some
        \<lparr>api_DataSource = None,
         api_Backup = Some \<lparr>api_Schedules = Some
            [\<lparr>api_sched_BackupStorageName = ''A''\<rparr>,
             \<lparr>api_sched_BackupStorageName = ''B''\<rparr>]\<rparr>,
         api_Monitoring = None\<rparr>\<rparr>"

text \<open>Requests to create the backup storages \<open>A\<close> and \<open>B\<close>.\<close>

definition paramsB :: CreateBackupStorageParams where
  "paramsB = \<lparr>c_Name = ''B'', c_Description = None, c_Type = ''s3'', c_BucketName = ''bucket-b'',
     c_Url = None, c_Region = ''us'', c_AccessKey = ''AK2'', c_SecretKey = ''SK2''\<rparr>"

definition paramsA :: CreateBackupStorageParams where
  "paramsA = paramsB\<lparr>c_Name := ''A''\<rparr>"

text \<open>An environment in which the insert of the record \<open>B\<close> fails, and nothing else.\<close>

definition envInsertFails :: env where
  "envInsertFails =
     envOK\<lparr>fault := (\<lambda>t c. if c = CreateBackupStorageRecord ''B''
                              then Some (ErrMsg ''insert failed'') else None)\<rparr>"

text \<open>
  More readers: the ids handed to \<^verbatim>\<open>CreateSecret\<close> and \<^verbatim>\<open>DeleteSecret\<close>
  (\<open>deletedSecret\<close>: when the delete succeeded), the cluster and config of every
  \<^verbatim>\<open>UpdateConfig\<close>, and the names of the records the store was asked to update.
\<close>

fun createSecret :: "event \<Rightarrow> string list" where
  "createSecret (Called (CreateSecret i) r) = [i]"
| "createSecret e = []"

fun deleteSecret :: "event \<Rightarrow> string list" where
  "deleteSecret (Called (DeleteSecret i) r) = [i]"
| "deleteSecret e = []"

fun deletedSecret :: "event \<Rightarrow> string list" where
  "deletedSecret (Called (DeleteSecret i) None) = [i]"
| "deletedSecret e = []"

fun updateCfg :: "event \<Rightarrow> (kube \<times> config) list" where
  "updateCfg (Called (UpdateConfig k c) r) = [(k, c)]"
| "updateCfg e = []"

fun recordUpdate :: "event \<Rightarrow> string list" where
  "recordUpdate (Called (UpdateBackupStorageRecord n) r) = [n]"
| "recordUpdate e = []"

text \<open>
  A request that replaces both credentials, and an environment in which the delete of
  the old access-key secret fails, and nothing else.
\<close>

definition updKeys :: UpdateBackupStorageParams where
  "updKeys = \<lparr>u_Description = None, u_BucketName = None, u_Url = None, u_Region = None,
     u_AccessKey = Some ''AK9'', u_SecretKey = Some ''SK9''\<rparr>"

definition envDeleteFails :: env where
  "envDeleteFails =
     envOK\<lparr>fault := (\<lambda>t c. if c = DeleteSecret ''ak0''
                              then Some (ErrMsg ''vault unavailable'') else None)\<rparr>"

text \<open>
  The record stored under \<open>name\<close> references only secret ids that resolve in the vault
  (or there is no such record); and this holds now and held after every write so far.
\<close>

definition resolvable ::
  "(string \<rightharpoonup> string) \<Rightarrow> (string \<rightharpoonup> BackupStorage) \<Rightarrow> string \<Rightarrow> bool" where
  "resolvable v b name =
     (case b name of
        None \<Rightarrow> True
      | Some r \<Rightarrow> v (AccessKeyID r) \<noteq> None \<and> v (SecretKeyID r) \<noteq> None)"

definition neverDangling :: "string \<Rightarrow> st \<Rightarrow> bool" where
  "neverDangling name s =
     (resolvable (vault s) (bstore s) name
      \<and> list_all (\<lambda>(v, b). resolvable v b name) (snaps s))"

text \<open>The ids \<^verbatim>\<open>createSecrets\<close> returns, as a list.\<close>

definition idList :: "string option \<Rightarrow> string list" where
  "idList i = (case i of None \<Rightarrow> [] | Some x \<Rightarrow> [x])"

text \<open>The record an update writes, and the old secret ids a credential update replaces.\<close>

definition updatedRecord ::
  "UpdateBackupStorageParams \<Rightarrow> string option \<Rightarrow> string option \<Rightarrow> BackupStorage
     \<Rightarrow> BackupStorage" where
  "updatedRecord params newAccessKeyID newSecretKeyID old =
     old\<lparr>Description := orElse (u_Description params) (Description old),
          BucketName := orElse (u_BucketName params) (BucketName old),
          URL := orElse (u_Url params) (URL old),
          Region := orElse (u_Region params) (Region old),
          AccessKeyID := orElse newAccessKeyID (AccessKeyID old),
          SecretKeyID := orElse newSecretKeyID (SecretKeyID old)\<rparr>"

definition replaced :: "UpdateBackupStorageParams \<Rightarrow> BackupStorage \<Rightarrow> string list" where
  "replaced params old =
     (case u_AccessKey params of None \<Rightarrow> [] | Some v \<Rightarrow> [AccessKeyID old])
     @ (case u_SecretKey params of None \<Rightarrow> [] | Some v \<Rightarrow> [SecretKeyID old])"

text \<open>
  The calls of \<^verbatim>\<open>performBackupStorageUpdate\<close> from the commit of the transaction
  to the update of the config, when none fails, with \<open>k0\<close> the first cluster listed.
\<close>

definition committed :: "string \<Rightarrow> kube \<Rightarrow> event list" where
  "committed name k0 =
     [Called Commit None,
      Called (GetBackupStorage name) None,
      Called ListKubernetesClusters None,
      Called (GetKubernetesCluster k0) None,
      Called (NewFromSecretsStorage k0) None,
      Called (UpdateConfig k0 (BackupStorageConfig name)) None]"

text \<open>A state in which the config of \<open>A\<close> has been materialized in the cluster \<open>k2\<close>.\<close>

definition stInK2 :: st where
  "stInK2 = stABC\<lparr>trace := [Called (EnsureConfigExists ''k2'' (BackupStorageConfig ''A'')) None]\<rparr>"

section \<open>Sample requests, stores and environments\<close>

text \<open>A request naming the storage \<open>s3\<close> in its data source and in two schedules.\<close>

definition dbcRepeated :: DatabaseCluster where
  "dbcRepeated =
     \<lparr>api_Spec = Some
        \<lparr>api_DataSource =
           Some \<lparr>api_BackupSource = Some \<lparr>api_src_BackupStorageName = ''s3''\<rparr>\<rparr>,
         api_Backup = Some \<lparr>api_Schedules = Some
            [\<lparr>api_sched_BackupStorageName = ''s3''\<rparr>,
             \<lparr>api_sched_BackupStorageName = ''s3''\<rparr>]\<rparr>,
         api_Monitoring = None\<rparr>\<rparr>"

text \<open>A request with neither data source nor backup section.\<close>

definition dbcBare :: DatabaseCluster where
  "dbcBare =
     \<lparr>api_Spec = Some \<lparr>api_DataSource = None, api_Backup = None, api_Monitoring = None\<rparr>\<rparr>"

text \<open>A request whose data source has a backup source with an empty storage name.\<close>

definition dbcEmptySource :: DatabaseCluster where
  "dbcEmptySource =
     \<lparr>api_Spec = Some
        \<lparr>api_DataSource = Some \<lparr>api_BackupSource = Some \<lparr>api_src_BackupStorageName = []\<rparr>\<rparr>,
         api_Backup = None,
         api_Monitoring = None\<rparr>\<rparr>"

text \<open>A stored cluster with the same empty storage name in its data source.\<close>

definition oldEmptySource :: k8s_DatabaseCluster where
  "oldEmptySource =
     \<lparr>k8s_DataSource = Some \<lparr>k8s_BackupSource = Some \<lparr>k8s_src_BackupStorageName = []\<rparr>\<rparr>,
      k8s_Schedules = [],
      k8s_Monitoring = None\<rparr>"

section \<open>Facts about the resolvers\<close>

lemma set_map_put: "set (map_put k ks) = insert k (set ks)"
  by (auto simp: map_put_def)

lemma distinct_map_put: "distinct ks \<Longrightarrow> distinct (map_put k ks)"
  by (simp add: map_put_def)

lemma set_foldl_put:
  "set (foldl (\<lambda>acc x. map_put (f x) acc) ks xs) = set ks \<union> f ` set xs"
  by (induction xs arbitrary: ks) (auto simp: set_map_put)

lemma distinct_foldl_put:
  "distinct ks \<Longrightarrow> distinct (foldl (\<lambda>acc x. map_put (f x) acc) ks xs)"
  by (induction xs arbitrary: ks) (simp_all add: distinct_map_put)

lemma set_foldl_put_nonempty:
  "set (foldl (\<lambda>acc x. if f x \<noteq> [] then map_put (f x) acc else acc) ks xs)
     = set ks \<union> (f ` set xs - {[]})"
  by (induction xs arbitrary: ks) (auto simp: set_map_put)

lemma distinct_foldl_put_nonempty:
  "distinct ks \<Longrightarrow>
     distinct (foldl (\<lambda>acc x. if f x \<noteq> [] then map_put (f x) acc else acc) ks xs)"
  by (induction xs arbitrary: ks) (simp_all add: distinct_map_put)

lemma set_foldl_unique:
  "set (foldl (\<lambda>acc key. if key \<in> set source then acc else map_put key acc) ks xs)
     = set ks \<union> (set xs - set source)"
  by (induction xs arbitrary: ks) (auto simp: set_map_put)

lemma distinct_foldl_unique:
  "distinct ks \<Longrightarrow>
     distinct (foldl (\<lambda>acc key. if key \<in> set source then acc else map_put key acc) ks xs)"
  by (induction xs arbitrary: ks) (simp_all add: distinct_map_put)

lemma set_uniqueKeys: "set (uniqueKeys source target) = set target - set source"
  by (simp add: uniqueKeys_def set_foldl_unique)

lemma distinct_uniqueKeys: "distinct (uniqueKeys source target)"
  by (simp add: uniqueKeys_def distinct_foldl_unique)

lemma distinct_backupStorageNamesFrom: "distinct (backupStorageNamesFrom dbc)"
  by (simp add: backupStorageNamesFrom_def Let_def distinct_foldl_put distinct_map_put
      split: option.splits)

lemma distinct_withBackupStorageNames:
  "distinct existing \<Longrightarrow> distinct (withBackupStorageNamesFromDBCluster existing dbc)"
  by (simp add: withBackupStorageNamesFromDBCluster_def Let_def distinct_foldl_put_nonempty
      distinct_map_put split: option.splits)

lemma empty_notin_withBackupStorageNames:
  "[] \<notin> set existing \<Longrightarrow> [] \<notin> set (withBackupStorageNamesFromDBCluster existing dbc)"
  by (auto simp: withBackupStorageNamesFromDBCluster_def Let_def set_foldl_put_nonempty
      set_map_put split: option.splits)

lemma count_list_distinct: "distinct xs \<Longrightarrow> x \<in> set xs \<Longrightarrow> count_list xs x = 1"
  by (induction xs) auto

lemma set_backupStorageNamesFrom:
  "set (backupStorageNamesFrom dbc) =
     (case api_Spec dbc of
        None \<Rightarrow> {}
      | Some spec \<Rightarrow>
          (case api_DataSource spec of
             None \<Rightarrow> {}
           | Some ds \<Rightarrow>
               (case api_BackupSource ds of
                  None \<Rightarrow> {}
                | Some src \<Rightarrow> {api_src_BackupStorageName src}))
          \<union> (case api_Backup spec of
               None \<Rightarrow> {}
             | Some b \<Rightarrow>
                 (case api_Schedules b of
                    None \<Rightarrow> {}
                  | Some schedules \<Rightarrow> api_sched_BackupStorageName ` set schedules)))"
  by (simp add: backupStorageNamesFrom_def Let_def set_foldl_put set_map_put
      split: option.splits)

text \<open>
  Claim C9. \<^verbatim>\<open>backupStorageNamesFrom\<close> returns a set: no name occurs twice in its
  result. It has no error result at all. A request without a spec, or with a spec that has
  no data source and no schedules (no backup section, no schedule list, or an empty one),
  yields the empty set. A name referenced by the data source's backup source, and any name
  referenced by a schedule, occurs in the result exactly once, however many schedules
  repeat it.
\<close>

theorem C9_resolver_returns_a_set:
  "distinct (backupStorageNamesFrom dbc)
   \<and> (api_Spec dbc = None \<longrightarrow> backupStorageNamesFrom dbc = [])
   \<and> (\<forall>spec. api_Spec dbc = Some spec \<and> api_DataSource spec = None
          \<and> (api_Backup spec = None
              \<or> (\<exists>b. api_Backup spec = Some b
                    \<and> (api_Schedules b = None \<or> api_Schedules b = Some [])))
        \<longrightarrow> backupStorageNamesFrom dbc = [])
   \<and> (\<forall>spec ds src. api_Spec dbc = Some spec \<and> api_DataSource spec = Some ds
          \<and> api_BackupSource ds = Some src
        \<longrightarrow> count_list (backupStorageNamesFrom dbc) (api_src_BackupStorageName src) = 1)
   \<and> (\<forall>spec b schedules schedule. api_Spec dbc = Some spec \<and> api_Backup spec = Some b
          \<and> api_Schedules b = Some schedules \<and> schedule \<in> set schedules
        \<longrightarrow> count_list (backupStorageNamesFrom dbc) (api_sched_BackupStorageName schedule) = 1)"
proof -
  have d: "distinct (backupStorageNamesFrom dbc)"
    by (rule distinct_backupStorageNamesFrom)
  have e1: "api_Spec dbc = None \<longrightarrow> backupStorageNamesFrom dbc = []"
    by (simp add: backupStorageNamesFrom_def)
  have e2: "\<forall>spec. api_Spec dbc = Some spec \<and> api_DataSource spec = None
          \<and> (api_Backup spec = None
              \<or> (\<exists>b. api_Backup spec = Some b
                    \<and> (api_Schedules b = None \<or> api_Schedules b = Some [])))
        \<longrightarrow> backupStorageNamesFrom dbc = []"
    by (auto simp: backupStorageNamesFrom_def)
  have m1: "\<forall>spec ds src. api_Spec dbc = Some spec \<and> api_DataSource spec = Some ds
          \<and> api_BackupSource ds = Some src
        \<longrightarrow> api_src_BackupStorageName src \<in> set (backupStorageNamesFrom dbc)"
    by (auto simp: set_backupStorageNamesFrom)
  have m2: "\<forall>spec b schedules schedule. api_Spec dbc = Some spec \<and> api_Backup spec = Some b
          \<and> api_Schedules b = Some schedules \<and> schedule \<in> set schedules
        \<longrightarrow> api_sched_BackupStorageName schedule \<in> set (backupStorageNamesFrom dbc)"
    by (auto simp: set_backupStorageNamesFrom)
  have c: "\<And>n. n \<in> set (backupStorageNamesFrom dbc)
              \<Longrightarrow> count_list (backupStorageNamesFrom dbc) n = 1"
    using d by (rule count_list_distinct)
  from m1 c have c1: "\<forall>spec ds src. api_Spec dbc = Some spec \<and> api_DataSource spec = Some ds
          \<and> api_BackupSource ds = Some src
        \<longrightarrow> count_list (backupStorageNamesFrom dbc) (api_src_BackupStorageName src) = 1"
    by blast
  from m2 c have c2: "\<forall>spec b schedules schedule. api_Spec dbc = Some spec
          \<and> api_Backup spec = Some b
          \<and> api_Schedules b = Some schedules \<and> schedule \<in> set schedules
        \<longrightarrow> count_list (backupStorageNamesFrom dbc) (api_sched_BackupStorageName schedule) = 1"
    by blast
  from d e1 e2 c1 c2 show ?thesis
    by (intro conjI)
qed

theorem C9_resolver_returns_a_set_witness:
  "count_list (backupStorageNamesFrom dbcRepeated) ''s3'' = 1
   \<and> backupStorageNamesFrom dbcRepeated = [''s3'']
   \<and> backupStorageNamesFrom dbcBare = []"
  using C9_resolver_returns_a_set [of dbcRepeated] C9_resolver_returns_a_set [of dbcBare]
  by (simp add: dbcRepeated_def dbcBare_def backupStorageNamesFrom_def map_put_def)

text \<open>
  Claim C10. The two resolvers disagree on empty names.
  \<^verbatim>\<open>withBackupStorageNamesFromDBCluster\<close> adds no empty name to the set it is given,
  so on the empty set (as both of its callers use it, on the stored cluster) its result
  never holds the empty string. \<^verbatim>\<open>backupStorageNamesFrom\<close> (on the request) holds
  the empty string whenever the data source has a backup source whose storage name is
  empty; for such a request the empty string is among the names an update computes as
  new, \<^verbatim>\<open>uniqueKeys(oldNames, newNames)\<close>, whatever the stored cluster is.
\<close>

theorem C10_resolvers_disagree_on_empty_names:
  "([] \<notin> set existing \<longrightarrow> [] \<notin> set (withBackupStorageNamesFromDBCluster existing oldDB))
   \<and> [] \<notin> set (withBackupStorageNamesFromDBCluster [] oldDB)
   \<and> (\<forall>spec ds src. api_Spec dbc = Some spec \<and> api_DataSource spec = Some ds
          \<and> api_BackupSource ds = Some src \<and> api_src_BackupStorageName src = []
        \<longrightarrow> [] \<in> set (backupStorageNamesFrom dbc)
            \<and> [] \<in> set (uniqueKeys (withBackupStorageNamesFromDBCluster [] oldDB)
                           (backupStorageNamesFrom dbc)))"
  using empty_notin_withBackupStorageNames [of existing oldDB]
    empty_notin_withBackupStorageNames [of "[]" oldDB]
  by (auto simp: set_uniqueKeys set_backupStorageNamesFrom)

theorem C10_resolvers_disagree_on_empty_names_witness:
  "withBackupStorageNamesFromDBCluster [] oldEmptySource = []
   \<and> backupStorageNamesFrom dbcEmptySource = [[]]
   \<and> [] \<in> set (uniqueKeys (withBackupStorageNamesFromDBCluster [] oldEmptySource)
                  (backupStorageNamesFrom dbcEmptySource))"
  using C10_resolvers_disagree_on_empty_names [of "[]" oldEmptySource dbcEmptySource]
  by (simp add: dbcEmptySource_def oldEmptySource_def backupStorageNamesFrom_def
      withBackupStorageNamesFromDBCluster_def map_put_def)

text \<open>
  The resolvers of the code compute these names; the one applied to the stored cluster
  leaves out the empty name.
\<close>

lemma backupStorageNamesFrom_requested:
  "set (backupStorageNamesFrom dbc) = requestedStorages dbc"
  by (simp add: set_backupStorageNamesFrom requestedStorages_def)

lemma withBackupStorageNames_stored:
  "set (withBackupStorageNamesFromDBCluster [] db) = storedStorages db - {[]}"
  by (auto simp: withBackupStorageNamesFromDBCluster_def storedStorages_def Let_def
      set_foldl_put_nonempty set_map_put split: option.splits)

lemma monitoringNameFrom_requested: "monitoringNameFrom dbc = requestedMonitoring dbc"
  by (simp add: monitoringNameFrom_def requestedMonitoring_def)

lemma oldMonitoringName_stored: "oldMonitoringName db = storedMonitoring db"
  by (simp add: oldMonitoringName_def storedMonitoring_def)

lemma card_uniqueKeys:
  "card (set target - set source) = length (uniqueKeys source target)"
  using distinct_card [OF distinct_uniqueKeys [of source target]] by (simp add: set_uniqueKeys)

lemma storedMonitoringNames_cases:
  "storedMonitoringNames db = [] \<or> (\<exists>m. storedMonitoringNames db = [m])"
  by (simp add: storedMonitoringNames_def)

lemma pick_simps [simp]:
  "pick f [] = []"
  "pick f (e # evs) = f e @ pick f evs"
  "pick f (xs @ ys) = pick f xs @ pick f ys"
  by (simp_all add: pick_def)

lemma ext_eq:
  "ext env c s = (fault env (trace s) c, s\<lparr>trace := trace s @ [Called c (fault env (trace s) c)]\<rparr>)"
  by (simp add: ext_def Let_def)

lemma extD:
  "ext env c s = (r, s') \<Longrightarrow>
     r = fault env (trace s) c \<and> s' = s\<lparr>trace := trace s @ [Called c r]\<rparr>"
  by (auto simp: ext_def Let_def)

lemma storage_GetBackupStorageD:
  "storage_GetBackupStorage env name s = (r, s') \<Longrightarrow>
     s' = s\<lparr>trace := trace s @
            [Called (GetBackupStorage name) (case r of Inl e \<Rightarrow> Some e | Inr bs \<Rightarrow> None)]\<rparr>"
  by (auto simp: storage_GetBackupStorage_def Let_def)

lemma createLoop_success:
  "createLoop env k names processed s = (None, s') \<Longrightarrow>
     s' = s\<lparr>trace := trace s @ concat (map (materialized k) names)\<rparr>"
proof (induction names arbitrary: processed s)
  case Nil
  then show ?case by simp
next
  case (Cons n names)
  from Cons.prems obtain bs s1 s2 where
    f: "storage_GetBackupStorage env n s = (Inr bs, s1)" and
    e: "ext env (EnsureConfigExists k (BackupStorageConfig n)) s1 = (None, s2)" and
    r: "createLoop env k names (processed @ [n]) s2 = (None, s')"
    by (auto split: prod.splits sum.splits option.splits)
  from storage_GetBackupStorageD [OF f] extD [OF e] Cons.IH [OF r]
  show ?case by (simp add: materialized_def)
qed

lemma pick_materialized:
  "pick fetchBS (concat (map (materialized k) names)) = names"
  "pick fetchedBS (concat (map (materialized k) names)) = names"
  "pick ensureBS (concat (map (materialized k) names)) = names"
  "pick deleteBS (concat (map (materialized k) names)) = []"
  by (induction names) (simp_all add: materialized_def)

lemma cleanup_Nil [simp]: "cleanupCalls []" "failuresLogged []" "cleanupOnly []"
  by (simp_all add: cleanupOnly_def cleanupCalls_def failuresLogged_def)

lemma cleanupCalls_append: "cleanupCalls xs \<Longrightarrow> cleanupCalls ys \<Longrightarrow> cleanupCalls (xs @ ys)"
  by (simp add: cleanupCalls_def)

lemma failuresLogged_append:
  "failuresLogged xs \<Longrightarrow> failuresLogged ys \<Longrightarrow> failuresLogged (xs @ ys)"
  by (simp add: failuresLogged_def)

lemma logError_eq: "logError e s = s\<lparr>trace := trace s @ [Logged e]\<rparr>"
  by (simp add: logError_def)

lemma initKubeClientD:
  "initKubeClient env kubernetesID s = (Inr k, s') \<Longrightarrow>
     k = kubernetesID
     \<and> s' = s\<lparr>trace := trace s @ [Called (GetKubernetesCluster kubernetesID) None,
                                   Called (NewFromSecretsStorage kubernetesID) None]\<rparr>"
  by (auto simp: initKubeClient_def ext_eq split: option.splits)

lemma kube_GetDatabaseClusterD:
  "kube_GetDatabaseCluster env k name s = (Inr db, s') \<Longrightarrow>
     db = databaseCluster env (trace s) k name
     \<and> s' = s\<lparr>trace := trace s @ [Called (GetDatabaseCluster k name) None]\<rparr>"
  by (auto simp: kube_GetDatabaseCluster_def ext_eq split: option.splits)

lemma proxyKubernetesD:
  "proxyKubernetes env kubernetesID name s = (Inr status, s') \<Longrightarrow>
     status = proxyStatus env (trace s)
     \<and> s' = s\<lparr>trace := trace s @ [Called (ProxyKubernetes kubernetesID name) None]\<rparr>"
  by (auto simp: proxyKubernetes_def ext_eq split: option.splits)

lemma createMonitoringInstanceOnUpdateD:
  "createMonitoringInstanceOnUpdate env k oldDB newName s = (None, s') \<Longrightarrow>
     s' = s\<lparr>trace := trace s @ monitoringEnsured k oldDB newName\<rparr>"
  by (auto simp: createMonitoringInstanceOnUpdate_def monitoringEnsured_def ext_eq
      split: option.splits if_splits)

lemma createResourcesD:
  "createResources env oldDB k newMonitoringName newBackupNames s = (None, s') \<Longrightarrow>
     s' = s\<lparr>trace := trace s
            @ concat (map (materialized k)
                (rangeOrder env (trace s)
                   (uniqueKeys (withBackupStorageNamesFromDBCluster [] oldDB) newBackupNames)))
            @ monitoringEnsured k oldDB newMonitoringName\<rparr>"
  by (auto simp: createResources_def createBackupStoragesOnUpdate_def
      split: prod.splits option.splits
      dest!: createLoop_success createMonitoringInstanceOnUpdateD)

lemma pick_fetched_subset: "set (pick fetchedBS evs) \<subseteq> set (pick fetchBS evs)"
proof (induction evs)
  case Nil
  show ?case by simp
next
  case (Cons e evs)
  have "set (fetchedBS e) \<subseteq> set (fetchBS e)"
    by (cases e rule: fetchedBS.cases) simp_all
  with Cons show ?case by auto
qed

lemma pick_monitoringEnsured:
  "pick fetchBS (monitoringEnsured k oldDB m) = []"
  "pick ensureBS (monitoringEnsured k oldDB m) = []"
  "pick deleteBS (monitoringEnsured k oldDB m) = []"
  "pick deleteMI (monitoringEnsured k oldDB m) = []"
  "pick fetchMI (monitoringEnsured k oldDB m)
     = (if m \<noteq> [] \<and> m \<noteq> oldMonitoringName oldDB then [m] else [])"
  "pick ensureMI (monitoringEnsured k oldDB m)
     = (if m \<noteq> [] \<and> m \<noteq> oldMonitoringName oldDB then [m] else [])"
  by (simp_all add: monitoringEnsured_def)

lemma pick_materialized_MI:
  "pick fetchMI (concat (map (materialized k) names)) = []"
  "pick ensureMI (concat (map (materialized k) names)) = []"
  "pick deleteMI (concat (map (materialized k) names)) = []"
  by (induction names) (simp_all add: materialized_def)

lemma pick_updatePrelude:
  "pick fetchBS (updatePrelude kid name) = []"
  "pick ensureBS (updatePrelude kid name) = []"
  "pick deleteBS (updatePrelude kid name) = []"
  "pick fetchMI (updatePrelude kid name) = []"
  "pick ensureMI (updatePrelude kid name) = []"
  "pick deleteMI (updatePrelude kid name) = []"
  by (simp_all add: updatePrelude_def)

lemma pick_deletePrelude: "pick deleteCfg (deletePrelude kid name) = []"
  by (simp add: deletePrelude_def)

lemma trace_update_eq [simp]:
  "(s\<lparr>trace := a\<rparr> = s\<lparr>trace := b\<rparr>) = (a = b)"
  by (auto dest: arg_cong [where f = trace])

lemma pick_updatePrelude_more:
  "pick ensuredBS (updatePrelude kid name) = []"
  "pick ensuredMI (updatePrelude kid name) = []"
  "pick touchedBS (updatePrelude kid name) = []"
  "pick touchedMI (updatePrelude kid name) = []"
  "pick proxied (updatePrelude kid name) = []"
  by (simp_all add: updatePrelude_def)

lemma pick_materialized_more:
  "pick ensuredBS (concat (map (materialized k) names)) = names"
  "pick ensuredMI (concat (map (materialized k) names)) = []"
  "set (pick touchedBS (concat (map (materialized k) names))) = set names"
  "pick touchedMI (concat (map (materialized k) names)) = []"
  "pick proxied (concat (map (materialized k) names)) = []"
  by (induction names) (auto simp: materialized_def)

lemma pick_monitoringEnsured_more:
  "pick ensuredBS (monitoringEnsured k oldDB m) = []"
  "pick touchedBS (monitoringEnsured k oldDB m) = []"
  "pick proxied (monitoringEnsured k oldDB m) = []"
  "pick ensuredMI (monitoringEnsured k oldDB m)
     = (if m \<noteq> [] \<and> m \<noteq> oldMonitoringName oldDB then [m] else [])"
  "set (pick touchedMI (monitoringEnsured k oldDB m))
     = (if m \<noteq> [] \<and> m \<noteq> oldMonitoringName oldDB then {m} else {})"
  by (simp_all add: monitoringEnsured_def)

lemma st_same_spawned [simp]: "s\<lparr>trace := t, spawned := spawned s @ []\<rparr> = s\<lparr>trace := t\<rparr>"
  by simp

lemma pick_deletePrelude_more:
  "pick touchedBS (deletePrelude kid name) = []"
  "pick touchedMI (deletePrelude kid name) = []"
  "pick proxied (deletePrelude kid name) = []"
  by (simp_all add: deletePrelude_def)

lemma rollbackCreatedBackupStorages_trace:
  "\<exists>evs. rollbackCreatedBackupStorages env k names s = s\<lparr>trace := trace s @ evs\<rparr>
        \<and> pick fetchBS evs = names \<and> pick fetchMI evs = [] \<and> cleanupOnly evs"
proof (induction names arbitrary: s)
  case Nil
  show ?case by (rule exI [of _ "[]"]) simp
next
  case (Cons n names)
  obtain r s1 where f: "storage_GetBackupStorage env n s = (r, s1)"
    by (cases "storage_GetBackupStorage env n s")
  note s1 = storage_GetBackupStorageD [OF f]
  show ?case
  proof (cases r)
    case (Inl err)
    let ?s2 = "logError (Join err (ErrMsg ''could not get backup storage'')) s1"
    from Cons.IH [of ?s2] obtain evs where
      e: "rollbackCreatedBackupStorages env k names ?s2 = ?s2\<lparr>trace := trace ?s2 @ evs\<rparr>"
        "pick fetchBS evs = names" "pick fetchMI evs = []" "cleanupOnly evs"
      by blast
    show ?thesis
      by (rule exI [of _ "[Called (GetBackupStorage n) (Some err),
             Logged (Join err (ErrMsg ''could not get backup storage''))] @ evs"])
        (use f Inl s1 e in \<open>simp add: logError_eq cleanupOnly_def cleanupCalls_def
            failuresLogged_def\<close>)
  next
    case (Inr bs)
    obtain d s2 where x: "ext env (DeleteConfig k (BackupStorageConfig n)) s1 = (d, s2)"
      by (cases "ext env (DeleteConfig k (BackupStorageConfig n)) s1")
    note s2 = extD [OF x]
    let ?s3 = "(case d of None \<Rightarrow> s2 | Some err \<Rightarrow>
                 if \<not> errors_Is err ErrConfigInUse
                 then logError (Join err (ErrMsg ''could not delete backup storage config'')) s2
                 else s2)"
    from Cons.IH [of ?s3] obtain evs where
      e: "rollbackCreatedBackupStorages env k names ?s3 = ?s3\<lparr>trace := trace ?s3 @ evs\<rparr>"
        "pick fetchBS evs = names" "pick fetchMI evs = []" "cleanupOnly evs"
      by blast
    show ?thesis
      by (rule exI [of _ "[Called (GetBackupStorage n) None,
             Called (DeleteConfig k (BackupStorageConfig n)) d]
             @ (case d of None \<Rightarrow> [] | Some err \<Rightarrow>
                 if \<not> errors_Is err ErrConfigInUse
                 then [Logged (Join err (ErrMsg ''could not delete backup storage config''))]
                 else []) @ evs"])
        (use f Inr s1 x s2 e in \<open>auto simp: logError_eq cleanupOnly_def cleanupCalls_def
            failuresLogged_def split: option.splits\<close>)
  qed
qed

text \<open>
  The two ways the create loop fails. When the fetch of a record fails, the events are
  the rounds that succeeded and that fetch, and nothing more. When
  \<^verbatim>\<open>EnsureConfigExists\<close> fails, they are followed by the events of the rollback,
  which fetches the record of every name processed so far.
\<close>

lemma createLoop_failure:
  assumes "createLoop env k names processed s = (Some err, s')"
  shows "(\<exists>done n rest e.
            names = done @ n # rest
          \<and> err = Join e (ErrMsg ''could not get backup storage'')
          \<and> s' = s\<lparr>trace := trace s @ concat (map (materialized k) done)
                            @ [Called (GetBackupStorage n) (Some e)]\<rparr>)
       \<or> (\<exists>done n rest e evs.
            names = done @ n # rest
          \<and> err = Join e (ErrMsg (''could not create CRs for '' @ n))
          \<and> s' = s\<lparr>trace := trace s @ concat (map (materialized k) done)
                            @ [Called (GetBackupStorage n) None,
                               Called (EnsureConfigExists k (BackupStorageConfig n)) (Some e)]
                            @ evs\<rparr>
          \<and> pick fetchBS evs = processed @ done \<and> cleanupOnly evs)"
  using assms
proof (induction names arbitrary: processed s)
  case Nil
  then show ?case by simp
next
  case (Cons n names)
  obtain r s1 where f: "storage_GetBackupStorage env n s = (r, s1)"
    by (cases "storage_GetBackupStorage env n s")
  note s1 = storage_GetBackupStorageD [OF f]
  show ?case
  proof (cases r)
    case (Inl e)
    have "err = Join e (ErrMsg ''could not get backup storage'')" "s' = s1"
      using Cons.prems f Inl by simp_all
    then have "n # names = [] @ n # names
          \<and> err = Join e (ErrMsg ''could not get backup storage'')
          \<and> s' = s\<lparr>trace := trace s @ concat (map (materialized k) [])
                            @ [Called (GetBackupStorage n) (Some e)]\<rparr>"
      using s1 Inl by simp
    then show ?thesis by blast
  next
    case (Inr bs)
    obtain d s2 where x: "ext env (EnsureConfigExists k (BackupStorageConfig n)) s1 = (d, s2)"
      by (cases "ext env (EnsureConfigExists k (BackupStorageConfig n)) s1")
    note s2 = extD [OF x]
    show ?thesis
    proof (cases d)
      case (Some e)
      have err: "err = Join e (ErrMsg (''could not create CRs for '' @ n))"
        and s': "s' = rollbackCreatedBackupStorages env k processed s2"
        using Cons.prems f Inr x Some by simp_all
      from rollbackCreatedBackupStorages_trace [of env k processed s2] obtain evs where
        e: "rollbackCreatedBackupStorages env k processed s2 = s2\<lparr>trace := trace s2 @ evs\<rparr>"
          "pick fetchBS evs = processed" "cleanupOnly evs"
        by blast
      have "n # names = [] @ n # names
          \<and> err = Join e (ErrMsg (''could not create CRs for '' @ n))
          \<and> s' = s\<lparr>trace := trace s @ concat (map (materialized k) [])
                            @ [Called (GetBackupStorage n) None,
                               Called (EnsureConfigExists k (BackupStorageConfig n)) (Some e)]
                            @ evs\<rparr>
          \<and> pick fetchBS evs = processed @ [] \<and> cleanupOnly evs"
        using err s' e s1 s2 Inr Some by simp
      then show ?thesis by blast
    next
      case None
      have rest: "createLoop env k names (processed @ [n]) s2 = (Some err, s')"
        using Cons.prems f Inr x None by simp
      have s2': "s2 = s\<lparr>trace := trace s @ materialized k n\<rparr>"
        using s1 s2 Inr None by (simp add: materialized_def)
      from Cons.IH [OF rest] show ?thesis
      proof
        assume "\<exists>done m rest e.
            names = done @ m # rest
          \<and> err = Join e (ErrMsg ''could not get backup storage'')
          \<and> s' = s2\<lparr>trace := trace s2 @ concat (map (materialized k) done)
                            @ [Called (GetBackupStorage m) (Some e)]\<rparr>"
        then obtain done' m rest e where
          a: "names = done' @ m # rest" "err = Join e (ErrMsg ''could not get backup storage'')"
            "s' = s2\<lparr>trace := trace s2 @ concat (map (materialized k) done')
                            @ [Called (GetBackupStorage m) (Some e)]\<rparr>"
          by blast
        have "n # names = (n # done') @ m # rest
          \<and> err = Join e (ErrMsg ''could not get backup storage'')
          \<and> s' = s\<lparr>trace := trace s @ concat (map (materialized k) (n # done'))
                            @ [Called (GetBackupStorage m) (Some e)]\<rparr>"
          using a s2' by simp
        then show ?thesis by blast
      next
        assume "\<exists>done m rest e evs.
            names = done @ m # rest
          \<and> err = Join e (ErrMsg (''could not create CRs for '' @ m))
          \<and> s' = s2\<lparr>trace := trace s2 @ concat (map (materialized k) done)
                            @ [Called (GetBackupStorage m) None,
                               Called (EnsureConfigExists k (BackupStorageConfig m)) (Some e)]
                            @ evs\<rparr>
          \<and> pick fetchBS evs = (processed @ [n]) @ done \<and> cleanupOnly evs"
        then obtain done' m rest e evs where
          a: "names = done' @ m # rest" "err = Join e (ErrMsg (''could not create CRs for '' @ m))"
            "s' = s2\<lparr>trace := trace s2 @ concat (map (materialized k) done')
                            @ [Called (GetBackupStorage m) None,
                               Called (EnsureConfigExists k (BackupStorageConfig m)) (Some e)]
                            @ evs\<rparr>"
            "pick fetchBS evs = (processed @ [n]) @ done'" "cleanupOnly evs"
          by blast
        have "n # names = (n # done') @ m # rest
          \<and> err = Join e (ErrMsg (''could not create CRs for '' @ m))
          \<and> s' = s\<lparr>trace := trace s @ concat (map (materialized k) (n # done'))
                            @ [Called (GetBackupStorage m) None,
                               Called (EnsureConfigExists k (BackupStorageConfig m)) (Some e)]
                            @ evs\<rparr>
          \<and> pick fetchBS evs = processed @ (n # done') \<and> cleanupOnly evs"
          using a s2' by simp
        then show ?thesis by blast
      qed
    qed
  qed
qed

text \<open>
  Whenever \<^verbatim>\<open>createK8SBackupStorages\<close> fails, \<^verbatim>\<open>CreateDatabaseCluster\<close> answers
  500 and stops there: the request is not proxied.
\<close>

lemma CreateDatabaseCluster_stops_on_failure:
  assumes "ext env GetBodyFromContext s = (None, s1)"
    and "ext env (ValidateDatabaseClusterCR kubernetesID) s1 = (None, s2)"
    and "initKubeClient env kubernetesID s2 = (Inr kubeClient, s3)"
    and "createK8SBackupStorages env kubeClient (backupStorageNamesFrom dbc) s3 = (Some err, s4)"
  shows "CreateDatabaseCluster env kubernetesID dbc s
     = (JSON StatusInternalServerError (Message ''Could not create BackupStorage''),
        logError err s4)"
  using assms by (simp add: CreateDatabaseCluster_def)

section \<open>Every outcome of an update\<close>

text \<open>
  What the create phase touches, whether it succeeds or fails: the rollback and the loop
  name no backup storage but those they were given, and neither names a monitoring
  instance or proxies.
\<close>

lemma rollback_touches:
  "\<exists>evs. rollbackCreatedBackupStorages env k names s = s\<lparr>trace := trace s @ evs\<rparr>
        \<and> set (pick touchedBS evs) \<subseteq> set names \<and> pick ensureBS evs = []
        \<and> pick touchedMI evs = [] \<and> pick proxied evs = []"
proof (induction names arbitrary: s)
  case Nil
  show ?case by (rule exI [of _ "[]"]) simp
next
  case (Cons n names)
  obtain r s1 where f: "storage_GetBackupStorage env n s = (r, s1)"
    by (cases "storage_GetBackupStorage env n s")
  note s1 = storage_GetBackupStorageD [OF f]
  show ?case
  proof (cases r)
    case (Inl err)
    let ?s2 = "logError (Join err (ErrMsg ''could not get backup storage'')) s1"
    from Cons.IH [of ?s2] obtain evs where
      e: "rollbackCreatedBackupStorages env k names ?s2 = ?s2\<lparr>trace := trace ?s2 @ evs\<rparr>"
        "set (pick touchedBS evs) \<subseteq> set names" "pick ensureBS evs = []"
        "pick touchedMI evs = []" "pick proxied evs = []"
      by blast
    show ?thesis
      by (rule exI [of _ "[Called (GetBackupStorage n) (Some err),
             Logged (Join err (ErrMsg ''could not get backup storage''))] @ evs"])
        (use f Inl s1 e in \<open>auto simp: logError_eq\<close>)
  next
    case (Inr bs)
    obtain d s2 where x: "ext env (DeleteConfig k (BackupStorageConfig n)) s1 = (d, s2)"
      by (cases "ext env (DeleteConfig k (BackupStorageConfig n)) s1")
    note s2 = extD [OF x]
    let ?s3 = "(case d of None \<Rightarrow> s2 | Some err \<Rightarrow>
                 if \<not> errors_Is err ErrConfigInUse
                 then logError (Join err (ErrMsg ''could not delete backup storage config'')) s2
                 else s2)"
    from Cons.IH [of ?s3] obtain evs where
      e: "rollbackCreatedBackupStorages env k names ?s3 = ?s3\<lparr>trace := trace ?s3 @ evs\<rparr>"
        "set (pick touchedBS evs) \<subseteq> set names" "pick ensureBS evs = []"
        "pick touchedMI evs = []" "pick proxied evs = []"
      by blast
    show ?thesis
      by (rule exI [of _ "[Called (GetBackupStorage n) None,
             Called (DeleteConfig k (BackupStorageConfig n)) d]
             @ (case d of None \<Rightarrow> [] | Some err \<Rightarrow>
                 if \<not> errors_Is err ErrConfigInUse
                 then [Logged (Join err (ErrMsg ''could not delete backup storage config''))]
                 else []) @ evs"])
        (use f Inr s1 x s2 e in \<open>auto simp: logError_eq split: option.splits\<close>)
  qed
qed

lemma createLoop_touches:
  "createLoop env k names processed s = (r, s') \<Longrightarrow>
     \<exists>evs. s' = s\<lparr>trace := trace s @ evs\<rparr>
        \<and> set (pick touchedBS evs) \<subseteq> set names \<union> set processed
        \<and> pick touchedMI evs = [] \<and> pick proxied evs = []"
proof (induction names arbitrary: processed s)
  case Nil
  then show ?case by (intro exI [of _ "[]"]) simp
next
  case (Cons n names)
  obtain f s1 where f: "storage_GetBackupStorage env n s = (f, s1)"
    by (cases "storage_GetBackupStorage env n s")
  note s1 = storage_GetBackupStorageD [OF f]
  show ?case
  proof (cases f)
    case (Inl e)
    have "s' = s1" using Cons.prems f Inl by simp
    with s1 Inl show ?thesis
      by (intro exI [of _ "[Called (GetBackupStorage n) (Some e)]"]) simp
  next
    case (Inr bs)
    obtain d s2 where x: "ext env (EnsureConfigExists k (BackupStorageConfig n)) s1 = (d, s2)"
      by (cases "ext env (EnsureConfigExists k (BackupStorageConfig n)) s1")
    note s2 = extD [OF x]
    show ?thesis
    proof (cases d)
      case (Some e)
      have s': "s' = rollbackCreatedBackupStorages env k processed s2"
        using Cons.prems f Inr x Some by simp
      from rollback_touches [of env k processed s2] obtain evs where
        e: "rollbackCreatedBackupStorages env k processed s2 = s2\<lparr>trace := trace s2 @ evs\<rparr>"
          "set (pick touchedBS evs) \<subseteq> set processed"
          "pick touchedMI evs = []" "pick proxied evs = []"
        by blast
      show ?thesis
        by (intro exI [of _ "[Called (GetBackupStorage n) None,
               Called (EnsureConfigExists k (BackupStorageConfig n)) (Some e)] @ evs"])
          (use s' e s1 s2 Inr Some in auto)
    next
      case None
      have rest: "createLoop env k names (processed @ [n]) s2 = (r, s')"
        using Cons.prems f Inr x None by simp
      from Cons.IH [OF rest] obtain evs where
        e: "s' = s2\<lparr>trace := trace s2 @ evs\<rparr>"
          "set (pick touchedBS evs) \<subseteq> set names \<union> set (processed @ [n])"
          "pick touchedMI evs = []" "pick proxied evs = []"
        by blast
      show ?thesis
        by (intro exI [of _ "[Called (GetBackupStorage n) None,
               Called (EnsureConfigExists k (BackupStorageConfig n)) None] @ evs"])
          (use e s1 s2 Inr None in auto)
    qed
  qed
qed

lemma createMonitoringInstanceOnUpdate_touches:
  assumes "createMonitoringInstanceOnUpdate env k oldDB newName s = (r, s')"
  shows "\<exists>evs. s' = s\<lparr>trace := trace s @ evs\<rparr>
           \<and> set (pick touchedMI evs)
               \<subseteq> (if newName \<noteq> [] \<and> newName \<noteq> oldMonitoringName oldDB then {newName} else {})
           \<and> pick deleteMI evs = []
           \<and> pick touchedBS evs = [] \<and> pick proxied evs = []"
proof -
  have "s' = s\<lparr>trace := trace s @ drop (length (trace s)) (trace s')\<rparr>
        \<and> set (pick touchedMI (drop (length (trace s)) (trace s')))
               \<subseteq> (if newName \<noteq> [] \<and> newName \<noteq> oldMonitoringName oldDB then {newName} else {})
        \<and> pick deleteMI (drop (length (trace s)) (trace s')) = []
        \<and> pick touchedBS (drop (length (trace s)) (trace s')) = []
        \<and> pick proxied (drop (length (trace s)) (trace s')) = []"
    using assms
    by (auto simp: createMonitoringInstanceOnUpdate_def ext_eq
        split: prod.splits option.splits if_splits)
  then show ?thesis by blast
qed

lemma createResources_touches:
  assumes "createResources env oldDB k newName newBackupNames s = (Some err, s')"
  shows "\<exists>evs. s' = s\<lparr>trace := trace s @ evs\<rparr>
           \<and> set (pick touchedBS evs)
               \<subseteq> set (rangeOrder env (trace s)
                        (uniqueKeys (withBackupStorageNamesFromDBCluster [] oldDB) newBackupNames))
           \<and> set (pick touchedMI evs)
               \<subseteq> (if newName \<noteq> [] \<and> newName \<noteq> oldMonitoringName oldDB then {newName} else {})
           \<and> pick deleteMI evs = []
           \<and> pick proxied evs = []"
proof -
  let ?names = "rangeOrder env (trace s)
                  (uniqueKeys (withBackupStorageNamesFromDBCluster [] oldDB) newBackupNames)"
  obtain r1 s1 where c: "createLoop env k ?names [] s = (r1, s1)"
    by (cases "createLoop env k ?names [] s")
  from createLoop_touches [OF c] obtain evs1 where
    e1: "s1 = s\<lparr>trace := trace s @ evs1\<rparr>" "set (pick touchedBS evs1) \<subseteq> set ?names"
      "pick touchedMI evs1 = []" "pick proxied evs1 = []"
    by auto
  have d1: "pick deleteMI evs1 = []"
    using e1(3) by (induction evs1) (auto elim: touchedMI.elims split: if_splits)
  show ?thesis
  proof (cases r1)
    case (Some e)
    have "s' = logError e s1"
      using assms c Some by (simp add: createResources_def createBackupStoragesOnUpdate_def)
    with e1 d1 show ?thesis
      by (intro exI [of _ "evs1 @ [Logged e]"]) (simp add: logError_eq)
  next
    case None
    obtain r2 s2 where m: "createMonitoringInstanceOnUpdate env k oldDB newName s1 = (r2, s2)"
      by (cases "createMonitoringInstanceOnUpdate env k oldDB newName s1")
    from createMonitoringInstanceOnUpdate_touches [OF m] obtain evs2 where
      e2: "s2 = s1\<lparr>trace := trace s1 @ evs2\<rparr>"
        "set (pick touchedMI evs2)
               \<subseteq> (if newName \<noteq> [] \<and> newName \<noteq> oldMonitoringName oldDB then {newName} else {})"
        "pick deleteMI evs2 = []" "pick touchedBS evs2 = []" "pick proxied evs2 = []"
      by blast
    obtain e where "s' = logError e s2"
      using assms c None m
      by (auto simp: createResources_def createBackupStoragesOnUpdate_def split: option.splits)
    with e1 d1 e2 show ?thesis
      by (intro exI [of _ "evs1 @ evs2 @ [Logged e]"]) (simp add: logError_eq)
  qed
qed

text \<open>
  \<^verbatim>\<open>UpdateDatabaseCluster\<close> either stops before its create phase, having touched no
  config, or is what follows the prelude.
\<close>

lemma UpdateDatabaseCluster_prelude:
  assumes run: "UpdateDatabaseCluster env kid name dbc s = (resp, s1)"
  shows "(\<exists>evs. s1 = s\<lparr>trace := trace s @ evs\<rparr>
          \<and> (\<forall>status. resp \<noteq> Proxied status)
          \<and> pick proxied evs = [] \<and> pick touchedBS evs = []
          \<and> pick touchedMI evs = [] \<and> pick deleteMI evs = [])
       \<or> (case createResources env (storedCluster env s kid name) kid (monitoringNameFrom dbc)
                  (backupStorageNamesFrom dbc) (s\<lparr>trace := trace s @ updatePrelude kid name\<rparr>) of
             (Some err, s6) \<Rightarrow> (JSON StatusInternalServerError (Message (err_Error err)), s6)
           | (None, s6) \<Rightarrow>
               (case proxyKubernetes env kid name s6 of
                  (Inl proxyErr, s7) \<Rightarrow> (Returned proxyErr, s7)
                | (Inr status, s7) \<Rightarrow>
                    (if status \<ge> StatusMultipleChoices then (Proxied status, s7)
                     else (Proxied status,
                           go (deleteMonitoringInstanceOnUpdate kid
                                 (storedCluster env s kid name) (monitoringNameFrom dbc))
                             (go (deleteBackupStoragesOnUpdate kid
                                    (storedCluster env s kid name)
                                    (backupStorageNamesFrom dbc)) s7))))) = (resp, s1)"
proof -
  let ?t1 = "trace s @ [Called GetBodyFromContext None]"
  let ?t2 = "?t1 @ [Called (ValidateDatabaseClusterCR kid) None]"
  let ?t3 = "?t2 @ [Called (GetKubernetesCluster kid) None]"
  let ?t4 = "?t3 @ [Called (NewFromSecretsStorage kid) None]"
  let ?t5 = "?t4 @ [Called (GetDatabaseCluster kid name) None]"
  define ok where "ok \<longleftrightarrow>
       fault env (trace s) GetBodyFromContext = None
     \<and> fault env ?t1 (ValidateDatabaseClusterCR kid) = None
     \<and> fault env ?t2 (GetKubernetesCluster kid) = None
     \<and> fault env ?t3 (NewFromSecretsStorage kid) = None
     \<and> fault env ?t4 (GetDatabaseCluster kid name) = None
     \<and> fault env ?t5 ValidateDatabaseClusterOnUpdate = None"
  show ?thesis
  proof (cases ok)
    case True
    with run show ?thesis
      unfolding ok_def storedCluster_def updatePrelude_def
      by (intro disjI2)
        (simp add: UpdateDatabaseCluster_def initKubeClient_def kube_GetDatabaseCluster_def
          ext_eq)
  next
    case False
    have "s1 = s\<lparr>trace := trace s @ drop (length (trace s)) (trace s1)\<rparr>
          \<and> (\<forall>status. resp \<noteq> Proxied status)
          \<and> pick proxied (drop (length (trace s)) (trace s1)) = []
          \<and> pick touchedBS (drop (length (trace s)) (trace s1)) = []
          \<and> pick touchedMI (drop (length (trace s)) (trace s1)) = []
          \<and> pick deleteMI (drop (length (trace s)) (trace s1)) = []"
      using run False unfolding ok_def
      by (auto simp: UpdateDatabaseCluster_def initKubeClient_def kube_GetDatabaseCluster_def
          ext_eq logError_eq split: option.splits)
    then show ?thesis by blast
  qed
qed

text \<open>
  Every run of \<^verbatim>\<open>UpdateDatabaseCluster\<close>. Its events are \<open>pre\<close>, in which nothing is
  proxied and only new names are touched, and \<open>rest\<close>: nothing, when it stopped before the
  proxy, or the proxied call. In the second case \<open>pre\<close> is the whole create phase. Goroutines
  are started only when the proxy answers with a status below 300.
\<close>

lemma UpdateDatabaseCluster_outcomes:
  assumes range: "rangeVisitsEachKeyOnce env"
    and run: "UpdateDatabaseCluster env kid name dbc s = (resp, s1)"
  defines "oldDB \<equiv> storedCluster env s kid name"
  defines "old \<equiv> withBackupStorageNamesFromDBCluster [] oldDB"
  defines "new \<equiv> backupStorageNamesFrom dbc"
  defines "newName \<equiv> monitoringNameFrom dbc"
  defines "oldName \<equiv> oldMonitoringName oldDB"
  shows "\<exists>pre rest started.
      s1 = s\<lparr>trace := trace s @ pre @ rest, spawned := spawned s @ started\<rparr>
    \<and> pick proxied pre = []
    \<and> set (pick touchedBS pre) \<subseteq> set new - set old
    \<and> set (pick touchedMI pre)
         \<subseteq> (if newName \<noteq> [] \<and> newName \<noteq> oldName then {newName} else {})
    \<and> pick deleteMI pre = []
    \<and> (rest = [] \<and> started = [] \<and> (\<forall>status. resp \<noteq> Proxied status)
       \<or> (\<exists>r. rest = [Called (ProxyKubernetes kid name) r]
            \<and> (case r of
                  Some e \<Rightarrow> resp = Returned e \<and> started = []
                | None \<Rightarrow>
                    (\<exists>status. resp = Proxied status
                       \<and> started = (if status < StatusMultipleChoices
                                    then [deleteBackupStoragesOnUpdate kid oldDB new,
                                          deleteMonitoringInstanceOnUpdate kid oldDB newName]
                                    else [])))
            \<and> set (pick ensuredBS pre) = set new - set old
            \<and> distinct (pick ensureBS pre)
            \<and> pick ensuredBS pre = pick ensureBS pre
            \<and> pick deleteBS pre = []
            \<and> pick ensuredMI pre
                 = (if newName \<noteq> [] \<and> newName \<noteq> oldName then [newName] else [])
            \<and> pick ensureMI pre = pick ensuredMI pre))"
proof -
  let ?s5 = "s\<lparr>trace := trace s @ updatePrelude kid name\<rparr>"
  let ?create = "rangeOrder env (trace ?s5) (uniqueKeys old new)"
  have create: "set ?create = set new - set old" "distinct ?create"
    using range by (simp_all add: rangeVisitsEachKeyOnce_def set_uniqueKeys distinct_uniqueKeys)
  from UpdateDatabaseCluster_prelude [OF run] show ?thesis
  proof
    assume "\<exists>evs. s1 = s\<lparr>trace := trace s @ evs\<rparr>
          \<and> (\<forall>status. resp \<noteq> Proxied status)
          \<and> pick proxied evs = [] \<and> pick touchedBS evs = []
          \<and> pick touchedMI evs = [] \<and> pick deleteMI evs = []"
    then obtain evs where
      "s1 = s\<lparr>trace := trace s @ evs\<rparr>" "\<forall>status. resp \<noteq> Proxied status"
      "pick proxied evs = []" "pick touchedBS evs = []"
      "pick touchedMI evs = []" "pick deleteMI evs = []"
      by blast
    then show ?thesis
      by (intro exI [of _ evs] exI [of _ "[]"]) simp
  next
    assume rest: "(case createResources env (storedCluster env s kid name) kid
                  (monitoringNameFrom dbc) (backupStorageNamesFrom dbc) ?s5 of
             (Some err, s6) \<Rightarrow> (JSON StatusInternalServerError (Message (err_Error err)), s6)
           | (None, s6) \<Rightarrow>
               (case proxyKubernetes env kid name s6 of
                  (Inl proxyErr, s7) \<Rightarrow> (Returned proxyErr, s7)
                | (Inr status, s7) \<Rightarrow>
                    (if status \<ge> StatusMultipleChoices then (Proxied status, s7)
                     else (Proxied status,
                           go (deleteMonitoringInstanceOnUpdate kid
                                 (storedCluster env s kid name) (monitoringNameFrom dbc))
                             (go (deleteBackupStoragesOnUpdate kid
                                    (storedCluster env s kid name)
                                    (backupStorageNamesFrom dbc)) s7))))) = (resp, s1)"
    obtain r s6 where c: "createResources env oldDB kid newName new ?s5 = (r, s6)"
      by (cases "createResources env oldDB kid newName new ?s5")
    show ?thesis
    proof (cases r)
      case (Some err)
      from createResources_touches [OF c [unfolded Some]] obtain evs where
        e: "s6 = ?s5\<lparr>trace := trace ?s5 @ evs\<rparr>"
          "set (pick touchedBS evs) \<subseteq> set ?create"
          "set (pick touchedMI evs)
             \<subseteq> (if newName \<noteq> [] \<and> newName \<noteq> oldName then {newName} else {})"
          "pick deleteMI evs = []" "pick proxied evs = []"
        unfolding old_def oldName_def by blast
      have "resp = JSON StatusInternalServerError (Message (err_Error err))" "s1 = s6"
        using rest c Some by (simp_all add: oldDB_def newName_def new_def)
      with e create show ?thesis
        by (intro exI [of _ "updatePrelude kid name @ evs"] exI [of _ "[]"])
          (simp add: pick_updatePrelude pick_updatePrelude_more)
    next
      case None
      let ?pre = "updatePrelude kid name @ concat (map (materialized kid) ?create)
                    @ monitoringEnsured kid oldDB newName"
      have s6: "s6 = s\<lparr>trace := trace s @ ?pre\<rparr>"
        using createResourcesD [OF c [unfolded None]] by (simp add: old_def)
      define pr where "pr = fault env (trace s @ ?pre) (ProxyKubernetes kid name)"
      define status where "status = proxyStatus env (trace s @ ?pre)"
      have out: "(resp, s1)
             = (case pr of
                  Some e \<Rightarrow> (Returned e, s6\<lparr>trace := trace s6 @ [Called (ProxyKubernetes kid name) pr]\<rparr>)
                | None \<Rightarrow>
                    (Proxied status,
                     s6\<lparr>trace := trace s6 @ [Called (ProxyKubernetes kid name) pr],
                        spawned := spawned s6 @
                          (if status < StatusMultipleChoices
                           then [deleteBackupStoragesOnUpdate kid oldDB new,
                                 deleteMonitoringInstanceOnUpdate kid oldDB newName]
                           else [])\<rparr>))"
        using rest c None s6
        by (auto simp: oldDB_def newName_def new_def proxyKubernetes_def ext_eq go_def pr_def
            status_def split: option.splits)
      have views: "pick proxied ?pre = []"
        "set (pick touchedBS ?pre) \<subseteq> set new - set old"
        "set (pick touchedMI ?pre)
           \<subseteq> (if newName \<noteq> [] \<and> newName \<noteq> oldName then {newName} else {})"
        "pick deleteMI ?pre = []"
        "set (pick ensuredBS ?pre) = set new - set old"
        "distinct (pick ensureBS ?pre)"
        "pick ensuredBS ?pre = pick ensureBS ?pre"
        "pick deleteBS ?pre = []"
        "pick ensuredMI ?pre = (if newName \<noteq> [] \<and> newName \<noteq> oldName then [newName] else [])"
        "pick ensureMI ?pre = pick ensuredMI ?pre"
        using create
        by (simp_all add: pick_updatePrelude pick_updatePrelude_more pick_materialized
            pick_materialized_more pick_materialized_MI pick_monitoringEnsured
            pick_monitoringEnsured_more oldName_def)
      define pre where "pre = ?pre"
      show ?thesis
      proof (cases pr)
        case (Some e)
        with out s6 have "resp = Returned e"
          "s1 = s\<lparr>trace := trace s @ pre @ [Called (ProxyKubernetes kid name) (Some e)]\<rparr>"
          by (simp_all add: pre_def)
        with views show ?thesis
          unfolding pre_def [symmetric]
          by (intro exI [of _ pre] exI [of _ "[Called (ProxyKubernetes kid name) (Some e)]"]
              exI [of _ "[]"]) simp
      next
        case None
        with out s6 have "resp = Proxied status"
          "s1 = s\<lparr>trace := trace s @ pre @ [Called (ProxyKubernetes kid name) None],
                  spawned := spawned s @
                    (if status < StatusMultipleChoices
                     then [deleteBackupStoragesOnUpdate kid oldDB new,
                           deleteMonitoringInstanceOnUpdate kid oldDB newName]
                     else [])\<rparr>"
          by (simp_all add: pre_def)
        with views show ?thesis
          unfolding pre_def [symmetric]
          by (intro exI [of _ pre] exI [of _ "[Called (ProxyKubernetes kid name) None]"]
              exI [of _ "(if status < StatusMultipleChoices
                     then [deleteBackupStoragesOnUpdate kid oldDB new,
                           deleteMonitoringInstanceOnUpdate kid oldDB newName]
                     else [])"]) simp
      qed
    qed
  qed
qed

inductive_cases emits_DoneE: "emits env Done es p'"

inductive_cases emits_CallE: "emits env (Call c k) es Done"

inductive_cases emits_FetchE: "emits env (Fetch name k) es Done"

inductive_cases emits_LogE: "emits env (Log e p) es Done"

inductive_cases emits_RangeE: "emits env (Range names k) es Done"

text \<open>
  A run of the goroutines is an interleaving of what each of them emits.
\<close>

lemma stepProg_emits:
  assumes "stepProg env p s = (p1, s1)" and "emits env p1 es p'"
  shows "\<exists>e. s1 = s\<lparr>trace := trace s @ e\<rparr> \<and> emits env p (e @ es) p'"
proof (cases p)
  case Done
  with assms show ?thesis by (intro exI [of _ "[]"]) auto
next
  case (Call c k)
  with assms show ?thesis
    by (intro exI [of _ "[Called c (fault env (trace s) c)]"])
      (auto simp: ext_eq intro: emits.intros)
next
  case (Fetch name k)
  obtain r s' where f: "storage_GetBackupStorage env name s = (r, s')"
    by (cases "storage_GetBackupStorage env name s")
  from storage_GetBackupStorageD [OF f] f Fetch assms show ?thesis
    by (intro exI [of _ "[Called (GetBackupStorage name)
                            (case r of Inl e \<Rightarrow> Some e | Inr bs \<Rightarrow> None)]"])
      (auto intro: emits.intros)
next
  case (Log e p0)
  with assms show ?thesis
    by (intro exI [of _ "[Logged e]"]) (auto simp: logError_eq intro: emits.intros)
next
  case (Range names k)
  with assms show ?thesis
    by (intro exI [of _ "[]"]) (auto intro: emits.intros)
qed

lemma run_none: "runGoroutines env schedule [] s = ([], s)"
  by (induction schedule) simp_all

lemma run_one:
  "runGoroutines env schedule [p] s = (ps', s') \<Longrightarrow>
     \<exists>es p'. ps' = [p'] \<and> s' = s\<lparr>trace := trace s @ es\<rparr> \<and> emits env p es p'"
proof (induction schedule arbitrary: p s)
  case Nil
  then show ?case
    by (intro exI [of _ "[]"] exI [of _ p]) (auto intro: emits.intros)
next
  case (Cons i schedule)
  show ?case
  proof (cases "i = 0")
    case False
    with Cons.prems have "runGoroutines env schedule [p] s = (ps', s')" by simp
    from Cons.IH [OF this] show ?thesis .
  next
    case True
    obtain p1 s1 where st: "stepProg env p s = (p1, s1)"
      by (cases "stepProg env p s")
    with Cons.prems True have "runGoroutines env schedule [p1] s1 = (ps', s')" by simp
    from Cons.IH [OF this] obtain es p' where
      r: "ps' = [p']" "s' = s1\<lparr>trace := trace s1 @ es\<rparr>" "emits env p1 es p'"
      by blast
    from stepProg_emits [OF st r(3)] obtain e where
      e: "s1 = s\<lparr>trace := trace s @ e\<rparr>" "emits env p (e @ es) p'"
      by blast
    show ?thesis
      by (intro exI [of _ "e @ es"] exI [of _ p']) (use r e in simp)
  qed
qed

lemma run_two:
  "runGoroutines env schedule [p, q] s = (ps', s') \<Longrightarrow>
     \<exists>es1 es2 evs p' q'. ps' = [p', q'] \<and> s' = s\<lparr>trace := trace s @ evs\<rparr>
        \<and> evs \<in> shuffles es1 es2 \<and> emits env p es1 p' \<and> emits env q es2 q'"
proof (induction schedule arbitrary: p q s)
  case Nil
  then show ?case
    by (intro exI [of _ "[]"] exI [of _ p] exI [of _ q]) (auto intro: emits.intros)
next
  case (Cons i schedule)
  consider "i = 0" | "i = 1" | "2 \<le> i" by linarith
  then show ?case
  proof cases
    case 3
    with Cons.prems have "runGoroutines env schedule [p, q] s = (ps', s')" by simp
    from Cons.IH [OF this] show ?thesis .
  next
    case 1
    obtain p1 s1 where st: "stepProg env p s = (p1, s1)"
      by (cases "stepProg env p s")
    with Cons.prems 1 have "runGoroutines env schedule [p1, q] s1 = (ps', s')" by simp
    from Cons.IH [OF this] obtain es1 es2 evs p' q' where
      r: "ps' = [p', q']" "s' = s1\<lparr>trace := trace s1 @ evs\<rparr>" "evs \<in> shuffles es1 es2"
        "emits env p1 es1 p'" "emits env q es2 q'"
      by blast
    from stepProg_emits [OF st r(4)] obtain e where
      e: "s1 = s\<lparr>trace := trace s @ e\<rparr>" "emits env p (e @ es1) p'"
      by blast
    have "e @ evs \<in> shuffles (e @ es1) es2"
      using r(3) by (induction e) (auto simp: Cons_in_shuffles_iff)
    then show ?thesis
      by (intro exI [of _ "e @ es1"] exI [of _ es2] exI [of _ "e @ evs"] exI [of _ p']
          exI [of _ q']) (use r e in simp)
  next
    case 2
    obtain q1 s1 where st: "stepProg env q s = (q1, s1)"
      by (cases "stepProg env q s")
    with Cons.prems 2 have "runGoroutines env schedule [p, q1] s1 = (ps', s')" by simp
    from Cons.IH [OF this] obtain es1 es2 evs p' q' where
      r: "ps' = [p', q']" "s' = s1\<lparr>trace := trace s1 @ evs\<rparr>" "evs \<in> shuffles es1 es2"
        "emits env p es1 p'" "emits env q1 es2 q'"
      by blast
    from stepProg_emits [OF st r(5)] obtain e where
      e: "s1 = s\<lparr>trace := trace s @ e\<rparr>" "emits env q (e @ es2) q'"
      by blast
    have "e @ evs \<in> shuffles es1 (e @ es2)"
      using r(3) by (induction e) (auto simp: Cons_in_shuffles_iff)
    then show ?thesis
      by (intro exI [of _ es1] exI [of _ "e @ es2"] exI [of _ "e @ evs"] exI [of _ p']
          exI [of _ q']) (use r e in simp)
  qed
qed

lemma within_zero: "within env 0 p \<Longrightarrow> p = Done"
  by (cases rule: within.cases) auto

lemma within_mono: "within env n p \<Longrightarrow> n \<le> m \<Longrightarrow> within env m p"
proof (induction arbitrary: m rule: within.induct)
  case (within_Done n)
  show ?case by (rule within.within_Done)
next
  case (within_Call n k c)
  then obtain m' where "m = Suc m'" "n \<le> m'" by (cases m) auto
  with within_Call show ?case by (auto intro: within.intros)
next
  case (within_Fetch n k name)
  then obtain m' where "m = Suc m'" "n \<le> m'" by (cases m) auto
  with within_Fetch show ?case by (auto intro: within.intros)
next
  case (within_Log n p e)
  then obtain m' where "m = Suc m'" "n \<le> m'" by (cases m) auto
  with within_Log show ?case by (auto intro: within.intros)
next
  case (within_Range n k names)
  then obtain m' where "m = Suc m'" "n \<le> m'" by (cases m) auto
  with within_Range show ?case by (auto intro: within.intros)
qed

lemma stepProg_within:
  "within env (Suc n) p \<Longrightarrow> stepProg env p s = (p1, s1) \<Longrightarrow> within env n p1"
  by (cases rule: within.cases)
    (auto intro: within.intros split: prod.splits)

lemma run_length: "runGoroutines env schedule ps s = (ps', s') \<Longrightarrow> length ps' = length ps"
  by (induction schedule arbitrary: ps s) (auto split: if_splits prod.splits)

lemma run_enough_turns:
  "runGoroutines env schedule ps s = (ps', s') \<Longrightarrow> i < length ps \<Longrightarrow> within env n (ps ! i)
     \<Longrightarrow> n \<le> count_list schedule i \<Longrightarrow> ps' ! i = Done"
proof (induction schedule arbitrary: ps s n)
  case Nil
  then show ?case by (auto dest: within_zero)
next
  case (Cons j schedule)
  show ?case
  proof (cases "j < length ps")
    case False
    with Cons.prems have r: "runGoroutines env schedule ps s = (ps', s')"
      and "j \<noteq> i" by auto
    with Cons.prems have "n \<le> count_list schedule i" by simp
    from Cons.IH [OF r Cons.prems(2,3) this] show ?thesis .
  next
    case True
    obtain p1 s1 where st: "stepProg env (ps ! j) s = (p1, s1)"
      by (cases "stepProg env (ps ! j) s")
    with Cons.prems True have r: "runGoroutines env schedule (ps[j := p1]) s1 = (ps', s')"
      by simp
    have len: "i < length (ps[j := p1])" using Cons.prems(2) by simp
    show ?thesis
    proof (cases "j = i")
      case False
      then have "within env n (ps[j := p1] ! i)" "n \<le> count_list schedule i"
        using Cons.prems by simp_all
      from Cons.IH [OF r len this] show ?thesis .
    next
      case same: True
      show ?thesis
      proof (cases n)
        case 0
        then have "ps ! i = Done" using Cons.prems(3) by (auto dest: within_zero)
        then have "p1 = Done" using st same by simp
        then have "within env 0 (ps[j := p1] ! i)" using same Cons.prems(2)
          by (simp add: within.intros)
        from Cons.IH [OF r len this] show ?thesis by simp
      next
        case (Suc m)
        then have "within env m p1"
          using stepProg_within [of env m "ps ! j" s p1 s1] Cons.prems(3) st same by simp
        then have "within env m (ps[j := p1] ! i)" using same Cons.prems(2) by simp
        moreover have "m \<le> count_list schedule i"
          using Cons.prems(4) Suc same by simp
        ultimately show ?thesis using Cons.IH [OF r len] by blast
      qed
    qed
  qed
qed

lemma finishes_one:
  "finishes env schedule [p] s post \<Longrightarrow> emits env p post Done"
  unfolding finishes_def by (auto dest!: run_one)

lemma finishes_two:
  "finishes env schedule [p, q] s post \<Longrightarrow>
     \<exists>es1 es2. post \<in> shuffles es1 es2 \<and> emits env p es1 Done \<and> emits env q es2 Done"
  unfolding finishes_def by (fastforce dest!: run_two)

lemma enough_turns_one:
  assumes "within env n p" and "n \<le> count_list schedule 0"
  shows "\<exists>post. finishes env schedule [p] s post"
proof -
  obtain ps' s' where r: "runGoroutines env schedule [p] s = (ps', s')"
    by (cases "runGoroutines env schedule [p] s")
  from run_one [OF r] obtain es p' where
    e: "ps' = [p']" "s' = s\<lparr>trace := trace s @ es\<rparr>"
    by blast
  have "ps' ! 0 = Done"
    using run_enough_turns [OF r, of 0 n] assms by simp
  with r e show ?thesis
    unfolding finishes_def by (intro exI [of _ es]) simp
qed

lemma enough_turns_two:
  assumes "within env n p" and "within env m q"
    and "n \<le> count_list schedule 0" and "m \<le> count_list schedule 1"
  shows "\<exists>post. finishes env schedule [p, q] s post"
proof -
  obtain ps' s' where r: "runGoroutines env schedule [p, q] s = (ps', s')"
    by (cases "runGoroutines env schedule [p, q] s")
  from run_two [OF r] obtain evs p' q' where
    e: "ps' = [p', q']" "s' = s\<lparr>trace := trace s @ evs\<rparr>"
    by blast
  have "ps' ! 0 = Done" "ps' ! 1 = Done"
    using run_enough_turns [OF r, of 0 n] run_enough_turns [OF r, of 1 m] assms by simp_all
  with r e show ?thesis
    unfolding finishes_def by (intro exI [of _ evs]) simp
qed

lemma within_deleteK8SBackupStoragesLoop:
  "within env (3 * length names) (deleteK8SBackupStoragesLoop k names)"
proof (induction names)
  case Nil
  show ?case by (simp add: within.intros)
next
  case (Cons n names)
  have 1: "within env (Suc (3 * length names)) (deleteK8SBackupStoragesLoop k names)"
    and 2: "within env (Suc (Suc (3 * length names))) (deleteK8SBackupStoragesLoop k names)"
    using Cons.IH by (auto elim: within_mono)
  have "within env (Suc (Suc (Suc (3 * length names))))
          (deleteK8SBackupStoragesLoop k (n # names))"
    unfolding deleteK8SBackupStoragesLoop.simps
    by (intro within.intros) (auto intro!: within.intros 1 2 Cons.IH split: sum.splits option.splits)
  then show ?case by (simp add: numeral_3_eq_3)
qed

lemma length_rangeOrder:
  assumes "rangeVisitsEachKeyOnce env" and "distinct names"
  shows "length (rangeOrder env t names) = length names"
proof -
  have "distinct (rangeOrder env t names)" "set (rangeOrder env t names) = set names"
    using assms by (simp_all add: rangeVisitsEachKeyOnce_def)
  then show ?thesis
    using assms(2) by (metis distinct_card)
qed

lemma within_deleteK8SBackupStorages:
  assumes "rangeVisitsEachKeyOnce env" and "distinct names"
  shows "within env (3 * length names + 1) (deleteK8SBackupStorages k names)"
proof -
  have "\<And>t. within env (3 * length names) (deleteK8SBackupStoragesLoop k (rangeOrder env t names))"
    using within_deleteK8SBackupStoragesLoop [of env "rangeOrder env _ names" k]
      length_rangeOrder [OF assms] by simp
  then show ?thesis
    unfolding deleteK8SBackupStorages_def by (auto intro: within.intros)
qed

lemma within_deleteK8SMonitoringConfig: "within env 3 (deleteK8SMonitoringConfig k name)"
proof -
  have "within env (Suc (Suc (Suc 0))) (deleteK8SMonitoringConfig k name)"
    unfolding deleteK8SMonitoringConfig_def
    by (intro within.intros) (auto intro!: within.intros split: option.splits)
  then show ?thesis by (simp add: numeral_3_eq_3)
qed

lemma within_deleteBackupStoragesOnUpdateLoop:
  "within env (3 * length names) (deleteBackupStoragesOnUpdateLoop k names)"
proof (induction names)
  case Nil
  show ?case by (simp add: within.intros)
next
  case (Cons n names)
  have 1: "within env (Suc (3 * length names)) (deleteBackupStoragesOnUpdateLoop k names)"
    and 2: "within env (Suc (Suc (3 * length names))) (deleteBackupStoragesOnUpdateLoop k names)"
    using Cons.IH by (auto elim: within_mono)
  have "within env (Suc (Suc (Suc (3 * length names))))
          (deleteBackupStoragesOnUpdateLoop k (n # names))"
    unfolding deleteBackupStoragesOnUpdateLoop.simps deleteK8SBackupStorage_def
    by (intro within.intros) (auto intro!: within.intros 1 2 Cons.IH split: sum.splits option.splits)
  then show ?case by (simp add: numeral_3_eq_3)
qed

lemma within_deleteBackupStoragesOnUpdate:
  assumes "rangeVisitsEachKeyOnce env"
  shows "within env
           (3 * length (uniqueKeys newNames (withBackupStorageNamesFromDBCluster [] oldDB)) + 1)
           (deleteBackupStoragesOnUpdate k oldDB newNames)"
proof -
  let ?names = "uniqueKeys newNames (withBackupStorageNamesFromDBCluster [] oldDB)"
  have "\<And>t. within env (3 * length ?names)
               (deleteBackupStoragesOnUpdateLoop k (rangeOrder env t ?names))"
    using within_deleteBackupStoragesOnUpdateLoop [of env "rangeOrder env _ ?names" k]
      length_rangeOrder [OF assms distinct_uniqueKeys] by simp
  then show ?thesis
    unfolding deleteBackupStoragesOnUpdate_def by (auto intro: within.intros)
qed

lemma within_deleteMonitoringInstanceOnUpdate:
  "within env 3 (deleteMonitoringInstanceOnUpdate k oldDB newName)"
proof -
  have "within env (Suc (Suc (Suc 0))) (deleteMonitoringInstanceOnUpdate k oldDB newName)"
    unfolding deleteMonitoringInstanceOnUpdate_def
    by (auto intro!: within.intros split: option.splits)
  then show ?thesis by (simp add: numeral_3_eq_3)
qed

text \<open>The events of each function that runs as a goroutine.\<close>

lemma deleteK8SBackupStoragesLoop_cleanup:
  "emits env (deleteK8SBackupStoragesLoop k names) es Done \<Longrightarrow>
     storageCleanup names es \<and> failuresLogged es"
proof (induction names arbitrary: es)
  case Nil
  then show ?case by (auto elim: emits_DoneE simp: storageCleanup_def)
next
  case (Cons n names)
  from Cons.prems show ?case
    by (auto elim!: emits_FetchE emits_CallE emits_LogE dest!: Cons.IH
        simp: storageCleanup_def failuresLogged_def split: sum.splits option.splits if_splits)
      blast+
qed

lemma deleteK8SBackupStorages_cleanup:
  "emits env (deleteK8SBackupStorages k names) es Done \<Longrightarrow>
     \<exists>t. storageCleanup (rangeOrder env t names) es \<and> failuresLogged es"
  unfolding deleteK8SBackupStorages_def
  by (auto elim!: emits_RangeE dest!: deleteK8SBackupStoragesLoop_cleanup)

lemma deleteK8SMonitoringConfig_cleanup:
  "emits env (deleteK8SMonitoringConfig k name) es Done \<Longrightarrow>
     monitoringCleanup [name] es \<and> failuresLogged es"
  unfolding deleteK8SMonitoringConfig_def
  by (auto elim!: emits_CallE emits_LogE emits_DoneE
      simp: monitoringCleanup_def failuresLogged_def split: option.splits if_splits)

lemma deleteBackupStoragesOnUpdateLoop_cleanup:
  "emits env (deleteBackupStoragesOnUpdateLoop k names) es Done \<Longrightarrow> storageCleanup names es"
proof (induction names arbitrary: es)
  case Nil
  then show ?case by (auto elim: emits_DoneE simp: storageCleanup_def)
next
  case (Cons n names)
  from Cons.prems show ?case
    by (auto elim!: emits_FetchE emits_CallE emits_LogE dest!: Cons.IH
        simp: storageCleanup_def deleteK8SBackupStorage_def
        split: sum.splits option.splits if_splits)
      blast+
qed

lemma deleteBackupStoragesOnUpdate_cleanup:
  "emits env (deleteBackupStoragesOnUpdate k oldDB newNames) es Done \<Longrightarrow>
     \<exists>t. storageCleanup
            (rangeOrder env t (uniqueKeys newNames (withBackupStorageNamesFromDBCluster [] oldDB)))
            es"
  unfolding deleteBackupStoragesOnUpdate_def
  by (auto elim!: emits_RangeE dest!: deleteBackupStoragesOnUpdateLoop_cleanup)

lemma deleteMonitoringInstanceOnUpdate_cleanup:
  "emits env (deleteMonitoringInstanceOnUpdate k oldDB newName) es Done \<Longrightarrow>
     monitoringCleanup
       (if oldMonitoringName oldDB \<noteq> [] \<and> newName \<noteq> oldMonitoringName oldDB
        then [oldMonitoringName oldDB] else []) es
   \<and> failuresLogged es"
  unfolding deleteMonitoringInstanceOnUpdate_def
  by (auto elim!: emits_CallE emits_LogE emits_DoneE
      simp: monitoringCleanup_def failuresLogged_def split: option.splits if_splits)

lemma monitoringCleanup_Nil [simp]: "monitoringCleanup [] []"
  by (simp add: monitoringCleanup_def)

lemma update_goroutines_finish:
  assumes "rangeVisitsEachKeyOnce env"
    and "3 * length (uniqueKeys new (withBackupStorageNamesFromDBCluster [] oldDB)) + 1
           \<le> count_list schedule 0"
    and "3 \<le> count_list schedule 1"
  shows "\<exists>post. finishes env schedule
           [deleteBackupStoragesOnUpdate k oldDB new,
            deleteMonitoringInstanceOnUpdate k oldDB newName] s post"
  using enough_turns_two [OF within_deleteBackupStoragesOnUpdate [OF assms(1)]
      within_deleteMonitoringInstanceOnUpdate assms(2,3)]
  by blast

lemma update_goroutines_events:
  assumes range: "rangeVisitsEachKeyOnce env"
    and fin: "finishes env schedule
           [deleteBackupStoragesOnUpdate k oldDB new,
            deleteMonitoringInstanceOnUpdate k oldDB newName] s post"
  shows "\<exists>es1 es2 order.
           post \<in> shuffles es1 es2
         \<and> storageCleanup order es1
         \<and> set order = set (withBackupStorageNamesFromDBCluster [] oldDB) - set new
         \<and> distinct order
         \<and> monitoringCleanup
              (if oldMonitoringName oldDB \<noteq> [] \<and> newName \<noteq> oldMonitoringName oldDB
               then [oldMonitoringName oldDB] else []) es2
         \<and> failuresLogged es2"
proof -
  from finishes_two [OF fin] obtain es1 es2 where
    e: "post \<in> shuffles es1 es2"
      "emits env (deleteBackupStoragesOnUpdate k oldDB new) es1 Done"
      "emits env (deleteMonitoringInstanceOnUpdate k oldDB newName) es2 Done"
    by blast
  from deleteBackupStoragesOnUpdate_cleanup [OF e(2)] obtain t where
    c1: "storageCleanup
            (rangeOrder env t (uniqueKeys new (withBackupStorageNamesFromDBCluster [] oldDB))) es1"
    by blast
  let ?order = "rangeOrder env t (uniqueKeys new (withBackupStorageNamesFromDBCluster [] oldDB))"
  have o: "set ?order = set (withBackupStorageNamesFromDBCluster [] oldDB) - set new"
    "distinct ?order"
    using range by (simp_all add: rangeVisitsEachKeyOnce_def set_uniqueKeys distinct_uniqueKeys)
  from deleteMonitoringInstanceOnUpdate_cleanup [OF e(3)] e(1) c1 o show ?thesis
    by blast
qed

lemma DeleteDatabaseCluster_outcomes:
  assumes run: "DeleteDatabaseCluster env kid name s = (resp, s1)"
  defines "db \<equiv> deletedCluster env s kid name"
  shows "\<exists>pre rest started.
      s1 = s\<lparr>trace := trace s @ pre @ rest, spawned := spawned s @ started\<rparr>
    \<and> pick proxied pre = [] \<and> pick touchedBS pre = [] \<and> pick touchedMI pre = []
    \<and> (rest = [] \<and> started = [] \<and> (\<forall>status. resp \<noteq> Proxied status)
       \<or> (\<exists>r. rest = [Called (ProxyKubernetes kid name) r]
            \<and> (case r of
                  Some e \<Rightarrow> resp = Returned e \<and> started = []
                | None \<Rightarrow>
                    (\<exists>status. resp = Proxied status
                       \<and> started = (if status < StatusMultipleChoices
                                    then deleteK8SBackupStorages kid
                                           (BackupStorageNamesFromDBCluster env db)
                                         # map (deleteK8SMonitoringConfig kid)
                                             (storedMonitoringNames db)
                                    else [])))))"
proof -
  let ?t1 = "trace s @ [Called (GetKubernetesCluster kid) None]"
  let ?t2 = "?t1 @ [Called (NewFromSecretsStorage kid) None]"
  define ok where "ok \<longleftrightarrow>
       fault env (trace s) (GetKubernetesCluster kid) = None
     \<and> fault env ?t1 (NewFromSecretsStorage kid) = None
     \<and> fault env ?t2 (GetDatabaseCluster kid name) = None"
  show ?thesis
  proof (cases ok)
    case False
    have "s1 = s\<lparr>trace := trace s @ drop (length (trace s)) (trace s1)\<rparr>
          \<and> (\<forall>status. resp \<noteq> Proxied status)
          \<and> pick proxied (drop (length (trace s)) (trace s1)) = []
          \<and> pick touchedBS (drop (length (trace s)) (trace s1)) = []
          \<and> pick touchedMI (drop (length (trace s)) (trace s1)) = []"
      using run False unfolding ok_def
      by (auto simp: DeleteDatabaseCluster_def initKubeClient_def kube_GetDatabaseCluster_def
          ext_eq logError_eq split: option.splits)
    then obtain evs where
      "s1 = s\<lparr>trace := trace s @ evs\<rparr>" "\<forall>status. resp \<noteq> Proxied status"
      "pick proxied evs = []" "pick touchedBS evs = []" "pick touchedMI evs = []"
      by blast
    then show ?thesis
      by (intro exI [of _ evs] exI [of _ "[]"]) simp
  next
    case True
    define pr where "pr = fault env (trace s @ deletePrelude kid name) (ProxyKubernetes kid name)"
    define status where "status = proxyStatus env (trace s @ deletePrelude kid name)"
    have out: "(resp, s1)
             = (case pr of
                  Some e \<Rightarrow>
                    (Returned e,
                     s\<lparr>trace := trace s @ deletePrelude kid name
                                  @ [Called (ProxyKubernetes kid name) pr]\<rparr>)
                | None \<Rightarrow>
                    (Proxied status,
                     s\<lparr>trace := trace s @ deletePrelude kid name
                                  @ [Called (ProxyKubernetes kid name) pr],
                       spawned := spawned s @
                          (if status < StatusMultipleChoices
                           then deleteK8SBackupStorages kid
                                  (BackupStorageNamesFromDBCluster env db)
                                # map (deleteK8SMonitoringConfig kid) (storedMonitoringNames db)
                           else [])\<rparr>))"
      using run True unfolding ok_def pr_def status_def db_def deletedCluster_def
        deletePrelude_def storedMonitoringNames_def storedMonitoring_def
      by (auto simp: DeleteDatabaseCluster_def initKubeClient_def kube_GetDatabaseCluster_def
          proxyKubernetes_def ext_eq go_def Let_def split: option.splits)
    define pre where "pre = deletePrelude kid name"
    have views: "pick proxied pre = []" "pick touchedBS pre = []" "pick touchedMI pre = []"
      by (simp_all add: pre_def pick_deletePrelude_more)
    show ?thesis
    proof (cases pr)
      case (Some e)
      with out have "resp = Returned e"
        "s1 = s\<lparr>trace := trace s @ pre @ [Called (ProxyKubernetes kid name) (Some e)]\<rparr>"
        by (simp_all add: pre_def)
      with views show ?thesis
        by (intro exI [of _ pre] exI [of _ "[Called (ProxyKubernetes kid name) (Some e)]"]
            exI [of _ "[]"]) simp
    next
      case None
      with out have "resp = Proxied status"
        "s1 = s\<lparr>trace := trace s @ pre @ [Called (ProxyKubernetes kid name) None],
                spawned := spawned s @
                  (if status < StatusMultipleChoices
                   then deleteK8SBackupStorages kid (BackupStorageNamesFromDBCluster env db)
                        # map (deleteK8SMonitoringConfig kid) (storedMonitoringNames db)
                   else [])\<rparr>"
        by (simp_all add: pre_def)
      with views show ?thesis
        by (intro exI [of _ pre] exI [of _ "[Called (ProxyKubernetes kid name) None]"]
            exI [of _ "(if status < StatusMultipleChoices
                   then deleteK8SBackupStorages kid (BackupStorageNamesFromDBCluster env db)
                        # map (deleteK8SMonitoringConfig kid) (storedMonitoringNames db)
                   else [])"]) simp
    qed
  qed
qed

lemma delete_goroutines_finish:
  assumes "rangeVisitsEachKeyOnce env" and "distinct names"
    and "3 * length names + 1 \<le> count_list schedule 0"
    and "3 \<le> count_list schedule 1"
  shows "\<exists>post. finishes env schedule
           (deleteK8SBackupStorages k names # map (deleteK8SMonitoringConfig k)
              (storedMonitoringNames db)) s post"
  using storedMonitoringNames_cases [of db]
proof (elim disjE exE)
  assume "storedMonitoringNames db = []"
  with enough_turns_one [OF within_deleteK8SBackupStorages [OF assms(1,2)] assms(3)]
  show ?thesis by simp
next
  fix m
  assume "storedMonitoringNames db = [m]"
  with enough_turns_two [OF within_deleteK8SBackupStorages [OF assms(1,2)]
      within_deleteK8SMonitoringConfig assms(3,4)]
  show ?thesis by simp
qed

lemma delete_goroutines_events:
  assumes range: "rangeVisitsEachKeyOnce env" and keys: "distinct names"
    and fin: "finishes env schedule
           (deleteK8SBackupStorages k names # map (deleteK8SMonitoringConfig k)
              (storedMonitoringNames db)) s post"
  shows "\<exists>es1 es2 order.
           post \<in> shuffles es1 es2
         \<and> storageCleanup order es1 \<and> set order = set names \<and> distinct order
         \<and> failuresLogged es1
         \<and> monitoringCleanup (storedMonitoringNames db) es2
         \<and> failuresLogged es2"
  using storedMonitoringNames_cases [of db]
proof (elim disjE exE)
  assume none: "storedMonitoringNames db = []"
  with fin have "emits env (deleteK8SBackupStorages k names) post Done"
    by (auto dest: finishes_one)
  from deleteK8SBackupStorages_cleanup [OF this] obtain t where
    c: "storageCleanup (rangeOrder env t names) post" "failuresLogged post"
    by blast
  have o: "set (rangeOrder env t names) = set names" "distinct (rangeOrder env t names)"
    using range keys by (simp_all add: rangeVisitsEachKeyOnce_def)
  show ?thesis
    by (intro exI [of _ post] exI [of _ "[]"] exI [of _ "rangeOrder env t names"])
      (use c o none in simp)
next
  fix m
  assume one: "storedMonitoringNames db = [m]"
  with fin have "finishes env schedule
      [deleteK8SBackupStorages k names, deleteK8SMonitoringConfig k m] s post"
    by simp
  from finishes_two [OF this] obtain es1 es2 where
    e: "post \<in> shuffles es1 es2" "emits env (deleteK8SBackupStorages k names) es1 Done"
      "emits env (deleteK8SMonitoringConfig k m) es2 Done"
    by blast
  from deleteK8SBackupStorages_cleanup [OF e(2)] obtain t where
    c: "storageCleanup (rangeOrder env t names) es1" "failuresLogged es1"
    by blast
  have o: "set (rangeOrder env t names) = set names" "distinct (rangeOrder env t names)"
    using range keys by (simp_all add: rangeVisitsEachKeyOnce_def)
  from deleteK8SMonitoringConfig_cleanup [OF e(3)] e(1) c o one show ?thesis
    by auto
qed

section \<open>Updating and deleting a database cluster\<close>

text \<open>
  Claim C2, as amended. Take any run of \<^verbatim>\<open>UpdateDatabaseCluster\<close>, with \<open>old\<close> the
  non-empty storage names the stored cluster references and \<open>new\<close> the storage names the
  request references. Its events are \<open>pre\<close>, in which nothing is proxied, then \<open>rest\<close>.
  Whatever the outcome, \<open>pre\<close> names no backup storage outside \<open>new - old\<close>. Either the
  update stopped before the proxy (\<open>rest\<close> is empty, and the answer is not the proxy's),
  or \<open>rest\<close> is the proxied call, and then before it exactly the names of \<open>new - old\<close>
  were materialized, each once and each with success, and no config was deleted.
  Goroutines are started only when the proxy answered with a status below 300; the handler
  returns with none of their calls made. In that case every schedule that gives the two
  goroutines enough turns runs them to their end, and whenever they have run to their end,
  under any schedule, their events \<open>post\<close> are an interleaving of the events \<open>es1\<close> of
  the first and \<open>es2\<close> of the second, where \<open>es1\<close> is a cleanup of the names of
  \<open>old - new\<close>, each once: the record of each is fetched, and \<^verbatim>\<open>DeleteConfig\<close> is
  called on exactly the records that could be fetched (a name whose record cannot be
  fetched is skipped); \<open>es2\<close> names no backup storage. So a name in both \<open>old\<close> and
  \<open>new\<close> is touched by neither phase.
\<close>

theorem C2_update_creates_new_and_deletes_old:
  assumes range: "rangeVisitsEachKeyOnce env"
    and run: "UpdateDatabaseCluster env kubernetesID name dbc s = (resp, s1)"
  defines "old \<equiv> storedStorages (storedCluster env s kubernetesID name) - {[]}"
  defines "new \<equiv> requestedStorages dbc"
  shows "\<exists>pre rest started.
           trace s1 = trace s @ pre @ rest \<and> spawned s1 = spawned s @ started
         \<and> pick proxied pre = []
         \<and> set (pick touchedBS pre) \<subseteq> new - old
         \<and> ((rest = [] \<and> (\<forall>status. resp \<noteq> Proxied status))
            \<or> ((\<exists>r. rest = [Called (ProxyKubernetes kubernetesID name) r])
                \<and> set (pick ensuredBS pre) = new - old
                \<and> distinct (pick ensureBS pre)
                \<and> pick ensuredBS pre = pick ensureBS pre
                \<and> pick deleteBS pre = []))
         \<and> (\<not> (\<exists>status. resp = Proxied status \<and> status < StatusMultipleChoices)
              \<longrightarrow> started = [])
         \<and> ((\<exists>status. resp = Proxied status \<and> status < StatusMultipleChoices) \<longrightarrow>
               rest = [Called (ProxyKubernetes kubernetesID name) None]
             \<and> (\<forall>schedule.
                   3 * card (old - new) + 1 \<le> count_list schedule 0
                 \<and> 3 \<le> count_list schedule 1
                 \<longrightarrow> (\<exists>post. finishes env schedule started s1 post))
             \<and> (\<forall>schedule post. finishes env schedule started s1 post \<longrightarrow>
                   (\<exists>es1 es2 order.
                       post \<in> shuffles es1 es2
                     \<and> storageCleanup order es1
                     \<and> set order = old - new \<and> distinct order
                     \<and> pick touchedBS es2 = [])))"
proof -
  let ?oldDB = "storedCluster env s kubernetesID name"
  let ?old = "withBackupStorageNamesFromDBCluster [] ?oldDB"
  let ?new = "backupStorageNamesFrom dbc"
  let ?newName = "monitoringNameFrom dbc"
  let ?t1 = "deleteBackupStoragesOnUpdate kubernetesID ?oldDB ?new"
  let ?t2 = "deleteMonitoringInstanceOnUpdate kubernetesID ?oldDB ?newName"
  have sets: "set ?old = old" "set ?new = new"
    by (simp_all add: old_def new_def withBackupStorageNames_stored
        backupStorageNamesFrom_requested)
  from UpdateDatabaseCluster_outcomes [OF range run] obtain pre rest started where
    s1: "s1 = s\<lparr>trace := trace s @ pre @ rest, spawned := spawned s @ started\<rparr>" and
    p: "pick proxied pre = []" "set (pick touchedBS pre) \<subseteq> new - old" and
    o: "rest = [] \<and> started = [] \<and> (\<forall>status. resp \<noteq> Proxied status)
       \<or> (\<exists>r. rest = [Called (ProxyKubernetes kubernetesID name) r]
            \<and> (case r of
                  Some e \<Rightarrow> resp = Returned e \<and> started = []
                | None \<Rightarrow>
                    (\<exists>status. resp = Proxied status
                       \<and> started = (if status < StatusMultipleChoices then [?t1, ?t2] else [])))
            \<and> set (pick ensuredBS pre) = new - old
            \<and> distinct (pick ensureBS pre)
            \<and> pick ensuredBS pre = pick ensureBS pre
            \<and> pick deleteBS pre = []
            \<and> pick ensuredMI pre
                 = (if ?newName \<noteq> [] \<and> ?newName \<noteq> oldMonitoringName ?oldDB
                    then [?newName] else [])
            \<and> pick ensureMI pre = pick ensuredMI pre)"
    unfolding sets by (elim exE conjE)
  have tr: "trace s1 = trace s @ pre @ rest" "spawned s1 = spawned s @ started"
    using s1 by simp_all
  have phase: "(rest = [] \<and> (\<forall>status. resp \<noteq> Proxied status))
            \<or> ((\<exists>r. rest = [Called (ProxyKubernetes kubernetesID name) r])
                \<and> set (pick ensuredBS pre) = new - old
                \<and> distinct (pick ensureBS pre)
                \<and> pick ensuredBS pre = pick ensureBS pre
                \<and> pick deleteBS pre = [])"
    using o by blast
  have fail: "\<not> (\<exists>status. resp = Proxied status \<and> status < StatusMultipleChoices)
              \<longrightarrow> started = []"
    using o by (auto split: option.splits if_splits)
  have ok: "(\<exists>status. resp = Proxied status \<and> status < StatusMultipleChoices) \<longrightarrow>
               rest = [Called (ProxyKubernetes kubernetesID name) None]
             \<and> (\<forall>schedule.
                   3 * card (old - new) + 1 \<le> count_list schedule 0
                 \<and> 3 \<le> count_list schedule 1
                 \<longrightarrow> (\<exists>post. finishes env schedule started s1 post))
             \<and> (\<forall>schedule post. finishes env schedule started s1 post \<longrightarrow>
                   (\<exists>es1 es2 order.
                       post \<in> shuffles es1 es2
                     \<and> storageCleanup order es1
                     \<and> set order = old - new \<and> distinct order
                     \<and> pick touchedBS es2 = []))"
  proof
    assume "\<exists>status. resp = Proxied status \<and> status < StatusMultipleChoices"
    with o have r: "rest = [Called (ProxyKubernetes kubernetesID name) None]"
      and st: "started = [?t1, ?t2]"
      by (auto split: option.splits if_splits)
    have turns: "\<forall>schedule.
                   3 * card (old - new) + 1 \<le> count_list schedule 0
                 \<and> 3 \<le> count_list schedule 1
                 \<longrightarrow> (\<exists>post. finishes env schedule started s1 post)"
      using update_goroutines_finish [OF range, of ?new ?oldDB _ kubernetesID ?newName s1]
      unfolding st card_uniqueKeys [symmetric] sets by blast
    have events: "\<forall>schedule post. finishes env schedule started s1 post \<longrightarrow>
                   (\<exists>es1 es2 order.
                       post \<in> shuffles es1 es2
                     \<and> storageCleanup order es1
                     \<and> set order = old - new \<and> distinct order
                     \<and> pick touchedBS es2 = [])"
    proof (intro allI impI)
      fix schedule post
      assume "finishes env schedule started s1 post"
      from update_goroutines_events [OF range this [unfolded st]]
      show "\<exists>es1 es2 order.
              post \<in> shuffles es1 es2
            \<and> storageCleanup order es1
            \<and> set order = old - new \<and> distinct order
            \<and> pick touchedBS es2 = []"
        unfolding sets monitoringCleanup_def by blast
    qed
    from r turns events show "rest = [Called (ProxyKubernetes kubernetesID name) None]
             \<and> (\<forall>schedule.
                   3 * card (old - new) + 1 \<le> count_list schedule 0
                 \<and> 3 \<le> count_list schedule 1
                 \<longrightarrow> (\<exists>post. finishes env schedule started s1 post))
             \<and> (\<forall>schedule post. finishes env schedule started s1 post \<longrightarrow>
                   (\<exists>es1 es2 order.
                       post \<in> shuffles es1 es2
                     \<and> storageCleanup order es1
                     \<and> set order = old - new \<and> distinct order
                     \<and> pick touchedBS es2 = []))"
      by (intro conjI)
  qed
  show ?thesis
    apply (rule exI [of _ pre], rule exI [of _ rest], rule exI [of _ started])
    apply (intro conjI)
    apply (rule tr p phase fail ok)+
    done
qed

text \<open>
  Claim C8, as amended. Take any run of \<^verbatim>\<open>UpdateDatabaseCluster\<close>, with \<open>newName\<close> the
  monitoring name of the request and \<open>oldName\<close> the one of the stored cluster (empty
  when there is none). Whatever the outcome, before the proxy no monitoring instance is
  named but \<open>newName\<close>, and that only when it is not empty and differs from \<open>oldName\<close>;
  and no monitoring config is deleted. When the update reaches the proxy, the monitoring
  config of \<open>newName\<close> has been materialized, with success, if \<open>newName\<close> is not empty
  and differs from \<open>oldName\<close>, and no monitoring config has been materialized otherwise.
  Goroutines are started only when the proxy answered with a status below 300. Whenever
  they have run to their end, under any schedule, their events are an interleaving of
  \<open>es1\<close>, which names no monitoring instance, and \<open>es2\<close>, the cleanup of \<open>oldName\<close> if
  it is not empty and differs from \<open>newName\<close>, and of nothing otherwise: the record is
  fetched, \<^verbatim>\<open>DeleteConfig\<close> is called if the record could be fetched (and not
  otherwise), and the log holds exactly the failed fetch or the failure of
  \<^verbatim>\<open>DeleteConfig\<close> other than \<^verbatim>\<open>ErrConfigInUse\<close>.
\<close>

theorem C8_update_monitoring_config:
  assumes range: "rangeVisitsEachKeyOnce env"
    and run: "UpdateDatabaseCluster env kubernetesID name dbc s = (resp, s1)"
  defines "oldName \<equiv> storedMonitoring (storedCluster env s kubernetesID name)"
  defines "newName \<equiv> requestedMonitoring dbc"
  defines "old \<equiv> storedStorages (storedCluster env s kubernetesID name) - {[]}"
  defines "new \<equiv> requestedStorages dbc"
  shows "\<exists>pre rest started.
           trace s1 = trace s @ pre @ rest \<and> spawned s1 = spawned s @ started
         \<and> pick proxied pre = []
         \<and> set (pick touchedMI pre)
              \<subseteq> (if newName \<noteq> [] \<and> newName \<noteq> oldName then {newName} else {})
         \<and> pick deleteMI pre = []
         \<and> ((rest = [] \<and> (\<forall>status. resp \<noteq> Proxied status))
            \<or> ((\<exists>r. rest = [Called (ProxyKubernetes kubernetesID name) r])
                \<and> pick ensuredMI pre
                     = (if newName \<noteq> [] \<and> newName \<noteq> oldName then [newName] else [])
                \<and> pick ensureMI pre = pick ensuredMI pre))
         \<and> (\<not> (\<exists>status. resp = Proxied status \<and> status < StatusMultipleChoices)
              \<longrightarrow> started = [])
         \<and> ((\<exists>status. resp = Proxied status \<and> status < StatusMultipleChoices) \<longrightarrow>
               rest = [Called (ProxyKubernetes kubernetesID name) None]
             \<and> (\<forall>schedule.
                   3 * card (old - new) + 1 \<le> count_list schedule 0
                 \<and> 3 \<le> count_list schedule 1
                 \<longrightarrow> (\<exists>post. finishes env schedule started s1 post))
             \<and> (\<forall>schedule post. finishes env schedule started s1 post \<longrightarrow>
                   (\<exists>es1 es2.
                       post \<in> shuffles es1 es2
                     \<and> pick touchedMI es1 = []
                     \<and> monitoringCleanup
                          (if oldName \<noteq> [] \<and> newName \<noteq> oldName then [oldName] else []) es2
                     \<and> failuresLogged es2)))"
proof -
  let ?oldDB = "storedCluster env s kubernetesID name"
  let ?old = "withBackupStorageNamesFromDBCluster [] ?oldDB"
  let ?new = "backupStorageNamesFrom dbc"
  let ?t1 = "deleteBackupStoragesOnUpdate kubernetesID ?oldDB ?new"
  let ?t2 = "deleteMonitoringInstanceOnUpdate kubernetesID ?oldDB newName"
  have sets: "set ?old = old" "set ?new = new"
    by (simp_all add: old_def new_def withBackupStorageNames_stored
        backupStorageNamesFrom_requested)
  have names: "monitoringNameFrom dbc = newName" "oldMonitoringName ?oldDB = oldName"
    by (simp_all add: newName_def oldName_def monitoringNameFrom_requested
        oldMonitoringName_stored)
  from UpdateDatabaseCluster_outcomes [OF range run] obtain pre rest started where
    s1: "s1 = s\<lparr>trace := trace s @ pre @ rest, spawned := spawned s @ started\<rparr>" and
    p: "pick proxied pre = []"
      "set (pick touchedMI pre)
         \<subseteq> (if newName \<noteq> [] \<and> newName \<noteq> oldName then {newName} else {})"
      "pick deleteMI pre = []" and
    o: "rest = [] \<and> started = [] \<and> (\<forall>status. resp \<noteq> Proxied status)
       \<or> (\<exists>r. rest = [Called (ProxyKubernetes kubernetesID name) r]
            \<and> (case r of
                  Some e \<Rightarrow> resp = Returned e \<and> started = []
                | None \<Rightarrow>
                    (\<exists>status. resp = Proxied status
                       \<and> started = (if status < StatusMultipleChoices then [?t1, ?t2] else [])))
            \<and> set (pick ensuredBS pre) = new - old
            \<and> distinct (pick ensureBS pre)
            \<and> pick ensuredBS pre = pick ensureBS pre
            \<and> pick deleteBS pre = []
            \<and> pick ensuredMI pre
                 = (if newName \<noteq> [] \<and> newName \<noteq> oldName then [newName] else [])
            \<and> pick ensureMI pre = pick ensuredMI pre)"
    unfolding sets names by (elim exE conjE)
  have tr: "trace s1 = trace s @ pre @ rest" "spawned s1 = spawned s @ started"
    using s1 by simp_all
  have phase: "(rest = [] \<and> (\<forall>status. resp \<noteq> Proxied status))
            \<or> ((\<exists>r. rest = [Called (ProxyKubernetes kubernetesID name) r])
                \<and> pick ensuredMI pre
                     = (if newName \<noteq> [] \<and> newName \<noteq> oldName then [newName] else [])
                \<and> pick ensureMI pre = pick ensuredMI pre)"
    using o by blast
  have fail: "\<not> (\<exists>status. resp = Proxied status \<and> status < StatusMultipleChoices)
              \<longrightarrow> started = []"
    using o by (auto split: option.splits if_splits)
  have ok: "(\<exists>status. resp = Proxied status \<and> status < StatusMultipleChoices) \<longrightarrow>
               rest = [Called (ProxyKubernetes kubernetesID name) None]
             \<and> (\<forall>schedule.
                   3 * card (old - new) + 1 \<le> count_list schedule 0
                 \<and> 3 \<le> count_list schedule 1
                 \<longrightarrow> (\<exists>post. finishes env schedule started s1 post))
             \<and> (\<forall>schedule post. finishes env schedule started s1 post \<longrightarrow>
                   (\<exists>es1 es2.
                       post \<in> shuffles es1 es2
                     \<and> pick touchedMI es1 = []
                     \<and> monitoringCleanup
                          (if oldName \<noteq> [] \<and> newName \<noteq> oldName then [oldName] else []) es2
                     \<and> failuresLogged es2))"
  proof
    assume "\<exists>status. resp = Proxied status \<and> status < StatusMultipleChoices"
    with o have r: "rest = [Called (ProxyKubernetes kubernetesID name) None]"
      and st: "started = [?t1, ?t2]"
      by (auto split: option.splits if_splits)
    have turns: "\<forall>schedule.
                   3 * card (old - new) + 1 \<le> count_list schedule 0
                 \<and> 3 \<le> count_list schedule 1
                 \<longrightarrow> (\<exists>post. finishes env schedule started s1 post)"
      using update_goroutines_finish [OF range, of ?new ?oldDB _ kubernetesID newName s1]
      unfolding st card_uniqueKeys [symmetric] sets by blast
    have events: "\<forall>schedule post. finishes env schedule started s1 post \<longrightarrow>
                   (\<exists>es1 es2.
                       post \<in> shuffles es1 es2
                     \<and> pick touchedMI es1 = []
                     \<and> monitoringCleanup
                          (if oldName \<noteq> [] \<and> newName \<noteq> oldName then [oldName] else []) es2
                     \<and> failuresLogged es2)"
    proof (intro allI impI)
      fix schedule post
      assume "finishes env schedule started s1 post"
      from update_goroutines_events [OF range this [unfolded st]]
      show "\<exists>es1 es2.
              post \<in> shuffles es1 es2
            \<and> pick touchedMI es1 = []
            \<and> monitoringCleanup
                 (if oldName \<noteq> [] \<and> newName \<noteq> oldName then [oldName] else []) es2
            \<and> failuresLogged es2"
        unfolding names storageCleanup_def by blast
    qed
    from r turns events show "rest = [Called (ProxyKubernetes kubernetesID name) None]
             \<and> (\<forall>schedule.
                   3 * card (old - new) + 1 \<le> count_list schedule 0
                 \<and> 3 \<le> count_list schedule 1
                 \<longrightarrow> (\<exists>post. finishes env schedule started s1 post))
             \<and> (\<forall>schedule post. finishes env schedule started s1 post \<longrightarrow>
                   (\<exists>es1 es2.
                       post \<in> shuffles es1 es2
                     \<and> pick touchedMI es1 = []
                     \<and> monitoringCleanup
                          (if oldName \<noteq> [] \<and> newName \<noteq> oldName then [oldName] else []) es2
                     \<and> failuresLogged es2))"
      by (intro conjI)
  qed
  show ?thesis
    apply (rule exI [of _ pre], rule exI [of _ rest], rule exI [of _ started])
    apply (intro conjI)
    apply (rule tr p phase fail ok)+
    done
qed

text \<open>
  Claim C4, as amended. Take any run of \<^verbatim>\<open>DeleteDatabaseCluster\<close>, with \<open>db\<close> the
  stored cluster and \<open>names\<close> its backup-storage names
  (\<^verbatim>\<open>kubernetes.BackupStorageNamesFromDBCluster\<close>, a map: each name once). The handler
  itself touches no config, and its last event, if it got that far, is the proxied call.
  Unless the proxy answered with a status below 300 (so also when it returned an error, or
  when the handler stopped before it) no goroutine is started: nothing is cleaned up.
  When it did, the handler returns with the goroutines started and none of their calls
  made, and its answer is the proxy's. Every schedule that gives the goroutines enough
  turns runs them to their end, and whenever they have run to their end, under any
  schedule, their events \<open>post\<close> are an interleaving of \<open>es1\<close> and \<open>es2\<close>: \<open>es1\<close> is
  the cleanup of \<open>names\<close>, each once, and \<open>es2\<close> the cleanup of the monitoring name of
  \<open>db\<close>, if it has one. In each the record of every name is fetched,
  \<^verbatim>\<open>DeleteConfig\<close> is called on exactly the records that could be fetched (a name
  whose record cannot be fetched is skipped), and the log holds exactly the failed fetches
  and the failures of \<^verbatim>\<open>DeleteConfig\<close> other than \<^verbatim>\<open>ErrConfigInUse\<close>.
\<close>

theorem C4_delete_cleans_up_only_after_success:
  assumes range: "rangeVisitsEachKeyOnce env"
    and run: "DeleteDatabaseCluster env kubernetesID name s = (resp, s1)"
    and keys: "distinct (BackupStorageNamesFromDBCluster env
                           (deletedCluster env s kubernetesID name))"
  defines "db \<equiv> deletedCluster env s kubernetesID name"
  defines "names \<equiv> BackupStorageNamesFromDBCluster env db"
  shows "\<exists>pre rest started.
           trace s1 = trace s @ pre @ rest \<and> spawned s1 = spawned s @ started
         \<and> pick proxied pre = [] \<and> pick touchedBS pre = [] \<and> pick touchedMI pre = []
         \<and> (rest = [] \<or> (\<exists>r. rest = [Called (ProxyKubernetes kubernetesID name) r]))
         \<and> (\<not> (\<exists>status. resp = Proxied status \<and> status < StatusMultipleChoices)
              \<longrightarrow> started = [])
         \<and> ((\<exists>status. resp = Proxied status \<and> status < StatusMultipleChoices) \<longrightarrow>
               rest = [Called (ProxyKubernetes kubernetesID name) None]
             \<and> (\<forall>schedule.
                   3 * length names + 1 \<le> count_list schedule 0
                 \<and> 3 \<le> count_list schedule 1
                 \<longrightarrow> (\<exists>post. finishes env schedule started s1 post))
             \<and> (\<forall>schedule post. finishes env schedule started s1 post \<longrightarrow>
                   (\<exists>es1 es2 order.
                       post \<in> shuffles es1 es2
                     \<and> storageCleanup order es1
                     \<and> set order = set names \<and> distinct order
                     \<and> failuresLogged es1
                     \<and> monitoringCleanup (storedMonitoringNames db) es2
                     \<and> failuresLogged es2)))"
proof -
  let ?started = "deleteK8SBackupStorages kubernetesID names
                    # map (deleteK8SMonitoringConfig kubernetesID) (storedMonitoringNames db)"
  have keys': "distinct names"
    using keys by (simp add: names_def db_def)
  from DeleteDatabaseCluster_outcomes [OF run] obtain pre rest started where
    s1: "s1 = s\<lparr>trace := trace s @ pre @ rest, spawned := spawned s @ started\<rparr>" and
    p: "pick proxied pre = []" "pick touchedBS pre = []" "pick touchedMI pre = []" and
    o: "rest = [] \<and> started = [] \<and> (\<forall>status. resp \<noteq> Proxied status)
       \<or> (\<exists>r. rest = [Called (ProxyKubernetes kubernetesID name) r]
            \<and> (case r of
                  Some e \<Rightarrow> resp = Returned e \<and> started = []
                | None \<Rightarrow>
                    (\<exists>status. resp = Proxied status
                       \<and> started = (if status < StatusMultipleChoices then ?started else []))))"
    unfolding names_def db_def by (elim exE conjE)
  have tr: "trace s1 = trace s @ pre @ rest" "spawned s1 = spawned s @ started"
    using s1 by simp_all
  have phase: "rest = [] \<or> (\<exists>r. rest = [Called (ProxyKubernetes kubernetesID name) r])"
    using o by blast
  have fail: "\<not> (\<exists>status. resp = Proxied status \<and> status < StatusMultipleChoices)
              \<longrightarrow> started = []"
    using o by (auto split: option.splits if_splits)
  have ok: "(\<exists>status. resp = Proxied status \<and> status < StatusMultipleChoices) \<longrightarrow>
               rest = [Called (ProxyKubernetes kubernetesID name) None]
             \<and> (\<forall>schedule.
                   3 * length names + 1 \<le> count_list schedule 0
                 \<and> 3 \<le> count_list schedule 1
                 \<longrightarrow> (\<exists>post. finishes env schedule started s1 post))
             \<and> (\<forall>schedule post. finishes env schedule started s1 post \<longrightarrow>
                   (\<exists>es1 es2 order.
                       post \<in> shuffles es1 es2
                     \<and> storageCleanup order es1
                     \<and> set order = set names \<and> distinct order
                     \<and> failuresLogged es1
                     \<and> monitoringCleanup (storedMonitoringNames db) es2
                     \<and> failuresLogged es2))"
  proof
    assume "\<exists>status. resp = Proxied status \<and> status < StatusMultipleChoices"
    with o have r: "rest = [Called (ProxyKubernetes kubernetesID name) None]"
      and st: "started = ?started"
      by (auto split: option.splits if_splits)
    have turns: "\<forall>schedule.
                   3 * length names + 1 \<le> count_list schedule 0
                 \<and> 3 \<le> count_list schedule 1
                 \<longrightarrow> (\<exists>post. finishes env schedule started s1 post)"
      using delete_goroutines_finish [OF range keys', of _ kubernetesID db s1]
      unfolding st by blast
    have events: "\<forall>schedule post. finishes env schedule started s1 post \<longrightarrow>
                   (\<exists>es1 es2 order.
                       post \<in> shuffles es1 es2
                     \<and> storageCleanup order es1
                     \<and> set order = set names \<and> distinct order
                     \<and> failuresLogged es1
                     \<and> monitoringCleanup (storedMonitoringNames db) es2
                     \<and> failuresLogged es2)"
      using delete_goroutines_events [OF range keys', of _ kubernetesID db s1]
      unfolding st by blast
    from r turns events show "rest = [Called (ProxyKubernetes kubernetesID name) None]
             \<and> (\<forall>schedule.
                   3 * length names + 1 \<le> count_list schedule 0
                 \<and> 3 \<le> count_list schedule 1
                 \<longrightarrow> (\<exists>post. finishes env schedule started s1 post))
             \<and> (\<forall>schedule post. finishes env schedule started s1 post \<longrightarrow>
                   (\<exists>es1 es2 order.
                       post \<in> shuffles es1 es2
                     \<and> storageCleanup order es1
                     \<and> set order = set names \<and> distinct order
                     \<and> failuresLogged es1
                     \<and> monitoringCleanup (storedMonitoringNames db) es2
                     \<and> failuresLogged es2))"
      by (intro conjI)
  qed
  show ?thesis
    apply (rule exI [of _ pre], rule exI [of _ rest], rule exI [of _ started])
    apply (intro conjI)
    apply (rule tr p phase fail ok)+
    done
qed

lemma range_envOK: "rangeVisitsEachKeyOnce envOK"
  by (simp add: rangeVisitsEachKeyOnce_def envOK_def)

lemmas cluster_sample_defs =
  UpdateDatabaseCluster_def DeleteDatabaseCluster_def initKubeClient_def
  kube_GetDatabaseCluster_def createResources_def createBackupStoragesOnUpdate_def
  createMonitoringInstanceOnUpdate_def proxyKubernetes_def ext_def go_def
  storage_GetBackupStorage_def logError_def uniqueKeys_def map_put_def
  backupStorageNamesFrom_def withBackupStorageNamesFromDBCluster_def monitoringNameFrom_def
  oldMonitoringName_def dbcBC_def oldAB_def
  deleteK8SBackupStorages_def deleteK8SMonitoringConfig_def deleteK8SBackupStorage_def
  deleteBackupStoragesOnUpdate_def deleteMonitoringInstanceOnUpdate_def
  StatusMultipleChoices_def Let_def

lemma update_sample:
  "UpdateDatabaseCluster envOK ''k1'' ''db'' dbcBC stABC
     = (Proxied 200, snd (UpdateDatabaseCluster envOK ''k1'' ''db'' dbcBC stABC))"
  by (simp add: prod_eq_iff cluster_sample_defs envOK_def stABC_def)

lemma delete_sample:
  "DeleteDatabaseCluster envOK ''k1'' ''db'' stABC
     = (Proxied 200, snd (DeleteDatabaseCluster envOK ''k1'' ''db'' stABC))"
  by (simp add: prod_eq_iff cluster_sample_defs envOK_def stABC_def)

lemma stored_sample:
  "storedCluster envOK stABC ''k1'' ''db'' = oldAB"
  "deletedCluster envOK stABC ''k1'' ''db'' = oldAB"
  by (simp_all add: storedCluster_def deletedCluster_def envOK_def)

lemma references_sample:
  "storedStorages oldAB - {[]} = {''A'', ''B''}"
  "requestedStorages dbcBC = {''B'', ''C''}"
  "storedMonitoring oldAB = ''pmm''"
  "requestedMonitoring dbcBC = ''pmm2''"
  "storedMonitoringNames oldAB = [''pmm'']"
  "BackupStorageNamesFromDBCluster envOK oldAB = [''A'', ''B'']"
  by (auto simp: storedStorages_def requestedStorages_def storedMonitoring_def
      requestedMonitoring_def storedMonitoringNames_def oldAB_def dbcBC_def envOK_def
      withBackupStorageNamesFromDBCluster_def map_put_def)

lemma differences_sample:
  "{''B'', ''C''} - {''A'', ''B''} = {''C''}"
  "{''A'', ''B''} - {''B'', ''C''} = {''A''}"
  by auto

text \<open>
  Claim C2 as stated fails: the stored cluster references \<open>A\<close> and \<open>B\<close>, the request
  \<open>B\<close> and \<open>C\<close>, and the update is proxied with the answer 200. In the cleanup the
  record of \<open>A\<close> cannot be fetched, and when both goroutines have run to their end no
  \<^verbatim>\<open>DeleteConfig\<close> has been called for any backup storage: \<open>A\<close> was not submitted
  for deletion.
\<close>

theorem C2_failed_fetch_skips_the_delete:
  "storedStorages (storedCluster envFetchFails stABC ''k1'' ''db'') - {[]} = {''A'', ''B''}
   \<and> requestedStorages dbcBC = {''B'', ''C''}
   \<and> fst (UpdateDatabaseCluster envFetchFails ''k1'' ''db'' dbcBC stABC) = Proxied 200
   \<and> fst (runGoroutines envFetchFails [0, 1, 0, 1, 0]
            (spawned (snd (UpdateDatabaseCluster envFetchFails ''k1'' ''db'' dbcBC stABC)))
            (snd (UpdateDatabaseCluster envFetchFails ''k1'' ''db'' dbcBC stABC)))
       = [Done, Done]
   \<and> pick deleteBS
        (trace (snd (runGoroutines envFetchFails [0, 1, 0, 1, 0]
            (spawned (snd (UpdateDatabaseCluster envFetchFails ''k1'' ''db'' dbcBC stABC)))
            (snd (UpdateDatabaseCluster envFetchFails ''k1'' ''db'' dbcBC stABC)))))
       = []"
proof -
  have "storedCluster envFetchFails stABC ''k1'' ''db'' = oldAB"
    by (simp add: storedCluster_def envFetchFails_def envOK_def)
  then show ?thesis
    by (simp add: references_sample)
      (simp add: cluster_sample_defs envFetchFails_def envOK_def stABC_def storageA_def)
qed

text \<open>
  Claim C8 as stated fails: the stored monitoring name is \<open>pmm\<close>, the new one
  \<open>pmm2\<close>, and the update is proxied with the answer 200. In the cleanup the record of
  \<open>pmm\<close> cannot be fetched, and when both goroutines have run to their end no
  \<^verbatim>\<open>DeleteConfig\<close> has been called for any monitoring config.
\<close>

theorem C8_failed_fetch_skips_the_delete:
  "storedMonitoring (storedCluster envMonitoringFetchFails stABC ''k1'' ''db'') = ''pmm''
   \<and> requestedMonitoring dbcBC = ''pmm2''
   \<and> fst (UpdateDatabaseCluster envMonitoringFetchFails ''k1'' ''db'' dbcBC stABC)
       = Proxied 200
   \<and> fst (runGoroutines envMonitoringFetchFails [1, 0, 1, 0, 0]
            (spawned (snd (UpdateDatabaseCluster envMonitoringFetchFails ''k1'' ''db'' dbcBC
                             stABC)))
            (snd (UpdateDatabaseCluster envMonitoringFetchFails ''k1'' ''db'' dbcBC stABC)))
       = [Done, Done]
   \<and> pick deleteMI
        (trace (snd (runGoroutines envMonitoringFetchFails [1, 0, 1, 0, 0]
            (spawned (snd (UpdateDatabaseCluster envMonitoringFetchFails ''k1'' ''db'' dbcBC
                             stABC)))
            (snd (UpdateDatabaseCluster envMonitoringFetchFails ''k1'' ''db'' dbcBC stABC)))))
       = []"
proof -
  have "storedCluster envMonitoringFetchFails stABC ''k1'' ''db'' = oldAB"
    by (simp add: storedCluster_def envMonitoringFetchFails_def envOK_def)
  then show ?thesis
    by (simp add: references_sample)
      (simp add: cluster_sample_defs envMonitoringFetchFails_def envOK_def stABC_def
        storageA_def)
qed

text \<open>
  Claim C4 as stated fails: the cluster to delete references the backup storages \<open>A\<close> and
  \<open>B\<close> and the monitoring config \<open>pmm\<close>, and the delete is proxied with the answer
  200. In the cleanup the record of \<open>A\<close> cannot be fetched, and when both goroutines
  have run to their end \<^verbatim>\<open>DeleteConfig\<close> has been called for \<open>B\<close> and for \<open>pmm\<close>,
  and not for \<open>A\<close>.
\<close>

theorem C4_failed_fetch_skips_the_delete:
  "fst (DeleteDatabaseCluster envFetchFails ''k1'' ''db'' stABC) = Proxied 200
   \<and> BackupStorageNamesFromDBCluster envFetchFails
         (deletedCluster envFetchFails stABC ''k1'' ''db'') = [''A'', ''B'']
   \<and> fst (runGoroutines envFetchFails [0, 0, 0, 1, 0, 0, 1]
            (spawned (snd (DeleteDatabaseCluster envFetchFails ''k1'' ''db'' stABC)))
            (snd (DeleteDatabaseCluster envFetchFails ''k1'' ''db'' stABC)))
       = [Done, Done]
   \<and> pick deleteCfg
        (trace (snd (runGoroutines envFetchFails [0, 0, 0, 1, 0, 0, 1]
            (spawned (snd (DeleteDatabaseCluster envFetchFails ''k1'' ''db'' stABC)))
            (snd (DeleteDatabaseCluster envFetchFails ''k1'' ''db'' stABC)))))
       = [BackupStorageConfig ''B'', MonitoringConfig ''pmm'']"
  by (simp add: cluster_sample_defs envFetchFails_def envOK_def stABC_def deletedCluster_def
      oldAB_def storageA_def)

theorem C2_update_creates_new_and_deletes_old_witness:
  "rangeVisitsEachKeyOnce envOK
   \<and> UpdateDatabaseCluster envOK ''k1'' ''db'' dbcBC stABC
       = (Proxied 200, snd (UpdateDatabaseCluster envOK ''k1'' ''db'' dbcBC stABC))
   \<and> (\<exists>pre started post es1 es2 order.
          trace (snd (UpdateDatabaseCluster envOK ''k1'' ''db'' dbcBC stABC))
            = trace stABC @ pre @ [Called (ProxyKubernetes ''k1'' ''db'') None]
        \<and> spawned (snd (UpdateDatabaseCluster envOK ''k1'' ''db'' dbcBC stABC))
            = spawned stABC @ started
        \<and> set (pick touchedBS pre) \<subseteq> {''C''}
        \<and> set (pick ensuredBS pre) = {''C''}
        \<and> pick deleteBS pre = []
        \<and> finishes envOK [1, 0, 1, 0, 1, 0, 0] started
             (snd (UpdateDatabaseCluster envOK ''k1'' ''db'' dbcBC stABC)) post
        \<and> post \<in> shuffles es1 es2
        \<and> storageCleanup order es1 \<and> set order = {''A''}
        \<and> pick touchedBS es2 = [])"
proof -
  let ?s1 = "snd (UpdateDatabaseCluster envOK ''k1'' ''db'' dbcBC stABC)"
  have ok: "\<exists>status. Proxied 200 = Proxied status \<and> status < StatusMultipleChoices"
    by (simp add: StatusMultipleChoices_def)
  have no: "\<not> (\<forall>status. Proxied 200 \<noteq> Proxied status)"
    by simp
  from C2_update_creates_new_and_deletes_old [OF range_envOK update_sample]
  obtain pre rest started where
    t: "trace ?s1 = trace stABC @ pre @ rest" "spawned ?s1 = spawned stABC @ started"
      "set (pick touchedBS pre) \<subseteq> {''C''}" and
    phase: "(rest = [] \<and> (\<forall>status. Proxied 200 \<noteq> Proxied status))
            \<or> ((\<exists>r. rest = [Called (ProxyKubernetes ''k1'' ''db'') r])
                \<and> set (pick ensuredBS pre) = {''C''}
                \<and> distinct (pick ensureBS pre)
                \<and> pick ensuredBS pre = pick ensureBS pre
                \<and> pick deleteBS pre = [])" and
    succ: "(\<exists>status. Proxied 200 = Proxied status \<and> status < StatusMultipleChoices) \<longrightarrow>
               rest = [Called (ProxyKubernetes ''k1'' ''db'') None]
             \<and> (\<forall>schedule. 3 * card {''A''} + 1 \<le> count_list schedule 0
                 \<and> 3 \<le> count_list schedule 1
                 \<longrightarrow> (\<exists>post. finishes envOK schedule started ?s1 post))
             \<and> (\<forall>schedule post. finishes envOK schedule started ?s1 post \<longrightarrow>
                   (\<exists>es1 es2 order.
                       post \<in> shuffles es1 es2
                     \<and> storageCleanup order es1
                     \<and> set order = {''A''} \<and> distinct order
                     \<and> pick touchedBS es2 = []))"
    unfolding stored_sample references_sample differences_sample
    by (elim exE conjE)
  note succ' = succ [rule_format, OF ok]
  note r = succ' [THEN conjunct1]
  note turns = succ' [THEN conjunct2, THEN conjunct1]
  note events = succ' [THEN conjunct2, THEN conjunct2]
  from phase r have p: "set (pick ensuredBS pre) = {''C''}" "pick deleteBS pre = []"
    by (elim disjE conjE; simp)+
  from turns [rule_format, of "[1, 0, 1, 0, 1, 0, 0]"] obtain post where
    f: "finishes envOK [1, 0, 1, 0, 1, 0, 0] started ?s1 post"
    by auto
  from events [rule_format, OF f] obtain es1 es2 order where
    e: "post \<in> shuffles es1 es2" "storageCleanup order es1" "set order = {''A''}"
      "pick touchedBS es2 = []"
    by auto
  have "\<exists>pre started post es1 es2 order.
          trace ?s1 = trace stABC @ pre @ [Called (ProxyKubernetes ''k1'' ''db'') None]
        \<and> spawned ?s1 = spawned stABC @ started
        \<and> set (pick touchedBS pre) \<subseteq> {''C''}
        \<and> set (pick ensuredBS pre) = {''C''}
        \<and> pick deleteBS pre = []
        \<and> finishes envOK [1, 0, 1, 0, 1, 0, 0] started ?s1 post
        \<and> post \<in> shuffles es1 es2
        \<and> storageCleanup order es1 \<and> set order = {''A''}
        \<and> pick touchedBS es2 = []"
    using t [unfolded r] p f e by blast
  with range_envOK update_sample show ?thesis
    by (intro conjI)
qed

theorem C8_update_monitoring_config_witness:
  "rangeVisitsEachKeyOnce envOK
   \<and> UpdateDatabaseCluster envOK ''k1'' ''db'' dbcBC stABC
       = (Proxied 200, snd (UpdateDatabaseCluster envOK ''k1'' ''db'' dbcBC stABC))
   \<and> (\<exists>pre started post es1 es2.
          trace (snd (UpdateDatabaseCluster envOK ''k1'' ''db'' dbcBC stABC))
            = trace stABC @ pre @ [Called (ProxyKubernetes ''k1'' ''db'') None]
        \<and> spawned (snd (UpdateDatabaseCluster envOK ''k1'' ''db'' dbcBC stABC))
            = spawned stABC @ started
        \<and> pick ensuredMI pre = [''pmm2'']
        \<and> pick deleteMI pre = []
        \<and> finishes envOK [0, 0, 1, 1, 0, 0, 1] started
             (snd (UpdateDatabaseCluster envOK ''k1'' ''db'' dbcBC stABC)) post
        \<and> post \<in> shuffles es1 es2
        \<and> pick touchedMI es1 = []
        \<and> monitoringCleanup [''pmm''] es2
        \<and> failuresLogged es2)"
proof -
  let ?s1 = "snd (UpdateDatabaseCluster envOK ''k1'' ''db'' dbcBC stABC)"
  have ok: "\<exists>status. Proxied 200 = Proxied status \<and> status < StatusMultipleChoices"
    by (simp add: StatusMultipleChoices_def)
  have no: "\<not> (\<forall>status. Proxied 200 \<noteq> Proxied status)"
    by simp
  have names: "''pmm2'' \<noteq> [] \<and> ''pmm2'' \<noteq> ''pmm''" "''pmm'' \<noteq> [] \<and> ''pmm2'' \<noteq> ''pmm''"
    by simp_all
  from C8_update_monitoring_config [OF range_envOK update_sample]
  obtain pre rest started where
    t: "trace ?s1 = trace stABC @ pre @ rest" "spawned ?s1 = spawned stABC @ started"
      "pick deleteMI pre = []" and
    phase: "(rest = [] \<and> (\<forall>status. Proxied 200 \<noteq> Proxied status))
            \<or> ((\<exists>r. rest = [Called (ProxyKubernetes ''k1'' ''db'') r])
                \<and> pick ensuredMI pre = [''pmm2'']
                \<and> pick ensureMI pre = pick ensuredMI pre)" and
    succ: "(\<exists>status. Proxied 200 = Proxied status \<and> status < StatusMultipleChoices) \<longrightarrow>
               rest = [Called (ProxyKubernetes ''k1'' ''db'') None]
             \<and> (\<forall>schedule. 3 * card {''A''} + 1 \<le> count_list schedule 0
                 \<and> 3 \<le> count_list schedule 1
                 \<longrightarrow> (\<exists>post. finishes envOK schedule started ?s1 post))
             \<and> (\<forall>schedule post. finishes envOK schedule started ?s1 post \<longrightarrow>
                   (\<exists>es1 es2.
                       post \<in> shuffles es1 es2
                     \<and> pick touchedMI es1 = []
                     \<and> monitoringCleanup [''pmm''] es2
                     \<and> failuresLogged es2))"
    unfolding stored_sample references_sample differences_sample if_P [OF names(1)]
      if_P [OF names(2)]
    by (elim exE conjE)
  note succ' = succ [rule_format, OF ok]
  note r = succ' [THEN conjunct1]
  note turns = succ' [THEN conjunct2, THEN conjunct1]
  note events = succ' [THEN conjunct2, THEN conjunct2]
  from phase r have p: "pick ensuredMI pre = [''pmm2'']"
    by (elim disjE conjE; simp)
  from turns [rule_format, of "[0, 0, 1, 1, 0, 0, 1]"] obtain post where
    f: "finishes envOK [0, 0, 1, 1, 0, 0, 1] started ?s1 post"
    by auto
  from events [rule_format, OF f] obtain es1 es2 where
    e: "post \<in> shuffles es1 es2" "pick touchedMI es1 = []" "monitoringCleanup [''pmm''] es2"
      "failuresLogged es2"
    by auto
  have "\<exists>pre started post es1 es2.
          trace ?s1 = trace stABC @ pre @ [Called (ProxyKubernetes ''k1'' ''db'') None]
        \<and> spawned ?s1 = spawned stABC @ started
        \<and> pick ensuredMI pre = [''pmm2'']
        \<and> pick deleteMI pre = []
        \<and> finishes envOK [0, 0, 1, 1, 0, 0, 1] started ?s1 post
        \<and> post \<in> shuffles es1 es2
        \<and> pick touchedMI es1 = []
        \<and> monitoringCleanup [''pmm''] es2
        \<and> failuresLogged es2"
    using t [unfolded r] p f e by blast
  with range_envOK update_sample show ?thesis
    by (intro conjI)
qed

theorem C4_delete_cleans_up_only_after_success_witness:
  "rangeVisitsEachKeyOnce envOK
   \<and> DeleteDatabaseCluster envOK ''k1'' ''db'' stABC
       = (Proxied 200, snd (DeleteDatabaseCluster envOK ''k1'' ''db'' stABC))
   \<and> distinct (BackupStorageNamesFromDBCluster envOK (deletedCluster envOK stABC ''k1'' ''db''))
   \<and> (\<exists>pre started post es1 es2 order.
          trace (snd (DeleteDatabaseCluster envOK ''k1'' ''db'' stABC))
            = trace stABC @ pre @ [Called (ProxyKubernetes ''k1'' ''db'') None]
        \<and> spawned (snd (DeleteDatabaseCluster envOK ''k1'' ''db'' stABC))
            = spawned stABC @ started
        \<and> pick touchedBS pre = [] \<and> pick touchedMI pre = []
        \<and> finishes envOK [0, 1, 0, 1, 0, 1, 0, 0, 0, 0] started
             (snd (DeleteDatabaseCluster envOK ''k1'' ''db'' stABC)) post
        \<and> post \<in> shuffles es1 es2
        \<and> storageCleanup order es1 \<and> set order = {''A'', ''B''}
        \<and> failuresLogged es1
        \<and> monitoringCleanup [''pmm''] es2)"
proof -
  let ?s1 = "snd (DeleteDatabaseCluster envOK ''k1'' ''db'' stABC)"
  have keys: "distinct (BackupStorageNamesFromDBCluster envOK
                          (deletedCluster envOK stABC ''k1'' ''db''))"
    by (simp add: stored_sample references_sample)
  have ok: "\<exists>status. Proxied 200 = Proxied status \<and> status < StatusMultipleChoices"
    by (simp add: StatusMultipleChoices_def)
  from C4_delete_cleans_up_only_after_success [OF range_envOK delete_sample keys]
  obtain pre rest started where
    t: "trace ?s1 = trace stABC @ pre @ rest" "spawned ?s1 = spawned stABC @ started"
      "pick touchedBS pre = []" "pick touchedMI pre = []" and
    r: "rest = [Called (ProxyKubernetes ''k1'' ''db'') None]" and
    turns: "\<forall>schedule. 3 * length [''A'', ''B''] + 1 \<le> count_list schedule 0
                 \<and> 3 \<le> count_list schedule 1
                 \<longrightarrow> (\<exists>post. finishes envOK schedule started ?s1 post)" and
    events: "\<forall>schedule post. finishes envOK schedule started ?s1 post \<longrightarrow>
                   (\<exists>es1 es2 order.
                       post \<in> shuffles es1 es2
                     \<and> storageCleanup order es1
                     \<and> set order = set [''A'', ''B''] \<and> distinct order
                     \<and> failuresLogged es1
                     \<and> monitoringCleanup [''pmm''] es2
                     \<and> failuresLogged es2)"
    unfolding stored_sample references_sample using ok by (elim exE conjE) blast
  from turns [rule_format, of "[0, 1, 0, 1, 0, 1, 0, 0, 0, 0]"] obtain post where
    f: "finishes envOK [0, 1, 0, 1, 0, 1, 0, 0, 0, 0] started ?s1 post"
    by auto
  from events [rule_format, OF f] obtain es1 es2 order where
    e: "post \<in> shuffles es1 es2" "storageCleanup order es1" "set order = {''A'', ''B''}"
      "failuresLogged es1" "monitoringCleanup [''pmm''] es2"
    by auto
  have "\<exists>pre started post es1 es2 order.
          trace ?s1 = trace stABC @ pre @ [Called (ProxyKubernetes ''k1'' ''db'') None]
        \<and> spawned ?s1 = spawned stABC @ started
        \<and> pick touchedBS pre = [] \<and> pick touchedMI pre = []
        \<and> finishes envOK [0, 1, 0, 1, 0, 1, 0, 0, 0, 0] started ?s1 post
        \<and> post \<in> shuffles es1 es2
        \<and> storageCleanup order es1 \<and> set order = {''A'', ''B''}
        \<and> failuresLogged es1
        \<and> monitoringCleanup [''pmm''] es2"
    using t [unfolded r] f e by blast
  with range_envOK delete_sample keys show ?thesis
    by (intro conjI)
qed

lemma names_dbcAB: "backupStorageNamesFrom dbcAB = [''A'', ''B'']"
  by (simp add: backupStorageNamesFrom_def dbcAB_def map_put_def)

text \<open>
  Claim C1, where the code departs from it. A cluster is created with schedules on \<open>A\<close>
  and \<open>B\<close>; the record of \<open>A\<close> exists, the one of \<open>B\<close> does not, and the
  \<^verbatim>\<open>range\<close> visits \<open>A\<close> first. \<open>A\<close> is materialized, the fetch of \<open>B\<close> fails with
  \<^verbatim>\<open>ErrRecordNotFound\<close>, and \<^verbatim>\<open>createK8SBackupStorages\<close> returns at once: the
  handler answers 500 and never proxies, but \<^verbatim>\<open>rollbackCreatedBackupStorages\<close> is
  not called, so no \<^verbatim>\<open>DeleteConfig\<close> is made for \<open>A\<close>. (When
  \<^verbatim>\<open>EnsureConfigExists\<close> fails instead, the same loop does call the rollback:
  \<open>createLoop_failure\<close> describes every failing run of the loop, and
  \<open>CreateDatabaseCluster_stops_on_failure\<close> the answer of the handler.)
\<close>

theorem C1_fetch_failure_skips_rollback:
  "CreateDatabaseCluster envOK ''k1'' dbcAB stOnlyA
     = (JSON 500 (Message ''Could not create BackupStorage''),
        stOnlyA\<lparr>trace :=
          [Called GetBodyFromContext None,
           Called (ValidateDatabaseClusterCR ''k1'') None,
           Called (GetKubernetesCluster ''k1'') None,
           Called (NewFromSecretsStorage ''k1'') None,
           Called (GetBackupStorage ''A'') None,
           Called (EnsureConfigExists ''k1'' (BackupStorageConfig ''A'')) None,
           Called (GetBackupStorage ''B'') (Some ErrRecordNotFound),
           Logged (Join ErrRecordNotFound (ErrMsg ''could not get backup storage''))]\<rparr>)"
  by (simp add: CreateDatabaseCluster_def names_dbcAB ext_def envOK_def stOnlyA_def
      initKubeClient_def createK8SBackupStorages_def storage_GetBackupStorage_def
      logError_def StatusInternalServerError_def storageA_def)

text \<open>
  Claim C5, where the code departs from it. The backup storage \<open>B\<close> is created; both
  secrets are written, then the insert of the record fails. The handler answers 500. The
  deferred \<^verbatim>\<open>cleanUpNewSecretsOnUpdateError\<close> runs with the ids it was given at the
  \<^verbatim>\<open>defer\<close> statement, both \<^verbatim>\<open>nil\<close>: it makes no \<^verbatim>\<open>DeleteSecret\<close> call,
  and the two secrets just written stay in the vault, with no record referring to them.
\<close>

theorem C5_failed_create_keeps_secrets:
  "fst (CreateBackupStorage envInsertFails (Inr paramsB) stOnlyA)
     = JSON 500 (Message ''Could not create a new backup storage'')
   \<and> trace (snd (CreateBackupStorage envInsertFails (Inr paramsB) stOnlyA))
     = [Called (GetBackupStorage ''B'') (Some ErrRecordNotFound),
        Called (CreateSecret ''id-i'') None,
        Called (CreateSecret ''id-ii'') None,
        Called (CreateBackupStorageRecord ''B'') (Some (ErrMsg ''insert failed'')),
        Logged (ErrMsg ''insert failed'')]
   \<and> vault (snd (CreateBackupStorage envInsertFails (Inr paramsB) stOnlyA)) ''id-i'' = Some ''AK2''
   \<and> vault (snd (CreateBackupStorage envInsertFails (Inr paramsB) stOnlyA)) ''id-ii'' = Some ''SK2''
   \<and> bstore (snd (CreateBackupStorage envInsertFails (Inr paramsB) stOnlyA)) ''B'' = None"
  by (simp add: CreateBackupStorage_def envInsertFails_def envOK_def stOnlyA_def paramsB_def
      storage_GetBackupStorage_def createSecrets_def secrets_CreateSecret_def ext_def snap_def
      createBackupStorage_def storage_CreateBackupStorage_def orElse_def logError_def
      cleanUpNewSecretsOnUpdateError_def StatusInternalServerError_def Let_def storageA_def)

text \<open>
  Claim C6. When \<^verbatim>\<open>GetBackupStorage\<close> finds a record under the name of the request,
  \<^verbatim>\<open>CreateBackupStorage\<close> answers 409 with the message that the storage already
  exists, and all it has done is that lookup and one log line: no call to the secrets
  vault is made, and the vault and the records are as they were.
\<close>

theorem C6_duplicate_name_is_a_conflict:
  assumes "bstore s (c_Name params) = Some existing"
    and "fault env (trace s) (GetBackupStorage (c_Name params)) = None"
  shows "CreateBackupStorage env (Inr params) s
     = (JSON StatusConflict (Message (''storage '' @ c_Name params @ '' already exists'')),
        s\<lparr>trace := trace s @
             [Called (GetBackupStorage (c_Name params)) None,
              Logged (ErrMsg (''storage '' @ c_Name params @ '' already exists''))]\<rparr>)"
  using assms
  by (simp add: CreateBackupStorage_def storage_GetBackupStorage_def logError_def)

theorem C6_duplicate_name_is_a_conflict_witness:
  "bstore stOnlyA (c_Name paramsA) = Some storageA
   \<and> fault envOK (trace stOnlyA) (GetBackupStorage (c_Name paramsA)) = None
   \<and> CreateBackupStorage envOK (Inr paramsA) stOnlyA
       = (JSON 409 (Message ''storage A already exists''),
          stOnlyA\<lparr>trace := [Called (GetBackupStorage ''A'') None,
                              Logged (ErrMsg ''storage A already exists'')]\<rparr>)
   \<and> vault (snd (CreateBackupStorage envOK (Inr paramsA) stOnlyA)) = vault stOnlyA"
proof -
  have h1: "bstore stOnlyA (c_Name paramsA) = Some storageA"
    by (simp add: stOnlyA_def paramsA_def paramsB_def)
  have h2: "fault envOK (trace stOnlyA) (GetBackupStorage (c_Name paramsA)) = None"
    by (simp add: envOK_def)
  from C6_duplicate_name_is_a_conflict [OF h1 h2] h1 h2 show ?thesis
    by (simp add: paramsA_def paramsB_def StatusConflict_def stOnlyA_def)
qed

lemma secrets_GetSecretD:
  "secrets_GetSecret env i s = (r, s') \<Longrightarrow>
     s' = s\<lparr>trace := trace s @
            [Called (GetSecret i) (case r of Inl e \<Rightarrow> Some e | Inr v \<Rightarrow> None)]\<rparr>"
  by (auto simp: secrets_GetSecret_def Let_def)

lemma checkStorageAccessByUpdate_reads:
  assumes "checkStorageAccessByUpdate env name params s = (r, s')"
  shows "\<exists>evs. s' = s\<lparr>trace := trace s @ evs\<rparr>
           \<and> pick createSecret evs = [] \<and> pick deleteSecret evs = []
           \<and> pick updateCfg evs = [] \<and> pick recordUpdate evs = []
           \<and> (\<forall>old. r = Inr old \<longrightarrow> bstore s name = Some old)"
proof -
  have "s' = s\<lparr>trace := trace s @ drop (length (trace s)) (trace s')\<rparr>
        \<and> pick createSecret (drop (length (trace s)) (trace s')) = []
        \<and> pick deleteSecret (drop (length (trace s)) (trace s')) = []
        \<and> pick updateCfg (drop (length (trace s)) (trace s')) = []
        \<and> pick recordUpdate (drop (length (trace s)) (trace s')) = []
        \<and> (\<forall>old. r = Inr old \<longrightarrow> bstore s name = Some old)"
    using assms
    by (auto simp: checkStorageAccessByUpdate_def storage_GetBackupStorage_def
        secrets_GetSecret_def ext_eq Let_def
        split: prod.splits option.splits sum.splits if_splits)
  then show ?thesis by blast
qed

lemma resolvable_put:
  "resolvable v b name \<Longrightarrow> resolvable (v(i \<mapsto> x)) b name"
  by (auto simp: resolvable_def split: option.splits)

lemma createSecrets_any:
  assumes "createSecrets env accessKey secretKey s = ((nA, nS, err), s')"
  shows "bstore s' = bstore s \<and> spawned s' = spawned s
     \<and> (neverDangling name s \<longrightarrow> neverDangling name s')
     \<and> (\<forall>i. vault s i \<noteq> None \<longrightarrow> vault s' i \<noteq> None)
     \<and> (\<exists>evs. trace s' = trace s @ evs
            \<and> pick deleteSecret evs = [] \<and> pick updateCfg evs = []
            \<and> pick recordUpdate evs = [])"
proof -
  have "bstore s' = bstore s \<and> spawned s' = spawned s
     \<and> (neverDangling name s \<longrightarrow> neverDangling name s')
     \<and> (\<forall>i. vault s i \<noteq> None \<longrightarrow> vault s' i \<noteq> None)
     \<and> trace s' = trace s @ drop (length (trace s)) (trace s')
     \<and> pick deleteSecret (drop (length (trace s)) (trace s')) = []
     \<and> pick updateCfg (drop (length (trace s)) (trace s')) = []
     \<and> pick recordUpdate (drop (length (trace s)) (trace s')) = []"
    using assms
    by (auto simp: createSecrets_def secrets_CreateSecret_def ext_eq snap_def logError_eq Let_def
        neverDangling_def resolvable_put
        split: prod.splits option.splits if_splits)
  then show ?thesis by blast
qed

lemma createSecrets_ok:
  assumes "createSecrets env accessKey secretKey s = ((nA, nS, None), s')"
  shows "(nA = None \<longleftrightarrow> accessKey = None) \<and> (nS = None \<longleftrightarrow> secretKey = None)
     \<and> (\<forall>i. nA = Some i \<or> nS = Some i \<longrightarrow> vault s' i \<noteq> None \<and> (\<exists>t. i = NewString env t))
     \<and> (\<exists>evs. trace s' = trace s @ evs
            \<and> pick createSecret evs = idList nA @ idList nS
            \<and> pick deleteSecret evs = [] \<and> pick updateCfg evs = []
            \<and> pick recordUpdate evs = [])"
proof -
  have "(nA = None \<longleftrightarrow> accessKey = None) \<and> (nS = None \<longleftrightarrow> secretKey = None)
     \<and> (\<forall>i. nA = Some i \<or> nS = Some i \<longrightarrow> vault s' i \<noteq> None \<and> (\<exists>t. i = NewString env t))
     \<and> trace s' = trace s @ drop (length (trace s)) (trace s')
     \<and> pick createSecret (drop (length (trace s)) (trace s')) = idList nA @ idList nS
     \<and> pick deleteSecret (drop (length (trace s)) (trace s')) = []
     \<and> pick updateCfg (drop (length (trace s)) (trace s')) = []
     \<and> pick recordUpdate (drop (length (trace s)) (trace s')) = []"
    using assms
    by (auto simp: createSecrets_def secrets_CreateSecret_def ext_eq snap_def logError_eq Let_def
        idList_def
        split: prod.splits option.splits if_splits)
  then show ?thesis by blast
qed

lemma performBackupStorageUpdate_ok:
  assumes "performBackupStorageUpdate env name params nA nS old s = (JSON StatusOK b, s')"
  shows "\<exists>r k0 ks.
           bstore s name = Some r
         \<and> kubernetesClusters env
              (trace s @ [Called (UpdateBackupStorageRecord name) None, Called Commit None,
                          Called (GetBackupStorage name) None]) = k0 # ks
         \<and> b = resultOf (updatedRecord params nA nS r)
         \<and> s' = deleteOldSecretsAfterUpdate env params old
                  (s\<lparr>bstore := (bstore s)(name \<mapsto> updatedRecord params nA nS r),
                     snaps := snaps s
                       @ [(vault s, (bstore s)(name \<mapsto> updatedRecord params nA nS r))],
                     trace := trace s @ Called (UpdateBackupStorageRecord name) None
                                # committed name k0\<rparr>)"
  using assms
  by (auto simp: performBackupStorageUpdate_def storage_Transaction_def updateBackupStorage_def
      storage_UpdateBackupStorage_def storage_GetBackupStorage_def initKubeClient_def
      ext_eq snap_def logError_eq Let_def updatedRecord_def committed_def
      StatusOK_def StatusInternalServerError_def StatusBadRequest_def
      split: prod.splits option.splits sum.splits if_splits list.splits)

lemma resolvable_updated:
  assumes "resolvable v b name" and "b name = Some r"
    and "\<forall>i. nA = Some i \<or> nS = Some i \<longrightarrow> v i \<noteq> None"
  shows "resolvable v (b(name \<mapsto> updatedRecord params nA nS r)) name"
  using assms
  by (auto simp: resolvable_def updatedRecord_def orElse_def split: option.splits)

lemma performBackupStorageUpdate_fail:
  assumes run: "performBackupStorageUpdate env name params nA nS old s = (resp, s')"
    and fail: "\<forall>b. resp \<noteq> JSON StatusOK b"
    and new: "\<forall>i. nA = Some i \<or> nS = Some i \<longrightarrow> vault s i \<noteq> None"
    and inv: "neverDangling name s"
  shows "neverDangling name s'
     \<and> (\<exists>evs. trace s' = trace s @ evs \<and> pick deleteSecret evs = [])"
proof -
  have upd: "\<And>r. bstore s name = Some r \<Longrightarrow>
               resolvable (vault s) ((bstore s)(name \<mapsto> updatedRecord params nA nS r)) name"
    using inv new by (intro resolvable_updated) (auto simp: neverDangling_def)
  have "neverDangling name s'
     \<and> trace s' = trace s @ drop (length (trace s)) (trace s')
     \<and> pick deleteSecret (drop (length (trace s)) (trace s')) = []"
    using run fail inv upd
    by (auto simp: performBackupStorageUpdate_def storage_Transaction_def updateBackupStorage_def
        storage_UpdateBackupStorage_def storage_GetBackupStorage_def initKubeClient_def
        ext_eq snap_def logError_eq Let_def neverDangling_def
        updatedRecord_def [symmetric]
        split: prod.splits option.splits sum.splits if_splits list.splits)
  then show ?thesis by blast
qed

lemma deleteUnusedSecret_cases:
  "(deleteUnusedSecret env i s
      = s\<lparr>vault := (vault s)(i := None),
           snaps := snaps s @ [((vault s)(i := None), bstore s)],
           trace := trace s @ [Called (DeleteSecret i) None]\<rparr>)
   \<or> (\<exists>e. deleteUnusedSecret env i s
          = s\<lparr>trace := trace s @
               [Called (DeleteSecret i) (Some e),
                Logged (ErrMsg (''Failed to delete unused secret, please delete it manually. id = '' @ i))]\<rparr>)"
  by (auto simp: deleteUnusedSecret_def secrets_DeleteSecret_def ext_eq snap_def logError_eq
      split: option.splits)

lemma resolvable_drop:
  assumes "resolvable v b name"
    and "\<forall>r. b name = Some r \<longrightarrow> AccessKeyID r \<noteq> i \<and> SecretKeyID r \<noteq> i"
  shows "resolvable (v(i := None)) b name"
  using assms by (auto simp: resolvable_def split: option.splits)

lemma deleteUnusedSecret_inv:
  assumes "neverDangling name s"
    and "\<forall>r. bstore s name = Some r \<longrightarrow> AccessKeyID r \<noteq> i \<and> SecretKeyID r \<noteq> i"
  shows "neverDangling name (deleteUnusedSecret env i s)"
  using deleteUnusedSecret_cases [of env i s] assms
  by (auto simp: neverDangling_def resolvable_drop)

lemma deleteUnusedSecret_frame:
  "bstore (deleteUnusedSecret env i s) = bstore s
   \<and> spawned (deleteUnusedSecret env i s) = spawned s
   \<and> (\<forall>j. j \<noteq> i \<longrightarrow> vault (deleteUnusedSecret env i s) j = vault s j)
   \<and> (vault s i = None \<longrightarrow> vault (deleteUnusedSecret env i s) i = None)"
  using deleteUnusedSecret_cases [of env i s] by auto

lemma deleteUnusedSecret_trace:
  "\<exists>evs. trace (deleteUnusedSecret env i s) = trace s @ evs
     \<and> pick deleteSecret evs = [i] \<and> pick createSecret evs = []
     \<and> pick updateCfg evs = [] \<and> pick recordUpdate evs = []
     \<and> (pick deletedSecret evs = [i] \<and> vault (deleteUnusedSecret env i s) i = None
        \<or> pick deletedSecret evs = [] \<and> vault (deleteUnusedSecret env i s) i = vault s i)"
  using deleteUnusedSecret_cases [of env i s]
proof
  assume a: "deleteUnusedSecret env i s
      = s\<lparr>vault := (vault s)(i := None),
           snaps := snaps s @ [((vault s)(i := None), bstore s)],
           trace := trace s @ [Called (DeleteSecret i) None]\<rparr>"
  show ?thesis
    by (rule exI [of _ "[Called (DeleteSecret i) None]"]) (simp add: a)
next
  assume "\<exists>e. deleteUnusedSecret env i s
          = s\<lparr>trace := trace s @
               [Called (DeleteSecret i) (Some e),
                Logged (ErrMsg (''Failed to delete unused secret, please delete it manually. id = '' @ i))]\<rparr>"
  then obtain e where a: "deleteUnusedSecret env i s
          = s\<lparr>trace := trace s @
               [Called (DeleteSecret i) (Some e),
                Logged (ErrMsg (''Failed to delete unused secret, please delete it manually. id = '' @ i))]\<rparr>"
    by blast
  show ?thesis
    by (rule exI [of _ "[Called (DeleteSecret i) (Some e),
                Logged (ErrMsg (''Failed to delete unused secret, please delete it manually. id = '' @ i))]"])
      (simp add: a)
qed

lemma deleteUnusedSecret_step:
  "\<exists>evs. trace (deleteUnusedSecret env i s) = trace s @ evs
     \<and> pick deleteSecret evs = [i] \<and> pick createSecret evs = []
     \<and> pick updateCfg evs = [] \<and> pick recordUpdate evs = []
     \<and> set (pick deletedSecret evs) \<subseteq> {i}
     \<and> (\<forall>j. vault (deleteUnusedSecret env i s) j
              = (if j \<in> set (pick deletedSecret evs) then None else vault s j))"
proof -
  from deleteUnusedSecret_trace [of env i s] obtain evs where
    e: "trace (deleteUnusedSecret env i s) = trace s @ evs"
      "pick deleteSecret evs = [i]" "pick createSecret evs = []"
      "pick updateCfg evs = []" "pick recordUpdate evs = []"
      "pick deletedSecret evs = [i] \<and> vault (deleteUnusedSecret env i s) i = None
        \<or> pick deletedSecret evs = [] \<and> vault (deleteUnusedSecret env i s) i = vault s i"
    by blast
  have "\<forall>j. vault (deleteUnusedSecret env i s) j
              = (if j \<in> set (pick deletedSecret evs) then None else vault s j)"
    using e(6) deleteUnusedSecret_frame [of env i s] by auto
  moreover have "set (pick deletedSecret evs) \<subseteq> {i}"
    using e(6) by auto
  ultimately show ?thesis
    using e(1-5) by blast
qed

lemma optional_delete_step:
  fixes requested :: "string option" and i :: string and s :: st and env :: env
  defines "ids \<equiv> (case requested of None \<Rightarrow> [] | Some v \<Rightarrow> [i])"
  defines "s' \<equiv> (case requested of None \<Rightarrow> s | Some v \<Rightarrow> deleteUnusedSecret env i s)"
  shows "bstore s' = bstore s
     \<and> ((neverDangling name s
          \<and> (\<forall>r. bstore s name = Some r \<longrightarrow>
                 AccessKeyID r \<notin> set ids \<and> SecretKeyID r \<notin> set ids))
        \<longrightarrow> neverDangling name s')
     \<and> (\<exists>evs. trace s' = trace s @ evs
           \<and> pick deleteSecret evs = ids \<and> pick createSecret evs = []
           \<and> pick updateCfg evs = [] \<and> pick recordUpdate evs = []
           \<and> set (pick deletedSecret evs) \<subseteq> set ids
           \<and> (\<forall>j. vault s' j = (if j \<in> set (pick deletedSecret evs) then None else vault s j)))"
proof (cases requested)
  case None
  then have "s' = s" "ids = []"
    by (simp_all add: s'_def ids_def)
  then show ?thesis
    by (auto intro: exI [of _ "[]"])
next
  case (Some v)
  then have s': "s' = deleteUnusedSecret env i s" and ids: "ids = [i]"
    by (simp_all add: s'_def ids_def)
  from deleteUnusedSecret_step [of env i s] obtain evs where
    e: "trace s' = trace s @ evs"
      "pick deleteSecret evs = ids" "pick createSecret evs = []"
      "pick updateCfg evs = []" "pick recordUpdate evs = []"
      "set (pick deletedSecret evs) \<subseteq> set ids"
      "\<forall>j. vault s' j = (if j \<in> set (pick deletedSecret evs) then None else vault s j)"
    unfolding s' ids by auto
  have b: "bstore s' = bstore s"
    using deleteUnusedSecret_frame [of env i s] s' by simp
  have inv: "(neverDangling name s
          \<and> (\<forall>r. bstore s name = Some r \<longrightarrow>
                 AccessKeyID r \<notin> set ids \<and> SecretKeyID r \<notin> set ids))
        \<longrightarrow> neverDangling name s'"
    using deleteUnusedSecret_inv [of name s i env] s' ids by auto
  from b inv e show ?thesis
    by blast
qed

lemma deleteOldSecretsAfterUpdate_effect:
  fixes env :: env and params :: UpdateBackupStorageParams and old :: BackupStorage and s :: st
  defines "s' \<equiv> deleteOldSecretsAfterUpdate env params old s"
  shows "((neverDangling name s
           \<and> (\<forall>r. bstore s name = Some r \<longrightarrow>
                  AccessKeyID r \<notin> set (replaced params old)
                \<and> SecretKeyID r \<notin> set (replaced params old)))
          \<longrightarrow> neverDangling name s')
     \<and> bstore s' = bstore s
     \<and> (\<exists>post. trace s' = trace s @ post
           \<and> pick deleteSecret post = replaced params old \<and> pick createSecret post = []
           \<and> pick updateCfg post = [] \<and> pick recordUpdate post = []
           \<and> set (pick deletedSecret post) \<subseteq> set (replaced params old)
           \<and> (\<forall>j. vault s' j
                 = (if j \<in> set (pick deletedSecret post) then None else vault s j)))"
proof -
  let ?ids1 = "(case u_AccessKey params of None \<Rightarrow> [] | Some v \<Rightarrow> [AccessKeyID old])"
  let ?ids2 = "(case u_SecretKey params of None \<Rightarrow> [] | Some v \<Rightarrow> [SecretKeyID old])"
  define s1 where "s1 = (case u_AccessKey params of None \<Rightarrow> s
                         | Some v \<Rightarrow> deleteUnusedSecret env (AccessKeyID old) s)"
  have s': "s' = (case u_SecretKey params of None \<Rightarrow> s1
                  | Some v \<Rightarrow> deleteUnusedSecret env (SecretKeyID old) s1)"
    by (simp add: s'_def deleteOldSecretsAfterUpdate_def s1_def Let_def split: option.splits)
  have ids: "replaced params old = ?ids1 @ ?ids2"
    by (simp add: replaced_def)
  from optional_delete_step [where requested = "u_AccessKey params" and s = s and env = env
      and i = "AccessKeyID old" and name = name]
  obtain evs1 where
    b1: "bstore s1 = bstore s" and
    i1: "(neverDangling name s
           \<and> (\<forall>r. bstore s name = Some r \<longrightarrow>
                  AccessKeyID r \<notin> set ?ids1 \<and> SecretKeyID r \<notin> set ?ids1))
          \<longrightarrow> neverDangling name s1" and
    e1: "trace s1 = trace s @ evs1"
      "pick deleteSecret evs1 = ?ids1" "pick createSecret evs1 = []"
      "pick updateCfg evs1 = []" "pick recordUpdate evs1 = []"
      "set (pick deletedSecret evs1) \<subseteq> set ?ids1"
      "\<forall>j. vault s1 j = (if j \<in> set (pick deletedSecret evs1) then None else vault s j)"
    unfolding s1_def [symmetric] by blast
  from optional_delete_step [where requested = "u_SecretKey params" and s = s1 and env = env
      and i = "SecretKeyID old" and name = name]
  obtain evs2 where
    b2: "bstore s' = bstore s1" and
    i2: "(neverDangling name s1
           \<and> (\<forall>r. bstore s1 name = Some r \<longrightarrow>
                  AccessKeyID r \<notin> set ?ids2 \<and> SecretKeyID r \<notin> set ?ids2))
          \<longrightarrow> neverDangling name s'" and
    e2: "trace s' = trace s1 @ evs2"
      "pick deleteSecret evs2 = ?ids2" "pick createSecret evs2 = []"
      "pick updateCfg evs2 = []" "pick recordUpdate evs2 = []"
      "set (pick deletedSecret evs2) \<subseteq> set ?ids2"
      "\<forall>j. vault s' j = (if j \<in> set (pick deletedSecret evs2) then None else vault s1 j)"
    unfolding s' [symmetric] by blast
  have inv: "(neverDangling name s
           \<and> (\<forall>r. bstore s name = Some r \<longrightarrow>
                  AccessKeyID r \<notin> set (replaced params old)
                \<and> SecretKeyID r \<notin> set (replaced params old)))
          \<longrightarrow> neverDangling name s'"
    using i1 i2 b1 ids by auto
  have "trace s' = trace s @ (evs1 @ evs2)"
    "pick deleteSecret (evs1 @ evs2) = replaced params old"
    "pick createSecret (evs1 @ evs2) = []"
    "pick updateCfg (evs1 @ evs2) = []" "pick recordUpdate (evs1 @ evs2) = []"
    "set (pick deletedSecret (evs1 @ evs2)) \<subseteq> set (replaced params old)"
    "\<forall>j. vault s' j = (if j \<in> set (pick deletedSecret (evs1 @ evs2)) then None else vault s j)"
    using e1 e2 ids by auto
  with inv b1 b2 show ?thesis
    by (intro conjI exI [of _ "evs1 @ evs2"]) simp_all
qed

lemma cleanUp_without_error: "cleanUpNewSecretsOnUpdateError env None a b s = s"
  by (simp add: cleanUpNewSecretsOnUpdateError_def)

lemma UpdateBackupStorage_ok:
  assumes "UpdateBackupStorage env name (Inr params) s = (JSON StatusOK b, s')"
  shows "\<exists>old s1 s2 nA nS.
           checkStorageAccessByUpdate env name params s = (Inr old, s1)
         \<and> createSecrets env (u_AccessKey params) (u_SecretKey params) s1 = ((nA, nS, None), s2)
         \<and> performBackupStorageUpdate env name params nA nS old s2 = (JSON StatusOK b, s')"
  using assms
  by (auto simp: UpdateBackupStorage_def cleanUp_without_error
      StatusOK_def StatusNotFound_def StatusBadRequest_def StatusInternalServerError_def
      split: prod.splits option.splits sum.splits if_splits)

lemma neverDangling_trace [simp]:
  "neverDangling name (s\<lparr>trace := t\<rparr>) = neverDangling name s"
  by (simp add: neverDangling_def)

lemma UpdateBackupStorage_not_ok:
  assumes run: "UpdateBackupStorage env name (Inr params) s = (resp, s')"
    and fail: "\<forall>b. resp \<noteq> JSON StatusOK b"
    and inv: "neverDangling name s"
  shows "neverDangling name s'
     \<and> (\<exists>evs. trace s' = trace s @ evs \<and> pick deleteSecret evs = [])"
proof -
  obtain r s1 where c: "checkStorageAccessByUpdate env name params s = (r, s1)"
    by (cases "checkStorageAccessByUpdate env name params s")
  from checkStorageAccessByUpdate_reads [OF c] obtain evs1 where
    e1: "s1 = s\<lparr>trace := trace s @ evs1\<rparr>" "pick deleteSecret evs1 = []"
    by blast
  have i1: "neverDangling name s1"
    using e1 inv by simp
  show ?thesis
  proof (cases r)
    case (Inl err)
    have "s' = s1 \<or> s' = logError err s1"
      using run c Inl by (auto simp: UpdateBackupStorage_def split: if_splits)
    then show ?thesis
    proof
      assume "s' = s1"
      with e1 i1 show ?thesis
        by (intro conjI exI [of _ evs1]) simp_all
    next
      assume "s' = logError err s1"
      with e1 i1 show ?thesis
        by (intro conjI exI [of _ "evs1 @ [Logged err]"]) (simp_all add: logError_eq)
    qed
  next
    case (Inr old)
    obtain nA nS err s2 where
      k: "createSecrets env (u_AccessKey params) (u_SecretKey params) s1 = ((nA, nS, err), s2)"
      by (cases "createSecrets env (u_AccessKey params) (u_SecretKey params) s1") auto
    from createSecrets_any [OF k, of name] i1 obtain evs2 where
      e2: "trace s2 = trace s1 @ evs2" "pick deleteSecret evs2 = []" and
      i2: "neverDangling name s2"
      by blast
    show ?thesis
    proof (cases err)
      case (Some e)
      have "s' = logError e s2"
        using run c Inr k Some by (simp add: UpdateBackupStorage_def cleanUp_without_error)
      with e1 e2 i2 show ?thesis
        by (intro conjI exI [of _ "evs1 @ evs2 @ [Logged e]"]) (simp_all add: logError_eq)
    next
      case None
      have p: "performBackupStorageUpdate env name params nA nS old s2 = (resp, s')"
        using run c Inr k None by (simp add: UpdateBackupStorage_def cleanUp_without_error)
      have new: "\<forall>i. nA = Some i \<or> nS = Some i \<longrightarrow> vault s2 i \<noteq> None"
        using createSecrets_ok [of env "u_AccessKey params" "u_SecretKey params" s1 nA nS s2]
          k None by blast
      from performBackupStorageUpdate_fail [OF p fail new i2] obtain evs3 where
        "neverDangling name s'" "trace s' = trace s2 @ evs3" "pick deleteSecret evs3 = []"
        by blast
      with e1 e2 show ?thesis
        by (intro conjI exI [of _ "evs1 @ evs2 @ evs3"]) simp_all
    qed
  qed
qed

lemma UpdateBackupStorage_ok_shape:
  assumes run: "UpdateBackupStorage env name (Inr params) s = (JSON StatusOK b, s')"
  shows "\<exists>old nA nS pre k0 ks s5.
           bstore s name = Some old
         \<and> (nA = None \<longleftrightarrow> u_AccessKey params = None)
         \<and> (nS = None \<longleftrightarrow> u_SecretKey params = None)
         \<and> (\<forall>i. nA = Some i \<or> nS = Some i \<longrightarrow> vault s5 i \<noteq> None \<and> (\<exists>t. i = NewString env t))
         \<and> (\<forall>i. vault s i \<noteq> None \<longrightarrow> vault s5 i \<noteq> None)
         \<and> (neverDangling name s \<longrightarrow> neverDangling name s5)
         \<and> bstore s5 = (bstore s)(name \<mapsto> updatedRecord params nA nS old)
         \<and> trace s5 = trace s @ pre
              @ Called (UpdateBackupStorageRecord name) None # committed name k0
         \<and> kubernetesClusters env
              (trace s @ pre @ [Called (UpdateBackupStorageRecord name) None, Called Commit None,
                             Called (GetBackupStorage name) None]) = k0 # ks
         \<and> pick createSecret pre = idList nA @ idList nS
         \<and> pick deleteSecret pre = [] \<and> pick updateCfg pre = [] \<and> pick recordUpdate pre = []
         \<and> b = resultOf (updatedRecord params nA nS old)
         \<and> s' = deleteOldSecretsAfterUpdate env params old s5"
proof -
  from UpdateBackupStorage_ok [OF run] obtain old s1 s2 nA nS where
    c: "checkStorageAccessByUpdate env name params s = (Inr old, s1)" and
    k: "createSecrets env (u_AccessKey params) (u_SecretKey params) s1 = ((nA, nS, None), s2)" and
    p: "performBackupStorageUpdate env name params nA nS old s2 = (JSON StatusOK b, s')"
    by blast
  from checkStorageAccessByUpdate_reads [OF c] obtain evs1 where
    e1: "s1 = s\<lparr>trace := trace s @ evs1\<rparr>"
      "pick createSecret evs1 = []" "pick deleteSecret evs1 = []"
      "pick updateCfg evs1 = []" "pick recordUpdate evs1 = []" and
    old: "bstore s name = Some old"
    by blast
  note ok = createSecrets_ok [OF k]
  from ok have
    n: "nA = None \<longleftrightarrow> u_AccessKey params = None" "nS = None \<longleftrightarrow> u_SecretKey params = None"
      "\<forall>i. nA = Some i \<or> nS = Some i \<longrightarrow> vault s2 i \<noteq> None \<and> (\<exists>t. i = NewString env t)"
    by simp_all
  from ok have "\<exists>evs. trace s2 = trace s1 @ evs
            \<and> pick createSecret evs = idList nA @ idList nS
            \<and> pick deleteSecret evs = [] \<and> pick updateCfg evs = []
            \<and> pick recordUpdate evs = []"
    by simp
  then obtain evs2 where
    e2: "trace s2 = trace s1 @ evs2" "pick createSecret evs2 = idList nA @ idList nS"
      "pick deleteSecret evs2 = []" "pick updateCfg evs2 = []" "pick recordUpdate evs2 = []"
    by (elim exE conjE)
  from createSecrets_any [OF k, of name] have
    f2: "bstore s2 = bstore s1" "neverDangling name s1 \<longrightarrow> neverDangling name s2"
      "\<forall>i. vault s1 i \<noteq> None \<longrightarrow> vault s2 i \<noteq> None"
    by simp_all
  from performBackupStorageUpdate_ok [OF p] obtain r k0 ks where
    r: "bstore s2 name = Some r" and
    ks: "kubernetesClusters env
           (trace s2 @ [Called (UpdateBackupStorageRecord name) None, Called Commit None,
                        Called (GetBackupStorage name) None]) = k0 # ks" and
    b: "b = resultOf (updatedRecord params nA nS r)" and
    s': "s' = deleteOldSecretsAfterUpdate env params old
                  (s2\<lparr>bstore := (bstore s2)(name \<mapsto> updatedRecord params nA nS r),
                      snaps := snaps s2
                        @ [(vault s2, (bstore s2)(name \<mapsto> updatedRecord params nA nS r))],
                      trace := trace s2 @ Called (UpdateBackupStorageRecord name) None
                                 # committed name k0\<rparr>)"
    by (elim exE conjE)
  have r_old: "r = old"
    using r old f2(1) e1(1) by simp
  let ?s5 = "s2\<lparr>bstore := (bstore s2)(name \<mapsto> updatedRecord params nA nS old),
                 snaps := snaps s2
                   @ [(vault s2, (bstore s2)(name \<mapsto> updatedRecord params nA nS old))],
                 trace := trace s2 @ Called (UpdateBackupStorageRecord name) None
                            # committed name k0\<rparr>"
  have inv5: "neverDangling name s \<longrightarrow> neverDangling name ?s5"
  proof
    assume "neverDangling name s"
    then have i2: "neverDangling name s2"
      using f2(2) e1(1) by simp
    have "resolvable (vault s2) ((bstore s2)(name \<mapsto> updatedRecord params nA nS old)) name"
      using i2 r r_old n(3) by (intro resolvable_updated) (auto simp: neverDangling_def)
    with i2 show "neverDangling name ?s5"
      by (simp add: neverDangling_def)
  qed
  have t5: "trace ?s5 = trace s @ (evs1 @ evs2)
              @ Called (UpdateBackupStorageRecord name) None # committed name k0"
    using e1(1) e2(1) by simp
  have ks5: "kubernetesClusters env
              (trace s @ (evs1 @ evs2) @ [Called (UpdateBackupStorageRecord name) None,
                 Called Commit None, Called (GetBackupStorage name) None]) = k0 # ks"
    using ks e1(1) e2(1) by simp
  have v5: "\<forall>i. nA = Some i \<or> nS = Some i \<longrightarrow> vault ?s5 i \<noteq> None \<and> (\<exists>t. i = NewString env t)"
    using n(3) by simp
  have m5: "\<forall>i. vault s i \<noteq> None \<longrightarrow> vault ?s5 i \<noteq> None"
    using f2(3) e1(1) by simp
  have b5: "bstore ?s5 = (bstore s)(name \<mapsto> updatedRecord params nA nS old)"
    using f2(1) e1(1) by simp
  have p5: "pick createSecret (evs1 @ evs2) = idList nA @ idList nS"
    "pick deleteSecret (evs1 @ evs2) = []" "pick updateCfg (evs1 @ evs2) = []"
    "pick recordUpdate (evs1 @ evs2) = []"
    using e1(2-5) e2(2-5) by simp_all
  have r5: "b = resultOf (updatedRecord params nA nS old)"
    using b r_old by simp
  have s5: "s' = deleteOldSecretsAfterUpdate env params old ?s5"
    using s' r_old by simp
  show ?thesis
    apply (rule exI [of _ old], rule exI [of _ nA], rule exI [of _ nS])
    apply (rule exI [of _ "evs1 @ evs2"], rule exI [of _ k0], rule exI [of _ ks])
    apply (rule exI [of _ ?s5])
    apply (intro conjI)
    apply (rule old n(1) n(2) v5 m5 inv5 b5 t5 ks5 p5 r5 s5)+
    done
qed

text \<open>
  Claim C7, as amended. In an update of a backup storage that answers 200, the events
  since the request are: some events \<open>pre\<close>, the commit of the transaction, the fetch
  of the updated record, the listing of the Kubernetes clusters, the two calls that make
  the client of \<open>k0\<close>, the first cluster of that listing, and \<^verbatim>\<open>UpdateConfig\<close> through
  that client; then some events \<open>post\<close>. No other \<^verbatim>\<open>UpdateConfig\<close> is made, for
  \<open>k0\<close> or for any other registered cluster, and no secret is deleted before it.
  (\<^verbatim>\<open>performBackupStorageUpdate\<close> takes \<^verbatim>\<open>ks[0]\<close>, under the comment
  "Revisit it once multi k8s support will be enabled".)
\<close>

theorem C7_update_reaches_first_cluster_only:
  assumes run: "UpdateBackupStorage env name (Inr params) s = (JSON StatusOK b, s')"
  shows "\<exists>pre post k0 ks.
           trace s' = trace s @ pre
             @ [Called Commit None,
                Called (GetBackupStorage name) None,
                Called ListKubernetesClusters None,
                Called (GetKubernetesCluster k0) None,
                Called (NewFromSecretsStorage k0) None,
                Called (UpdateConfig k0 (BackupStorageConfig name)) None]
             @ post
         \<and> kubernetesClusters env
              (trace s @ pre @ [Called Commit None, Called (GetBackupStorage name) None])
             = k0 # ks
         \<and> pick updateCfg pre = [] \<and> pick updateCfg post = []
         \<and> pick deleteSecret pre = []"
proof -
  from UpdateBackupStorage_ok_shape [OF run] obtain old nA nS pre k0 ks s5 where
    t5: "trace s5 = trace s @ pre
           @ Called (UpdateBackupStorageRecord name) None # committed name k0" and
    ks: "kubernetesClusters env
           (trace s @ pre @ [Called (UpdateBackupStorageRecord name) None, Called Commit None,
                          Called (GetBackupStorage name) None]) = k0 # ks" and
    p: "pick deleteSecret pre = []" "pick updateCfg pre = []" and
    s': "s' = deleteOldSecretsAfterUpdate env params old s5"
    by (elim exE conjE)
  from deleteOldSecretsAfterUpdate_effect [of name s5 params old env] obtain post where
    e: "trace s' = trace s5 @ post" "pick updateCfg post = []"
    unfolding s' by (elim exE conjE)
  let ?pre = "pre @ [Called (UpdateBackupStorageRecord name) None]"
  have 1: "trace s' = trace s @ ?pre
             @ [Called Commit None,
                Called (GetBackupStorage name) None,
                Called ListKubernetesClusters None,
                Called (GetKubernetesCluster k0) None,
                Called (NewFromSecretsStorage k0) None,
                Called (UpdateConfig k0 (BackupStorageConfig name)) None]
             @ post"
    using e(1) t5 by (simp add: committed_def)
  have 2: "kubernetesClusters env
              (trace s @ ?pre @ [Called Commit None, Called (GetBackupStorage name) None])
             = k0 # ks"
    using ks by simp
  have 3: "pick updateCfg ?pre = []" "pick deleteSecret ?pre = []"
    using p by simp_all
  show ?thesis
    apply (rule exI [of _ ?pre], rule exI [of _ post], rule exI [of _ k0], rule exI [of _ ks])
    apply (intro conjI)
    apply (rule 1 2 3 e(2))+
    done
qed

text \<open>
  Claim C3, as amended. Let the record \<open>name\<close> reference resolvable secret ids, now and
  after every earlier write, under two different ids, and let \<^verbatim>\<open>uuid.NewString\<close>
  return ids that are not in the vault. Then after \<^verbatim>\<open>UpdateBackupStorage\<close>, whatever
  it answers, the record has referenced resolvable ids after every write
  (\<open>neverDangling\<close>). Unless the answer is 200 no secret is deleted. When it is 200:
  all \<^verbatim>\<open>CreateSecret\<close> calls come before the update of the record, which is
  followed by the commit and, later, the update of the config; only after that come the
  \<^verbatim>\<open>DeleteSecret\<close> calls, one for each old id whose credential the request
  replaces. The record then references, for each replaced credential, an id that was
  created in this request and was not in the vault before; both its ids resolve; and a
  replaced old id has left the vault exactly when its \<^verbatim>\<open>DeleteSecret\<close> call
  succeeded (a failed one is logged, and the old secret stays).
\<close>

theorem C3_update_keeps_references_resolvable:
  assumes inv: "neverDangling name s"
    and own: "\<forall>r. bstore s name = Some r \<longrightarrow> AccessKeyID r \<noteq> SecretKeyID r"
    and fresh: "\<forall>t. vault s (NewString env t) = None"
    and run: "UpdateBackupStorage env name (Inr params) s = (resp, s')"
  shows "neverDangling name s'
     \<and> ((\<forall>b. resp \<noteq> JSON StatusOK b) \<longrightarrow>
          (\<exists>evs. trace s' = trace s @ evs \<and> pick deleteSecret evs = []))
     \<and> ((\<exists>b. resp = JSON StatusOK b) \<longrightarrow>
          (\<exists>old new pre post k0.
              bstore s name = Some old \<and> bstore s' name = Some new
            \<and> trace s' = trace s @ pre
                 @ [Called (UpdateBackupStorageRecord name) None,
                    Called Commit None,
                    Called (GetBackupStorage name) None,
                    Called ListKubernetesClusters None,
                    Called (GetKubernetesCluster k0) None,
                    Called (NewFromSecretsStorage k0) None,
                    Called (UpdateConfig k0 (BackupStorageConfig name)) None]
                 @ post
            \<and> pick deleteSecret pre = [] \<and> pick recordUpdate pre = []
            \<and> pick createSecret post = [] \<and> pick recordUpdate post = []
            \<and> pick deleteSecret post = replaced params old
            \<and> (u_AccessKey params \<noteq> None \<longrightarrow>
                  AccessKeyID new \<in> set (pick createSecret pre)
                \<and> vault s (AccessKeyID new) = None)
            \<and> (u_SecretKey params \<noteq> None \<longrightarrow>
                  SecretKeyID new \<in> set (pick createSecret pre)
                \<and> vault s (SecretKeyID new) = None)
            \<and> vault s' (AccessKeyID new) \<noteq> None \<and> vault s' (SecretKeyID new) \<noteq> None
            \<and> (\<forall>i \<in> set (replaced params old).
                  (vault s' i = None) = (i \<in> set (pick deletedSecret post)))))"
proof (cases "\<exists>b. resp = JSON StatusOK b")
  case False
  with UpdateBackupStorage_not_ok [OF run _ inv] show ?thesis
    by simp
next
  case True
  then obtain b where b: "resp = JSON StatusOK b"
    by blast
  from UpdateBackupStorage_ok_shape [OF run [unfolded b]]
  obtain old nA nS pre k0 ks s5 where
    old: "bstore s name = Some old" and
    n: "nA = None \<longleftrightarrow> u_AccessKey params = None" "nS = None \<longleftrightarrow> u_SecretKey params = None" and
    v5: "\<forall>i. nA = Some i \<or> nS = Some i \<longrightarrow> vault s5 i \<noteq> None \<and> (\<exists>t. i = NewString env t)" and
    m5: "\<forall>i. vault s i \<noteq> None \<longrightarrow> vault s5 i \<noteq> None" and
    i5: "neverDangling name s \<longrightarrow> neverDangling name s5" and
    b5: "bstore s5 = (bstore s)(name \<mapsto> updatedRecord params nA nS old)" and
    t5: "trace s5 = trace s @ pre
           @ Called (UpdateBackupStorageRecord name) None # committed name k0" and
    p: "pick createSecret pre = idList nA @ idList nS" "pick deleteSecret pre = []"
      "pick recordUpdate pre = []" and
    s': "s' = deleteOldSecretsAfterUpdate env params old s5"
    by (elim exE conjE)
  define new where "new = updatedRecord params nA nS old"
  have olds: "vault s (AccessKeyID old) \<noteq> None" "vault s (SecretKeyID old) \<noteq> None"
    "AccessKeyID old \<noteq> SecretKeyID old"
    using inv own old by (simp_all add: neverDangling_def resolvable_def)
  have rep: "set (replaced params old) \<subseteq> {AccessKeyID old, SecretKeyID old}"
    by (auto simp: replaced_def split: option.splits)
  have newA: "u_AccessKey params \<noteq> None \<longrightarrow>
                AccessKeyID new \<in> set (pick createSecret pre) \<and> vault s (AccessKeyID new) = None"
  proof
    assume "u_AccessKey params \<noteq> None"
    then obtain i where i: "nA = Some i"
      using n(1) by auto
    then have "AccessKeyID new = i"
      by (simp add: new_def updatedRecord_def orElse_def)
    moreover have "i \<in> set (pick createSecret pre)"
      using p(1) i by (simp add: idList_def)
    moreover have "vault s i = None"
      using v5 i fresh by auto
    ultimately show "AccessKeyID new \<in> set (pick createSecret pre)
                     \<and> vault s (AccessKeyID new) = None"
      by simp
  qed
  have newS: "u_SecretKey params \<noteq> None \<longrightarrow>
                SecretKeyID new \<in> set (pick createSecret pre) \<and> vault s (SecretKeyID new) = None"
  proof
    assume "u_SecretKey params \<noteq> None"
    then obtain i where i: "nS = Some i"
      using n(2) by auto
    then have "SecretKeyID new = i"
      by (simp add: new_def updatedRecord_def orElse_def)
    moreover have "i \<in> set (pick createSecret pre)"
      using p(1) i by (simp add: idList_def)
    moreover have "vault s i = None"
      using v5 i fresh by auto
    ultimately show "SecretKeyID new \<in> set (pick createSecret pre)
                     \<and> vault s (SecretKeyID new) = None"
      by simp
  qed
  have keptA: "u_AccessKey params = None \<longrightarrow> AccessKeyID new = AccessKeyID old"
    using n(1) by (auto simp: new_def updatedRecord_def orElse_def)
  have keptS: "u_SecretKey params = None \<longrightarrow> SecretKeyID new = SecretKeyID old"
    using n(2) by (auto simp: new_def updatedRecord_def orElse_def)
  have apartA: "AccessKeyID new \<notin> set (replaced params old)"
  proof (cases "u_AccessKey params")
    case None
    then show ?thesis
      using keptA olds(3) by (auto simp: replaced_def split: option.splits)
  next
    case (Some v)
    then have "vault s (AccessKeyID new) = None"
      using newA by simp
    then show ?thesis
      using rep olds by auto
  qed
  have apartS: "SecretKeyID new \<notin> set (replaced params old)"
  proof (cases "u_SecretKey params")
    case None
    then show ?thesis
      using keptS olds(3) by (auto simp: replaced_def split: option.splits)
  next
    case (Some v)
    then have "vault s (SecretKeyID new) = None"
      using newS by simp
    then show ?thesis
      using rep olds by auto
  qed
  have apart: "\<forall>r. bstore s5 name = Some r \<longrightarrow>
                 AccessKeyID r \<notin> set (replaced params old)
               \<and> SecretKeyID r \<notin> set (replaced params old)"
    using b5 apartA apartS by (simp add: new_def)
  from deleteOldSecretsAfterUpdate_effect [of name s5 params old env] obtain post where
    i': "(neverDangling name s5
           \<and> (\<forall>r. bstore s5 name = Some r \<longrightarrow>
                  AccessKeyID r \<notin> set (replaced params old)
                \<and> SecretKeyID r \<notin> set (replaced params old)))
          \<longrightarrow> neverDangling name s'" and
    b': "bstore s' = bstore s5" and
    e: "trace s' = trace s5 @ post" "pick deleteSecret post = replaced params old"
      "pick createSecret post = []" "pick recordUpdate post = []"
      "\<forall>j. vault s' j = (if j \<in> set (pick deletedSecret post) then None else vault s5 j)"
    unfolding s' by (elim exE conjE)
  have inv': "neverDangling name s'"
    using i' i5 inv apart by blast
  have new': "bstore s' name = Some new"
    using b' b5 by (simp add: new_def)
  have res: "vault s' (AccessKeyID new) \<noteq> None" "vault s' (SecretKeyID new) \<noteq> None"
    using inv' new' by (simp_all add: neverDangling_def resolvable_def)
  have tr: "trace s' = trace s @ pre
                 @ [Called (UpdateBackupStorageRecord name) None,
                    Called Commit None,
                    Called (GetBackupStorage name) None,
                    Called ListKubernetesClusters None,
                    Called (GetKubernetesCluster k0) None,
                    Called (NewFromSecretsStorage k0) None,
                    Called (UpdateConfig k0 (BackupStorageConfig name)) None]
                 @ post"
    using e(1) t5 by (simp add: committed_def)
  have gone: "\<forall>i \<in> set (replaced params old).
                (vault s' i = None) = (i \<in> set (pick deletedSecret post))"
  proof
    fix i
    assume "i \<in> set (replaced params old)"
    then have "vault s5 i \<noteq> None"
      using rep olds m5 by auto
    then show "(vault s' i = None) = (i \<in> set (pick deletedSecret post))"
      using e(5) by simp
  qed
  have ok: "\<exists>old new pre post k0.
              bstore s name = Some old \<and> bstore s' name = Some new
            \<and> trace s' = trace s @ pre
                 @ [Called (UpdateBackupStorageRecord name) None,
                    Called Commit None,
                    Called (GetBackupStorage name) None,
                    Called ListKubernetesClusters None,
                    Called (GetKubernetesCluster k0) None,
                    Called (NewFromSecretsStorage k0) None,
                    Called (UpdateConfig k0 (BackupStorageConfig name)) None]
                 @ post
            \<and> pick deleteSecret pre = [] \<and> pick recordUpdate pre = []
            \<and> pick createSecret post = [] \<and> pick recordUpdate post = []
            \<and> pick deleteSecret post = replaced params old
            \<and> (u_AccessKey params \<noteq> None \<longrightarrow>
                  AccessKeyID new \<in> set (pick createSecret pre)
                \<and> vault s (AccessKeyID new) = None)
            \<and> (u_SecretKey params \<noteq> None \<longrightarrow>
                  SecretKeyID new \<in> set (pick createSecret pre)
                \<and> vault s (SecretKeyID new) = None)
            \<and> vault s' (AccessKeyID new) \<noteq> None \<and> vault s' (SecretKeyID new) \<noteq> None
            \<and> (\<forall>i \<in> set (replaced params old).
                  (vault s' i = None) = (i \<in> set (pick deletedSecret post)))"
    apply (rule exI [of _ old], rule exI [of _ new], rule exI [of _ pre])
    apply (rule exI [of _ post], rule exI [of _ k0])
    apply (intro conjI)
    apply (rule old new' tr p(2) p(3) e(2) e(3) e(4) newA newS res gone)+
    done
  from inv' ok b show ?thesis
    by simp
qed

lemmas update_sample_defs =
  UpdateBackupStorage_def checkStorageAccessByUpdate_def storage_GetBackupStorage_def
  secrets_GetSecret_def ext_def createSecrets_def secrets_CreateSecret_def snap_def
  performBackupStorageUpdate_def storage_Transaction_def updateBackupStorage_def
  storage_UpdateBackupStorage_def initKubeClient_def deleteOldSecretsAfterUpdate_def
  deleteUnusedSecret_def secrets_DeleteSecret_def cleanUpNewSecretsOnUpdateError_def
  logError_def orElse_def resultOf_def Let_def
  StatusOK_def StatusInternalServerError_def StatusBadRequest_def StatusNotFound_def

text \<open>
  Claim C3 as stated fails: the record \<open>A\<close> has the access-key secret \<open>ak0\<close>; the
  update replaces both credentials and answers 200, the delete of \<open>ak0\<close> fails (it is
  logged), and \<open>ak0\<close> still resolves after the operation has completed.
\<close>

theorem C3_failed_delete_keeps_old_secret:
  "bstore stABC ''A'' = Some storageA
   \<and> AccessKeyID storageA = ''ak0''
   \<and> fst (UpdateBackupStorage envDeleteFails ''A'' (Inr updKeys) stABC)
       = JSON 200 (Result ''s3'' ''A'' [] ''bucket-a'' ''eu'' [])
   \<and> vault (snd (UpdateBackupStorage envDeleteFails ''A'' (Inr updKeys) stABC)) ''ak0''
       = Some ''AK''"
  by (simp add: update_sample_defs envDeleteFails_def envOK_def stABC_def storageA_def
      updKeys_def)

text \<open>
  Claim C7 as stated fails: two clusters are registered, \<open>k1\<close> and \<open>k2\<close>, the config
  of \<open>A\<close> is materialized in \<open>k2\<close>, the update of \<open>A\<close> answers 200, and the only
  \<^verbatim>\<open>UpdateConfig\<close> in the whole trace is the one through the client of \<open>k1\<close>.
\<close>

theorem C7_second_cluster_is_not_updated:
  "kubernetesClusters envOK (trace stInK2) = [''k1'', ''k2'']
   \<and> trace stInK2 = [Called (EnsureConfigExists ''k2'' (BackupStorageConfig ''A'')) None]
   \<and> fst (UpdateBackupStorage envOK ''A'' (Inr updKeys) stInK2)
       = JSON 200 (Result ''s3'' ''A'' [] ''bucket-a'' ''eu'' [])
   \<and> pick updateCfg (trace (snd (UpdateBackupStorage envOK ''A'' (Inr updKeys) stInK2)))
       = [(''k1'', BackupStorageConfig ''A'')]"
  by (simp add: update_sample_defs envOK_def stInK2_def stABC_def storageA_def updKeys_def)

lemma update_storage_sample:
  "UpdateBackupStorage envOK ''A'' (Inr updKeys) stABC
     = (JSON StatusOK (Result ''s3'' ''A'' [] ''bucket-a'' ''eu'' []),
        snd (UpdateBackupStorage envOK ''A'' (Inr updKeys) stABC))"
  by (simp add: prod_eq_iff update_sample_defs envOK_def stABC_def storageA_def updKeys_def)

theorem C7_update_reaches_first_cluster_only_witness:
  "UpdateBackupStorage envOK ''A'' (Inr updKeys) stABC
     = (JSON StatusOK (Result ''s3'' ''A'' [] ''bucket-a'' ''eu'' []),
        snd (UpdateBackupStorage envOK ''A'' (Inr updKeys) stABC))
   \<and> (\<exists>pre post k0 ks.
           trace (snd (UpdateBackupStorage envOK ''A'' (Inr updKeys) stABC)) = trace stABC @ pre
             @ [Called Commit None,
                Called (GetBackupStorage ''A'') None,
                Called ListKubernetesClusters None,
                Called (GetKubernetesCluster k0) None,
                Called (NewFromSecretsStorage k0) None,
                Called (UpdateConfig k0 (BackupStorageConfig ''A'')) None]
             @ post
         \<and> kubernetesClusters envOK
              (trace stABC @ pre @ [Called Commit None, Called (GetBackupStorage ''A'') None])
             = k0 # ks
         \<and> pick updateCfg pre = [] \<and> pick updateCfg post = []
         \<and> pick deleteSecret pre = [])"
  using C7_update_reaches_first_cluster_only [OF update_storage_sample] update_storage_sample
  by (intro conjI)

theorem C3_update_keeps_references_resolvable_witness:
  "neverDangling ''A'' stABC
   \<and> (\<forall>t. vault stABC (NewString envOK t) = None)
   \<and> UpdateBackupStorage envOK ''A'' (Inr updKeys) stABC
       = (JSON StatusOK (Result ''s3'' ''A'' [] ''bucket-a'' ''eu'' []),
          snd (UpdateBackupStorage envOK ''A'' (Inr updKeys) stABC))
   \<and> neverDangling ''A'' (snd (UpdateBackupStorage envOK ''A'' (Inr updKeys) stABC))"
proof -
  have inv: "neverDangling ''A'' stABC"
    by (simp add: neverDangling_def resolvable_def stABC_def storageA_def)
  have own: "\<forall>r. bstore stABC ''A'' = Some r \<longrightarrow> AccessKeyID r \<noteq> SecretKeyID r"
    by (simp add: stABC_def storageA_def)
  have fresh: "\<forall>t. vault stABC (NewString envOK t) = None"
    by (simp add: stABC_def envOK_def)
  from C3_update_keeps_references_resolvable [OF inv own fresh update_storage_sample]
  have "neverDangling ''A'' (snd (UpdateBackupStorage envOK ''A'' (Inr updKeys) stABC))"
    by (elim conjE)
  with inv fresh update_storage_sample show ?thesis
    by (intro conjI)
qed

end
